(* ===== verification/HT_Prelude.thy ===== *)
theory HT_Prelude
  imports Main "HOL-Library.Char_ord" "HOL-Library.List_Lexorder"
begin

text \<open>
  Shared vocabulary of the habit-tracker development: the exceptions that can escape
  a method of the program, the result type that carries them, the Python truthiness
  test on optional strings, and list facts used by several components.
\<close>

section \<open>Collections of facts\<close>

named_theorems cal_defs "unfolding rules of the calendar arithmetic"
named_theorems row_simps "selectors of the query helpers over tables"
named_theorems inv_defs "the conjuncts of the database invariant"

section \<open>Exceptions and results\<close>

text \<open>
  The program signals most failures by returning a message string. Three Python
  exceptions can nevertheless escape its methods: \<open>ValueError\<close> from
  \<open>datetime.strptime\<close>, \<open>TypeError\<close> from subscripting \<open>None\<close> or comparing a
  string with an integer, and \<open>sqlite3.IntegrityError\<close> from a violated constraint.
  The fourth value, \<open>NotModelled\<close>, is no exception of the program: it is the result
  of a call whose answer depends on a part of SQLite's date functions that the model
  does not cover.
\<close>

datatype py_error = ValueError | TypeError | IntegrityError | NotModelled

type_synonym 'a result = "py_error + 'a"

definition rbind :: "'a result \<Rightarrow> ('a \<Rightarrow> 'b result) \<Rightarrow> 'b result" where
  "rbind r f = (case r of Inl e \<Rightarrow> Inl e | Inr x \<Rightarrow> f x)"

lemma rbind_Inl [simp]: "rbind (Inl e) f = Inl e"
  by (simp add: rbind_def)

lemma rbind_Inr [simp]: "rbind (Inr x) f = f x"
  by (simp add: rbind_def)

lemma rbind_eq_Inr_iff: "rbind r f = Inr y \<longleftrightarrow> (\<exists>x. r = Inr x \<and> f x = Inr y)"
  by (cases r) simp_all

lemma rbind_eq_Inl_iff:
  "rbind r f = Inl e \<longleftrightarrow> r = Inl e \<or> (\<exists>x. r = Inr x \<and> f x = Inl e)"
  by (cases r) auto

text \<open>Python's \<open>if x:\<close> on an optional string: \<open>None\<close> and \<open>""\<close> are false.\<close>

fun truthy :: "string option \<Rightarrow> bool" where
  "truthy None = False"
| "truthy (Some s) = (s \<noteq> [])"

lemma truthy_iff: "truthy x \<longleftrightarrow> (\<exists>s. x = Some s \<and> s \<noteq> [])"
  by (cases x) auto

section \<open>Integer division\<close>

text \<open>Python's \<open>//\<close> and \<open>%\<close> on integers are HOL's \<open>div\<close> and \<open>mod\<close> on \<open>int\<close>:
  both round towards minus infinity.\<close>

lemma int_div_pred:
  fixes y k :: int
  assumes "0 < k"
  shows "(y - 1) div k = y div k - (if y mod k = 0 then 1 else 0)"
proof (cases "y mod k = 0")
  case True
  then have "y = k * (y div k)" using mult_div_mod_eq [of k y] by simp
  then have "y - 1 = k * (y div k - 1) + (k - 1)" by (simp add: algebra_simps)
  then have "(y - 1) div k = y div k - 1"
    by (rule int_div_pos_eq) (use assms in simp_all)
  with True show ?thesis by simp
next
  case False
  have r: "0 \<le> y mod k" "y mod k < k" using assms by simp_all
  with False have "1 \<le> y mod k" by simp
  have "y = k * (y div k) + y mod k" by simp
  then have "y - 1 = k * (y div k) + (y mod k - 1)" by simp
  then have "(y - 1) div k = y div k"
    by (rule int_div_pos_eq) (use \<open>1 \<le> y mod k\<close> r(2) in simp_all)
  with False show ?thesis by simp
qed

lemma int_mod_dvd_trans:
  fixes y :: int
  assumes "y mod n = 0" and "k dvd n"
  shows "y mod k = 0"
  using assms by (meson dvd_trans mod_eq_0_iff_dvd)

section \<open>Lists\<close>

lemma filter_eq_Nil_iff_none: "filter P xs = [] \<longleftrightarrow> (\<forall>x \<in> set xs. \<not> P x)"
  by (auto simp: filter_empty_conv)

lemma hd_filter_in: "filter P xs \<noteq> [] \<Longrightarrow> hd (filter P xs) \<in> set xs \<and> P (hd (filter P xs))"
  using hd_in_set [of "filter P xs"] by auto

lemma find_eq_None_iff: "find P xs = None \<longleftrightarrow> (\<forall>x \<in> set xs. \<not> P x)"
  by (auto simp: find_None_iff)

lemma find_SomeD: "find P xs = Some x \<Longrightarrow> x \<in> set xs \<and> P x"
  by (auto simp: find_Some_iff)

lemma distinct_map_filterI: "distinct (map f xs) \<Longrightarrow> distinct (map f (filter P xs))"
  by (simp add: distinct_map_filter)

lemma map_filter_unchanged: "(\<And>x. x \<in> set xs \<Longrightarrow> P x) \<Longrightarrow> filter P xs = xs"
  by (simp add: filter_id_conv)

lemma all_dropWhile_iff: "(\<forall>x \<in> set (dropWhile P xs). P x) \<longleftrightarrow> (\<forall>x \<in> set xs. P x)"
  by (induction xs) auto

lemma dropWhile_id: "xs \<noteq> [] \<Longrightarrow> \<not> P (hd xs) \<Longrightarrow> dropWhile P xs = xs"
  by (cases xs) auto

lemma last_dropWhile: "dropWhile P xs \<noteq> [] \<Longrightarrow> last (dropWhile P xs) = last xs"
  by (induction xs) (auto split: if_splits)

lemma dropWhile_nonempty_arg: "dropWhile P xs \<noteq> [] \<Longrightarrow> xs \<noteq> []"
  by auto

text \<open>Selecting rows by a key column.\<close>

lemma filter_key_Nil: "k \<notin> f ` set xs \<Longrightarrow> filter (\<lambda>x. f x = k) xs = []"
  by (induction xs) auto

lemma filter_key_unique:
  assumes "distinct (map f xs)" and "r \<in> set xs"
  shows "filter (\<lambda>x. f x = f r) xs = [r]"
proof -
  from assms(2) obtain ys zs where split: "xs = ys @ r # zs"
    by (auto simp: in_set_conv_decomp)
  with assms(1) have "f r \<notin> f ` set ys" and "f r \<notin> f ` set zs"
    by auto
  then show ?thesis by (simp add: split filter_key_Nil)
qed

lemma distinct_map_update_key:
  assumes "distinct (map f xs)" and "new \<notin> f ` set xs"
    and "\<And>x. f (g x) = (if f x = old then new else f x)"
  shows "distinct (map f (map g xs))"
  using assms(1,2)
proof (induction xs)
  case Nil
  show ?case by simp
next
  case (Cons x xs)
  then have "distinct (map f (map g xs))" by simp
  moreover have "f (g x) \<notin> f ` g ` set xs"
  proof
    assume "f (g x) \<in> f ` g ` set xs"
    then obtain y where y: "y \<in> set xs" "f (g y) = f (g x)" by auto
    with Cons.prems have "f y \<noteq> f x" "f y \<noteq> new" "f x \<noteq> new"
      by (force simp: image_iff)+
    with y(2) show False by (simp add: assms(3) split: if_splits)
  qed
  ultimately show ?case by (simp add: image_image)
qed

text \<open>Updating a column leaves every other column as it was.\<close>

lemma map_col_unchanged: "(\<And>x. f (g x) = f x) \<Longrightarrow> map f (map g xs) = map f xs"
  by (induction xs) simp_all

lemma image_col_unchanged: "(\<And>x. f (g x) = f x) \<Longrightarrow> f ` g ` set xs = f ` set xs"
  by (induction xs) simp_all

lemma sort_eq_Nil_iff [simp]: "sort xs = [] \<longleftrightarrow> xs = []"
  using length_sort [of "\<lambda>x. x" xs] by (metis length_0_conv)

lemma length_filter_pos_iff: "0 < length (filter P xs) \<longleftrightarrow> (\<exists>x \<in> set xs. P x)"
  by (induction xs) auto

end
