(* ===== verification/Calendar.thy ===== *)
theory Calendar
  imports HT_Prelude
begin

text \<open>
  The date arithmetic of Python's \<open>datetime\<close> module that the program relies on:
  proleptic Gregorian ordinals (\<open>_ymd2ord\<close>), the difference of two naive
  datetimes in whole days (\<open>timedelta.days\<close>) and the ISO 8601 calendar
  (\<open>isocalendar\<close>). The definitions follow the reference implementation of the
  module operation by operation; the lemmas give the laws the streak engine needs:
  ordinals grow with the date, week 1 starts on a Monday at most three days from
  1 January, an ISO year has 52 or 53 weeks, and \<open>isocalendar\<close> returns the
  unique ISO year and week that contain the day.
\<close>

section \<open>Naive datetimes\<close>

record datetime =
  dt_year :: int
  dt_month :: int
  dt_day :: int
  dt_hour :: int
  dt_minute :: int
  dt_second :: int

text \<open>A datetime from its six fields, without the range checks of the constructor.\<close>

definition dt :: "int \<Rightarrow> int \<Rightarrow> int \<Rightarrow> int \<Rightarrow> int \<Rightarrow> int \<Rightarrow> datetime" where
  "dt y m d h mi s =
     \<lparr>dt_year = y, dt_month = m, dt_day = d, dt_hour = h, dt_minute = mi, dt_second = s\<rparr>"

section \<open>Ordinals\<close>

definition is_leap :: "int \<Rightarrow> bool" where
  "is_leap y \<longleftrightarrow> y mod 4 = 0 \<and> (y mod 100 \<noteq> 0 \<or> y mod 400 = 0)"

definition days_before_year :: "int \<Rightarrow> int" where
  "days_before_year y = (let p = y - 1 in p * 365 + p div 4 - p div 100 + p div 400)"

definition DAYS_IN_MONTH :: "int list" where
  "DAYS_IN_MONTH = [-1, 31, 28, 31, 30, 31, 30, 31, 31, 30, 31, 30, 31]"

definition DAYS_BEFORE_MONTH :: "int list" where
  "DAYS_BEFORE_MONTH = [-1, 0, 31, 59, 90, 120, 151, 181, 212, 243, 273, 304, 334]"

definition days_in_month :: "int \<Rightarrow> int \<Rightarrow> int" where
  "days_in_month y m = (if m = 2 \<and> is_leap y then 29 else DAYS_IN_MONTH ! nat m)"

definition days_before_month :: "int \<Rightarrow> int \<Rightarrow> int" where
  "days_before_month y m =
     DAYS_BEFORE_MONTH ! nat m + (if m > 2 \<and> is_leap y then 1 else 0)"

definition ymd2ord :: "int \<Rightarrow> int \<Rightarrow> int \<Rightarrow> int" where
  "ymd2ord y m d = days_before_year y + days_before_month y m + d"

text \<open>The checks of the \<open>date\<close> and \<open>time\<close> constructors (\<open>MINYEAR = 1\<close>,
  \<open>MAXYEAR = 9999\<close>); a value that fails them raises \<open>ValueError\<close>.\<close>

definition valid_date :: "int \<Rightarrow> int \<Rightarrow> int \<Rightarrow> bool" where
  "valid_date y m d \<longleftrightarrow>
     1 \<le> y \<and> y \<le> 9999 \<and> 1 \<le> m \<and> m \<le> 12 \<and> 1 \<le> d \<and> d \<le> days_in_month y m"

definition valid_time :: "int \<Rightarrow> int \<Rightarrow> int \<Rightarrow> bool" where
  "valid_time h mi s \<longleftrightarrow> 0 \<le> h \<and> h \<le> 23 \<and> 0 \<le> mi \<and> mi \<le> 59 \<and> 0 \<le> s \<and> s \<le> 59"

definition valid_datetime :: "datetime \<Rightarrow> bool" where
  "valid_datetime t \<longleftrightarrow>
     valid_date (dt_year t) (dt_month t) (dt_day t) \<and>
     valid_time (dt_hour t) (dt_minute t) (dt_second t)"

definition toordinal :: "datetime \<Rightarrow> int" where
  "toordinal t = ymd2ord (dt_year t) (dt_month t) (dt_day t)"

definition seconds_of_day :: "datetime \<Rightarrow> int" where
  "seconds_of_day t = dt_second t + dt_minute t * 60 + dt_hour t * 3600"

text \<open>\<open>(a - b).days\<close>: the constructor of \<open>timedelta\<close> normalises the seconds
  into \<open>[0, 86400)\<close> by floor division and carries into the days.\<close>

definition timedelta_days :: "datetime \<Rightarrow> datetime \<Rightarrow> int" where
  "timedelta_days a b =
     (toordinal a - toordinal b) + (seconds_of_day a - seconds_of_day b) div 86400"

section \<open>The ISO calendar\<close>

definition isoweek1monday :: "int \<Rightarrow> int" where
  "isoweek1monday y =
     (let firstday = ymd2ord y 1 1;
          firstweekday = (firstday + 6) mod 7;
          week1monday = firstday - firstweekday
      in if firstweekday > 3 then week1monday + 7 else week1monday)"

definition isocalendar :: "int \<Rightarrow> int \<Rightarrow> int \<Rightarrow> int \<times> int \<times> int" where
  "isocalendar y m d =
     (let week1monday = isoweek1monday y;
          today = ymd2ord y m d;
          week = (today - week1monday) div 7;
          wday = (today - week1monday) mod 7
      in if week < 0 then
           (let week1monday' = isoweek1monday (y - 1)
            in (y - 1, (today - week1monday') div 7 + 1, (today - week1monday') mod 7 + 1))
         else if week \<ge> 52 \<and> today \<ge> isoweek1monday (y + 1) then (y + 1, 1, wday + 1)
         else (y, week + 1, wday + 1))"

text \<open>\<open>t.isocalendar()[:2]\<close>, the pair the weekly rule compares.\<close>

definition iso_year_week :: "datetime \<Rightarrow> int \<times> int" where
  "iso_year_week t =
     (case isocalendar (dt_year t) (dt_month t) (dt_day t) of (iy, w, _) \<Rightarrow> (iy, w))"

text \<open>Two notions used only in statements: the number of whole weeks since Monday
  0001-01-01 (ordinal 1), and the number of weeks of an ISO year.\<close>

definition week_index :: "int \<Rightarrow> int" where
  "week_index n = (n - 1) div 7"

definition iso_weeks_in_year :: "int \<Rightarrow> int" where
  "iso_weeks_in_year y = (isoweek1monday (y + 1) - isoweek1monday y) div 7"

text \<open>The week index of the Monday of week 1 of an ISO year, and the week index of
  the day of a datetime.\<close>

definition week_base :: "int \<Rightarrow> int" where
  "week_base y = week_index (isoweek1monday y)"

definition iso_week_index :: "datetime \<Rightarrow> int" where
  "iso_week_index t = week_index (toordinal t)"

lemmas cal_unfold [cal_defs] =
  ymd2ord_def days_before_month_def days_in_month_def DAYS_IN_MONTH_def
  DAYS_BEFORE_MONTH_def

section \<open>Months and years\<close>

lemma month_cases [consumes 2, case_names Jan Feb Mar Apr May Jun Jul Aug Sep Oct Nov Dec]:
  fixes m :: int
  assumes "1 \<le> m" and "m \<le> 12"
  obtains "m = 1" | "m = 2" | "m = 3" | "m = 4" | "m = 5" | "m = 6"
    | "m = 7" | "m = 8" | "m = 9" | "m = 10" | "m = 11" | "m = 12"
proof -
  from assms have "m = 1 \<or> m = 2 \<or> m = 3 \<or> m = 4 \<or> m = 5 \<or> m = 6
      \<or> m = 7 \<or> m = 8 \<or> m = 9 \<or> m = 10 \<or> m = 11 \<or> m = 12"
    by arith
  with that show thesis by blast
qed

lemma days_in_month_bounds:
  assumes "1 \<le> m" and "m \<le> 12"
  shows "28 \<le> days_in_month y m \<and> days_in_month y m \<le> 31"
  using assms by (cases m rule: month_cases) (simp_all add: cal_defs)

lemma days_before_month_step:
  assumes "1 \<le> m" and "m < 12"
  shows "days_before_month y (m + 1) = days_before_month y m + days_in_month y m"
proof -
  from assms have "m \<le> 12" by simp
  with assms(1) show ?thesis
    using assms(2) by (cases m rule: month_cases) (simp_all add: cal_defs)
qed

lemma days_before_month_Jan [simp]: "days_before_month y 1 = 0"
  by (simp add: cal_defs)

lemma days_before_month_Dec: "days_before_month y 12 = (if is_leap y then 335 else 334)"
  by (simp add: cal_defs)

lemma days_before_month_mono:
  assumes "1 \<le> m" and "m < n" and "n \<le> 12"
  shows "days_before_month y m + days_in_month y m \<le> days_before_month y n"
proof -
  have "m + 1 \<le> n" using assms by simp
  then have "n \<le> 12 \<longrightarrow> days_before_month y m + days_in_month y m \<le> days_before_month y n"
  proof (induction n rule: int_ge_induct)
    case base
    then show ?case using assms by (simp add: days_before_month_step)
  next
    case (step i)
    have "1 \<le> i" using step.hyps assms(1) by simp
    show ?case
    proof
      assume "i + 1 \<le> 12"
      then have i: "i < 12" by simp
      with step.IH have "days_before_month y m + days_in_month y m \<le> days_before_month y i"
        by simp
      moreover have "0 \<le> days_in_month y i"
        using days_in_month_bounds [of i y] \<open>1 \<le> i\<close> i by simp
      ultimately show "days_before_month y m + days_in_month y m \<le> days_before_month y (i + 1)"
        using days_before_month_step [OF \<open>1 \<le> i\<close> i, of y] by simp
    qed
  qed
  with assms(3) show ?thesis by simp
qed

lemma days_in_year:
  "days_before_month y 12 + days_in_month y 12 = (if is_leap y then 366 else 365)"
  by (simp add: cal_defs)

lemma days_before_year_step:
  "days_before_year (y + 1) = days_before_year y + (if is_leap y then 366 else 365)"
proof -
  have d4: "(y - 1) div 4 = y div 4 - (if y mod 4 = 0 then 1 else 0)"
    and d100: "(y - 1) div 100 = y div 100 - (if y mod 100 = 0 then 1 else 0)"
    and d400: "(y - 1) div 400 = y div 400 - (if y mod 400 = 0 then 1 else 0)"
    by (rule int_div_pred, simp)+
  have "y mod 400 = 0 \<Longrightarrow> y mod 100 = 0" and "y mod 100 = 0 \<Longrightarrow> y mod 4 = 0"
    by (erule int_mod_dvd_trans, simp)+
  then show ?thesis
    unfolding days_before_year_def is_leap_def Let_def
    by (auto simp: d4 d100 d400)
qed

lemma days_before_year_mono: "y \<le> z \<Longrightarrow> days_before_year y + 365 * (z - y) \<le> days_before_year z"
proof (induction z rule: int_ge_induct)
  case base
  show ?case by simp
next
  case (step i)
  then show ?case
    using days_before_year_step [of i] by (simp add: algebra_simps split: if_splits)
qed

section \<open>Ordinals grow with the date\<close>

lemma days_before_month_nonneg:
  assumes "1 \<le> m" and "m \<le> 12"
  shows "0 \<le> days_before_month y m"
proof (cases "m = 1")
  case True
  then show ?thesis by simp
next
  case False
  with assms have "days_before_month y 1 + days_in_month y 1 \<le> days_before_month y m"
    by (intro days_before_month_mono) simp_all
  moreover have "0 \<le> days_in_month y 1"
    using days_in_month_bounds [of 1 y] by simp
  ultimately show ?thesis by simp
qed

lemma days_before_month_le_year:
  assumes "1 \<le> m" and "m \<le> 12"
  shows "days_before_month y m + days_in_month y m \<le> (if is_leap y then 366 else 365)"
proof (cases "m = 12")
  case True
  then show ?thesis by (simp add: days_in_year)
next
  case False
  with assms have "days_before_month y m + days_in_month y m \<le> days_before_month y 12"
    by (intro days_before_month_mono) simp_all
  moreover have "0 \<le> days_in_month y 12"
    using days_in_month_bounds [of 12 y] by simp
  ultimately show ?thesis
    using days_in_year [of y] by (simp split: if_splits)
qed

lemma ymd2ord_in_year:
  assumes "1 \<le> m" and "m \<le> 12" and "1 \<le> d" and "d \<le> days_in_month y m"
  shows "days_before_year y < ymd2ord y m d"
    and "ymd2ord y m d \<le> days_before_year (y + 1)"
proof -
  show "days_before_year y < ymd2ord y m d"
    using days_before_month_nonneg [OF assms(1,2), of y] assms(3) by (simp add: ymd2ord_def)
  show "ymd2ord y m d \<le> days_before_year (y + 1)"
    using days_before_month_le_year [OF assms(1,2), of y] assms(4)
    by (simp add: ymd2ord_def days_before_year_step split: if_splits)
qed

lemma ymd2ord_first_day: "ymd2ord y 1 1 = days_before_year y + 1"
  by (simp add: ymd2ord_def)

lemma ymd2ord_lex_less:
  assumes "1 \<le> m" "m \<le> 12" "1 \<le> d" "d \<le> days_in_month y m"
    and "1 \<le> m'" "m' \<le> 12" "1 \<le> d'" "d' \<le> days_in_month y' m'"
    and "y < y' \<or> (y = y' \<and> (m < m' \<or> (m = m' \<and> d < d')))"
  shows "ymd2ord y m d < ymd2ord y' m' d'"
proof -
  consider "y < y'" | "y = y'" "m < m'" | "y = y'" "m = m'" "d < d'"
    using assms(9) by blast
  then show ?thesis
  proof cases
    case 1
    then have "days_before_year (y + 1) \<le> days_before_year y'"
      using days_before_year_mono [of "y + 1" y'] by simp
    with ymd2ord_in_year(2) [OF assms(1-4)] ymd2ord_in_year(1) [OF assms(5-8)]
    show ?thesis by simp
  next
    case 2
    with assms have "days_before_month y m + days_in_month y m \<le> days_before_month y m'"
      by (intro days_before_month_mono) simp_all
    with 2 assms(4,7) show ?thesis by (simp add: ymd2ord_def)
  next
    case 3
    then show ?thesis by (simp add: ymd2ord_def)
  qed
qed

lemma ymd2ord_less_iff:
  assumes "1 \<le> m" "m \<le> 12" "1 \<le> d" "d \<le> days_in_month y m"
    and "1 \<le> m'" "m' \<le> 12" "1 \<le> d'" "d' \<le> days_in_month y' m'"
  shows "ymd2ord y m d < ymd2ord y' m' d' \<longleftrightarrow>
         y < y' \<or> (y = y' \<and> (m < m' \<or> (m = m' \<and> d < d')))" (is "?L \<longleftrightarrow> ?R")
proof
  assume ?R
  with assms show ?L by (intro ymd2ord_lex_less) simp_all
next
  assume L: ?L
  show ?R
  proof (rule ccontr)
    assume "\<not> ?R"
    then have "(y, m, d) = (y', m', d') \<or> y' < y \<or> (y' = y \<and> (m' < m \<or> (m' = m \<and> d' < d)))"
      by auto
    then show False
    proof
      assume "(y, m, d) = (y', m', d')"
      with L show False by simp
    next
      assume "y' < y \<or> (y' = y \<and> (m' < m \<or> (m' = m \<and> d' < d)))"
      with assms have "ymd2ord y' m' d' < ymd2ord y m d"
        by (intro ymd2ord_lex_less) simp_all
      with L show False by simp
    qed
  qed
qed

lemma ymd2ord_inj:
  assumes "1 \<le> m" "m \<le> 12" "1 \<le> d" "d \<le> days_in_month y m"
    and "1 \<le> m'" "m' \<le> 12" "1 \<le> d'" "d' \<le> days_in_month y' m'"
    and "ymd2ord y m d = ymd2ord y' m' d'"
  shows "y = y' \<and> m = m' \<and> d = d'"
  using ymd2ord_less_iff [OF assms(1-8)] ymd2ord_less_iff [OF assms(5-8) assms(1-4)] assms(9)
  by (metis less_irrefl not_less_iff_gr_or_eq)

section \<open>ISO years and weeks\<close>

lemma isoweek1monday_near:
  "ymd2ord y 1 1 - 3 \<le> isoweek1monday y \<and> isoweek1monday y \<le> ymd2ord y 1 1 + 3"
  unfolding isoweek1monday_def Let_def by (auto; arith)

lemma isoweek1monday_mod7 [simp]: "isoweek1monday y mod 7 = 1"
  unfolding isoweek1monday_def Let_def by (auto; presburger)

lemma monday_gap:
  fixes b c f g :: int
  assumes "g = f + 365 \<or> g = f + 366"
    and "f - 3 \<le> b" "b \<le> f + 3" "g - 3 \<le> c" "c \<le> g + 3"
    and "b mod 7 = 1" "c mod 7 = 1"
  shows "c - b = 364 \<or> c - b = 371"
  using assms by arith

lemma isoweek1monday_step:
  "isoweek1monday (y + 1) - isoweek1monday y = 364 \<or>
   isoweek1monday (y + 1) - isoweek1monday y = 371"
proof (rule monday_gap)
  show "ymd2ord (y + 1) 1 1 = ymd2ord y 1 1 + 365 \<or> ymd2ord (y + 1) 1 1 = ymd2ord y 1 1 + 366"
    by (simp add: ymd2ord_first_day days_before_year_step)
qed (use isoweek1monday_near [of y] isoweek1monday_near [of "y + 1"] in simp_all)

lemma iso_weeks_in_year_cases: "iso_weeks_in_year y = 52 \<or> iso_weeks_in_year y = 53"
  using isoweek1monday_step [of y] by (auto simp: iso_weeks_in_year_def)

lemma isoweek1monday_Suc:
  "isoweek1monday (y + 1) = isoweek1monday y + 7 * iso_weeks_in_year y"
  using isoweek1monday_step [of y] by (auto simp: iso_weeks_in_year_def)

lemma isoweek1monday_strict_mono: "y < z \<Longrightarrow> isoweek1monday y < isoweek1monday z"
proof -
  have "y + 1 \<le> z \<Longrightarrow> isoweek1monday y < isoweek1monday z"
  proof (induction z rule: int_ge_induct)
    case base
    show ?case using isoweek1monday_step [of y] by auto
  next
    case (step i)
    then show ?case using isoweek1monday_step [of i] by auto
  qed
  then show "y < z \<Longrightarrow> isoweek1monday y < isoweek1monday z" by simp
qed

text \<open>A day \<open>x\<close> days after the Monday of week 1, within the \<open>k\<close> weeks of the
  year: its week and weekday, counted from 1.\<close>

lemma week_decomp:
  fixes x k :: int
  assumes "0 \<le> x" and "x < 7 * k"
  shows "1 \<le> x div 7 + 1 \<and> x div 7 + 1 \<le> k \<and> 1 \<le> x mod 7 + 1 \<and> x mod 7 + 1 \<le> 7
    \<and> x = 7 * (x div 7 + 1 - 1) + (x mod 7 + 1 - 1)"
  using assms by arith

text \<open>
  What \<open>isocalendar\<close> returns for a day of calendar year \<open>y\<close>: an ISO year among
  \<open>y - 1\<close>, \<open>y\<close>, \<open>y + 1\<close>, a week of that ISO year and a weekday, such that
  the day is the weekday of that week counted from the Monday of week 1.
\<close>

lemma isocalendar_spec:
  assumes "1 \<le> m" "m \<le> 12" "1 \<le> d" "d \<le> days_in_month y m"
    and iso: "isocalendar y m d = (iy, w, wd)"
  shows "iy = y - 1 \<or> iy = y \<or> iy = y + 1"
    and "1 \<le> w" and "w \<le> iso_weeks_in_year iy"
    and "1 \<le> wd" and "wd \<le> 7"
    and "ymd2ord y m d = isoweek1monday iy + 7 * (w - 1) + (wd - 1)"
proof -
  define t where "t = ymd2ord y m d"
  define a where "a = isoweek1monday (y - 1)"
  define b where "b = isoweek1monday y"
  define c where "c = isoweek1monday (y + 1)"
  have ba: "b = a + 7 * iso_weeks_in_year (y - 1)"
    using isoweek1monday_Suc [of "y - 1"] by (simp add: a_def b_def)
  have cb: "c = b + 7 * iso_weeks_in_year y"
    using isoweek1monday_Suc [of y] by (simp add: b_def c_def)
  have wa: "iso_weeks_in_year (y - 1) = 52 \<or> iso_weeks_in_year (y - 1) = 53"
    and wb: "iso_weeks_in_year y = 52 \<or> iso_weeks_in_year y = 53"
    and wc: "iso_weeks_in_year (y + 1) = 52 \<or> iso_weeks_in_year (y + 1) = 53"
    by (rule iso_weeks_in_year_cases)+
  have lo: "b - 3 \<le> t"
    using ymd2ord_in_year(1) [OF assms(1-4)] isoweek1monday_near [of y]
    by (simp add: t_def b_def ymd2ord_first_day)
  have hi: "t < c + 3"
    using ymd2ord_in_year(2) [OF assms(1-4)] isoweek1monday_near [of "y + 1"]
    by (simp add: t_def c_def ymd2ord_first_day)
  have res: "(iy, w, wd) =
     (if (t - b) div 7 < 0 then (y - 1, (t - a) div 7 + 1, (t - a) mod 7 + 1)
      else if (t - b) div 7 \<ge> 52 \<and> t \<ge> c then (y + 1, 1, (t - b) mod 7 + 1)
      else (y, (t - b) div 7 + 1, (t - b) mod 7 + 1))"
    using iso unfolding isocalendar_def Let_def t_def a_def b_def c_def by simp
  consider (before) "t < b" | (after) "c \<le> t" | (within) "b \<le> t" "t < c"
    by linarith
  then have "(iy = y - 1 \<or> iy = y \<or> iy = y + 1) \<and> 1 \<le> w \<and> w \<le> iso_weeks_in_year iy
      \<and> 1 \<le> wd \<and> wd \<le> 7 \<and> t = isoweek1monday iy + 7 * (w - 1) + (wd - 1)"
  proof cases
    case before
    then have "(t - b) div 7 < 0" by simp
    with res have eq: "iy = y - 1" "w = (t - a) div 7 + 1" "wd = (t - a) mod 7 + 1"
      by simp_all
    have "0 \<le> t - a" "t - a < 7 * iso_weeks_in_year (y - 1)"
      using lo before ba wa by auto
    from week_decomp [OF this] show ?thesis
      unfolding eq a_def [symmetric] by simp
  next
    case after
    then have "364 \<le> t - b" using cb wb by auto
    then have "\<not> (t - b) div 7 < 0" "(t - b) div 7 \<ge> 52" by arith+
    with res after have eq: "iy = y + 1" "w = 1" "wd = (t - b) mod 7 + 1"
      by simp_all
    have "t - b = t - c + 7 * iso_weeks_in_year y" using cb by simp
    then have "(t - b) mod 7 = (t - c) mod 7" by (simp only: mod_mult_self2)
    also have "\<dots> = t - c" using after hi by simp
    finally have "wd = t - c + 1" using eq by simp
    with eq wc after hi show ?thesis by (auto simp: c_def)
  next
    case within
    then have "\<not> (t - b) div 7 < 0" by simp
    with res within have eq: "iy = y" "w = (t - b) div 7 + 1" "wd = (t - b) mod 7 + 1"
      by (simp_all split: if_splits)
    have "0 \<le> t - b" "t - b < 7 * iso_weeks_in_year y"
      using within cb by auto
    from week_decomp [OF this] show ?thesis
      unfolding eq b_def [symmetric] by simp
  qed
  then show "iy = y - 1 \<or> iy = y \<or> iy = y + 1"
    and "1 \<le> w" and "w \<le> iso_weeks_in_year iy"
    and "1 \<le> wd" and "wd \<le> 7"
    and "ymd2ord y m d = isoweek1monday iy + 7 * (w - 1) + (wd - 1)"
    by (simp_all add: t_def)
qed

section \<open>Week indices\<close>

text \<open>ISO weeks are numbered consecutively by \<open>week_base iy + w\<close>: the pair of ISO
  year and week is determined by the week index of the day.\<close>

lemma isoweek1monday_eq: "isoweek1monday y = 7 * week_base y + 1"
  using isoweek1monday_mod7 [of y] unfolding week_base_def week_index_def by arith

lemma week_base_Suc: "week_base (y + 1) = week_base y + iso_weeks_in_year y"
  using isoweek1monday_Suc [of y] by (simp add: isoweek1monday_eq)

lemma week_base_mono: "y \<le> z \<Longrightarrow> week_base y \<le> week_base z"
proof (induction z rule: int_ge_induct)
  case base
  show ?case by simp
next
  case (step i)
  then show ?case using iso_weeks_in_year_cases [of i] by (auto simp: week_base_Suc)
qed

lemma iso_week_less:
  assumes "iy < iy'" and "w \<le> iso_weeks_in_year iy" and "1 \<le> w'"
  shows "week_base iy + w < week_base iy' + w'"
proof -
  from assms(1) have "week_base (iy + 1) \<le> week_base iy'" by (intro week_base_mono) simp
  with assms(2,3) show ?thesis by (simp add: week_base_Suc)
qed

lemma iso_week_unique:
  assumes "week_base iy + w = week_base iy' + w'"
    and "1 \<le> w" "w \<le> iso_weeks_in_year iy" "1 \<le> w'" "w' \<le> iso_weeks_in_year iy'"
  shows "iy = iy' \<and> w = w'"
proof -
  have "\<not> iy < iy'" using iso_week_less [of iy iy' w w'] assms by auto
  moreover have "\<not> iy' < iy" using iso_week_less [of iy' iy w' w] assms by auto
  ultimately have "iy = iy'" by simp
  with assms(1) show ?thesis by simp
qed

lemma week_index_ymd2ord:
  assumes "valid_date y m d" and "isocalendar y m d = (iy, w, wd)"
  shows "week_index (ymd2ord y m d) = week_base iy + w - 1"
proof -
  from assms(1) have v: "1 \<le> m" "m \<le> 12" "1 \<le> d" "d \<le> days_in_month y m"
    by (simp_all add: valid_date_def)
  from isocalendar_spec(4,5,6) [OF v assms(2)]
  show ?thesis unfolding week_index_def isoweek1monday_eq by arith
qed

lemma iso_year_week_spec:
  assumes "valid_datetime t" and "iso_year_week t = (iy, w)"
  shows "1 \<le> w" and "w \<le> iso_weeks_in_year iy" and "iso_week_index t = week_base iy + w - 1"
proof -
  from assms(2) obtain wd where iso: "isocalendar (dt_year t) (dt_month t) (dt_day t) = (iy, w, wd)"
    by (auto simp: iso_year_week_def split: prod.splits)
  from assms(1) have v: "valid_date (dt_year t) (dt_month t) (dt_day t)"
    by (simp add: valid_datetime_def)
  then have v': "1 \<le> dt_month t" "dt_month t \<le> 12" "1 \<le> dt_day t"
    "dt_day t \<le> days_in_month (dt_year t) (dt_month t)"
    by (simp_all add: valid_date_def)
  from isocalendar_spec(2,3) [OF v' iso] show "1 \<le> w" and "w \<le> iso_weeks_in_year iy" .
  from week_index_ymd2ord [OF v iso] show "iso_week_index t = week_base iy + w - 1"
    by (simp add: iso_week_index_def toordinal_def)
qed

section \<open>Differences of datetimes\<close>

lemma seconds_of_day_bounds:
  assumes "valid_datetime t"
  shows "0 \<le> seconds_of_day t" and "seconds_of_day t < 86400"
  using assms by (auto simp: valid_datetime_def valid_time_def seconds_of_day_def)

lemma timedelta_days_cases:
  assumes "valid_datetime a" and "valid_datetime b"
  shows "timedelta_days a b =
    toordinal a - toordinal b - (if seconds_of_day a < seconds_of_day b then 1 else 0)"
proof -
  have "(x - y) div 86400 = (if x < y then - 1 else 0)"
    if "0 \<le> x" "x < 86400" "0 \<le> y" "y < 86400" for x y :: int
    using that by (auto simp: div_pos_neg_trivial zdiv_eq_0_iff intro: int_div_neg_eq [where r = "x - y + 86400"])
  with seconds_of_day_bounds [OF assms(1)] seconds_of_day_bounds [OF assms(2)]
  show ?thesis by (simp add: timedelta_days_def)
qed

end
