(* ===== verification/PyStrings.thy ===== *)
theory PyStrings
  imports HT_Prelude
begin

text \<open>
  The string operations the program applies to habit names and descriptions:
  Python's \<open>str.strip\<close>, \<open>str.lower\<close> and \<open>str.capitalize\<close> and SQLite's
  \<open>LOWER\<close>. Strings are
  lists of 8-bit characters; the model is exact on ASCII text, where the
  functions are defined below as the libraries define them. (Outside ASCII,
  Python folds and strips by Unicode tables while SQLite's \<open>LOWER\<close> leaves every
  non-ASCII byte alone; such names are not covered.)
\<close>

section \<open>Whitespace and case\<close>

text \<open>\<open>str.isspace\<close> on the ASCII range: tab, line feed, vertical tab, form
  feed, carriage return, the four separators \<open>0x1c\<close> to \<open>0x1f\<close> and space.\<close>

definition is_space :: "char \<Rightarrow> bool" where
  "is_space c \<longleftrightarrow>
     c = CHR 0x09 \<or> c = CHR 0x0A \<or> c = CHR 0x0B \<or> c = CHR 0x0C \<or> c = CHR 0x0D \<or>
     c = CHR 0x1C \<or> c = CHR 0x1D \<or> c = CHR 0x1E \<or> c = CHR 0x1F \<or> c = CHR '' ''"

definition is_upper :: "char \<Rightarrow> bool" where
  "is_upper c \<longleftrightarrow> (65::nat) \<le> of_char c \<and> of_char c \<le> (90::nat)"

definition lower_char :: "char \<Rightarrow> char" where
  "lower_char c = (if is_upper c then char_of (of_char c + (32::nat)) else c)"

definition strip :: "string \<Rightarrow> string" where
  "strip s = rev (dropWhile is_space (rev (dropWhile is_space s)))"

definition lower :: "string \<Rightarrow> string" where
  "lower s = map lower_char s"

definition sql_lower :: "string \<Rightarrow> string" where
  "sql_lower s = map lower_char s"

text \<open>\<open>str.capitalize\<close>: the first character in upper case, the others in lower
  case.\<close>

definition is_lower :: "char \<Rightarrow> bool" where
  "is_lower c \<longleftrightarrow> (97::nat) \<le> of_char c \<and> of_char c \<le> (122::nat)"

definition upper_char :: "char \<Rightarrow> char" where
  "upper_char c = (if is_lower c then char_of (of_char c - (32::nat)) else c)"

definition capitalize :: "string \<Rightarrow> string" where
  "capitalize s = (case s of [] \<Rightarrow> [] | c # r \<Rightarrow> upper_char c # lower r)"

text \<open>The apostrophe that the messages put around a habit name.\<close>

definition apostrophe :: string where
  "apostrophe = [CHR 0x27]"

definition quoted :: "string \<Rightarrow> string" where
  "quoted s = apostrophe @ s @ apostrophe"

section \<open>Laws\<close>

lemma sql_lower_eq_lower: "sql_lower s = lower s"
  by (simp add: sql_lower_def lower_def)

lemma of_char_lower_char:
  "of_char (lower_char c) = (if is_upper c then of_char c + 32 else (of_char c :: nat))"
  by (simp add: lower_char_def is_upper_def)

lemma not_upper_lower_char [simp]: "\<not> is_upper (lower_char c)"
  by (simp add: is_upper_def of_char_lower_char)

lemma lower_char_idem [simp]: "lower_char (lower_char c) = lower_char c"
  by (simp add: lower_char_def [of "lower_char c"])

lemma lower_idem [simp]: "lower (lower s) = lower s"
  by (simp add: lower_def)

lemma lower_Nil [simp]: "lower [] = []"
  by (simp add: lower_def)

lemma lower_eq_Nil_iff [simp]: "lower s = [] \<longleftrightarrow> s = []"
  by (simp add: lower_def)

lemma lower_append [simp]: "lower (s @ t) = lower s @ lower t"
  by (simp add: lower_def)

lemma length_lower [simp]: "length (lower s) = length s"
  by (simp add: lower_def)

lemma is_space_not_upper: "is_space c \<Longrightarrow> \<not> is_upper c"
  by (auto simp: is_space_def is_upper_def)

lemma is_space_lower_char [simp]: "is_space (lower_char c) \<longleftrightarrow> is_space c"
proof (cases "is_upper c")
  case True
  then have "(97::nat) \<le> of_char (lower_char c)"
    by (simp add: of_char_lower_char is_upper_def)
  then have "\<not> is_space (lower_char c)"
    by (auto simp: is_space_def)
  with True show ?thesis by (auto dest: is_space_not_upper)
next
  case False
  then show ?thesis by (simp add: lower_char_def)
qed

lemma dropWhile_space_lower:
  "dropWhile is_space (lower s) = lower (dropWhile is_space s)"
  by (induction s) (simp_all add: lower_def)

lemma rev_lower: "rev (lower s) = lower (rev s)"
  by (simp add: lower_def rev_map)

lemma strip_lower: "strip (lower s) = lower (strip s)"
  by (simp add: strip_def dropWhile_space_lower rev_lower)

lemma strip_Nil [simp]: "strip [] = []"
  by (simp add: strip_def)

lemma strip_eq_Nil_iff: "strip s = [] \<longleftrightarrow> (\<forall>c \<in> set s. is_space c)"
  by (simp add: strip_def dropWhile_eq_Nil_conv all_dropWhile_iff)

lemma strip_hd_last:
  assumes "strip s \<noteq> []"
  shows "\<not> is_space (hd (strip s))" and "\<not> is_space (last (strip s))"
proof -
  let ?t = "dropWhile is_space s"
  let ?u = "dropWhile is_space (rev ?t)"
  from assms have u: "?u \<noteq> []" by (simp add: strip_def)
  then have "\<not> is_space (hd ?u)" by (rule hd_dropWhile)
  with u show "\<not> is_space (last (strip s))"
    by (simp add: strip_def last_rev)
  have t: "?t \<noteq> []"
  proof
    assume e: "?t = []"
    have "?u = []" unfolding e by simp
    with u show False ..
  qed
  then have "\<not> is_space (hd ?t)" by (rule hd_dropWhile)
  moreover have "last ?u = hd ?t"
    using last_dropWhile [OF u] t by (simp add: last_rev)
  ultimately show "\<not> is_space (hd (strip s))"
    using u by (simp add: strip_def hd_rev)
qed

lemma strip_fixed:
  assumes "s = [] \<or> (\<not> is_space (hd s) \<and> \<not> is_space (last s))"
  shows "strip s = s"
proof (cases "s = []")
  case True
  then show ?thesis by simp
next
  case False
  with assms have "dropWhile is_space s = s"
    by (simp add: dropWhile_id)
  moreover from False assms have "dropWhile is_space (rev s) = rev s"
    by (simp add: dropWhile_id hd_rev)
  ultimately show ?thesis by (simp add: strip_def)
qed

lemma strip_idem [simp]: "strip (strip s) = strip s"
  by (rule strip_fixed) (use strip_hd_last [of s] in blast)

end
