(* ===== verification/Timestamps.thy ===== *)
theory Timestamps
  imports Calendar PyStrings
begin

text \<open>
  Timestamps are stored as text. This theory models how the program reads and
  writes them: \<open>datetime.strptime\<close> with the formats \<open>%Y-%m-%d %H:%M:%S\<close> and
  \<open>%Y-%m-%d\<close>, and \<open>strftime\<close> with the first format. \<open>strptime\<close> compiles the
  format into a regular expression, takes the first match found by backtracking
  from the start of the string, rejects a match that leaves characters over and
  passes the fields to the \<open>datetime\<close> constructor. The regular expression is
  modelled by list-of-successes parsers whose results come in the order in which the
  backtracking matcher tries them, so that the head of the list is its match.
\<close>

section \<open>Digits\<close>

definition is_digit :: "char \<Rightarrow> bool" where
  "is_digit c \<longleftrightarrow> (48::nat) \<le> of_char c \<and> of_char c \<le> (57::nat)"

definition digit_val :: "char \<Rightarrow> int" where
  "digit_val c = int (of_char c) - 48"

definition digit_char :: "int \<Rightarrow> char" where
  "digit_char n = char_of (nat n + 48)"

section \<open>Backtracking parsers\<close>

type_synonym 'a parser = "string \<Rightarrow> ('a \<times> string) list"

definition pret :: "'a \<Rightarrow> 'a parser" where
  "pret a s = [(a, s)]"

definition pthen :: "'a parser \<Rightarrow> ('a \<Rightarrow> 'b parser) \<Rightarrow> 'b parser" where
  "pthen p f s = concat (map (\<lambda>(a, r). f a r) (p s))"

definition palt :: "'a parser \<Rightarrow> 'a parser \<Rightarrow> 'a parser" where
  "palt p q s = p s @ q s"

text \<open>A digit whose value lies in a range: the classes \<open>[0-2]\<close>, \<open>[1-9]\<close>, \<open>\d\<close>.\<close>

definition re_range :: "int \<Rightarrow> int \<Rightarrow> int parser" where
  "re_range lo hi s =
     (case s of [] \<Rightarrow> []
      | c # r \<Rightarrow> if is_digit c \<and> lo \<le> digit_val c \<and> digit_val c \<le> hi
                 then [(digit_val c, r)] else [])"

definition re_lit :: "char \<Rightarrow> unit parser" where
  "re_lit x s = (case s of [] \<Rightarrow> [] | c # r \<Rightarrow> if c = x then [((), r)] else [])"

text \<open>\<open>\s+\<close> is greedy: the longest run of whitespace first, then shorter ones.\<close>

fun re_spaces :: "unit parser" where
  "re_spaces [] = []"
| "re_spaces (c # r) = (if is_space c then re_spaces r @ [((), r)] else [])"

definition re_two :: "int \<Rightarrow> int \<Rightarrow> int \<Rightarrow> int \<Rightarrow> int parser" where
  "re_two a b c d = pthen (re_range a b) (\<lambda>x. pthen (re_range c d) (\<lambda>y. pret (10 * x + y)))"

text \<open>The directives, as \<open>_strptime.TimeRE\<close> defines them:
  \<open>%Y\<close> is \<open>\d\d\d\d\<close>, \<open>%m\<close> is \<open>1[0-2]|0[1-9]|[1-9]\<close>,
  \<open>%d\<close> is \<open>3[0-1]|[1-2]\d|0[1-9]|[1-9]| [1-9]\<close>, \<open>%H\<close> is \<open>2[0-3]|[0-1]\d|\d\<close>,
  \<open>%M\<close> is \<open>[0-5]\d|\d\<close> and \<open>%S\<close> is \<open>6[0-1]|[0-5]\d|\d\<close>.\<close>

definition re_Y :: "int parser" where
  "re_Y = pthen (re_range 0 9) (\<lambda>a. pthen (re_range 0 9) (\<lambda>b. pthen (re_range 0 9) (\<lambda>c.
            pthen (re_range 0 9) (\<lambda>d. pret (1000 * a + 100 * b + 10 * c + d)))))"

definition re_m :: "int parser" where
  "re_m = palt (re_two 1 1 0 2) (palt (re_two 0 0 1 9) (re_range 1 9))"

definition re_d :: "int parser" where
  "re_d = palt (re_two 3 3 0 1) (palt (re_two 1 2 0 9) (palt (re_two 0 0 1 9)
            (palt (re_range 1 9) (pthen (re_lit CHR '' '') (\<lambda>_. re_range 1 9)))))"

definition re_H :: "int parser" where
  "re_H = palt (re_two 2 2 0 3) (palt (re_two 0 1 0 9) (re_range 0 9))"

definition re_M :: "int parser" where
  "re_M = palt (re_two 0 5 0 9) (re_range 0 9)"

definition re_S :: "int parser" where
  "re_S = palt (re_two 6 6 0 1) (palt (re_two 0 5 0 9) (re_range 0 9))"

definition re_date :: "(int \<times> int \<times> int) parser" where
  "re_date = pthen re_Y (\<lambda>y. pthen (re_lit CHR ''-'') (\<lambda>_. pthen re_m (\<lambda>m.
               pthen (re_lit CHR ''-'') (\<lambda>_. pthen re_d (\<lambda>d. pret (y, m, d))))))"

definition re_time :: "(int \<times> int \<times> int) parser" where
  "re_time = pthen re_H (\<lambda>h. pthen (re_lit CHR '':'') (\<lambda>_. pthen re_M (\<lambda>mi.
               pthen (re_lit CHR '':'') (\<lambda>_. pthen re_S (\<lambda>s. pret (h, mi, s))))))"

definition re_datetime :: "((int \<times> int \<times> int) \<times> (int \<times> int \<times> int)) parser" where
  "re_datetime = pthen re_date (\<lambda>ymd. pthen re_spaces (\<lambda>_. pthen re_time (\<lambda>hms.
                   pret (ymd, hms))))"

text \<open>The match the backtracking matcher finds first.\<close>

definition first_match :: "'a parser \<Rightarrow> string \<Rightarrow> ('a \<times> string) option" where
  "first_match p s = (case p s of [] \<Rightarrow> None | x # _ \<Rightarrow> Some x)"

section \<open>strptime and strftime\<close>

text \<open>The constructor \<open>datetime(y, m, d, h, mi, s)\<close> with its range checks.\<close>

definition mk_datetime :: "int \<times> int \<times> int \<Rightarrow> int \<times> int \<times> int \<Rightarrow> datetime result" where
  "mk_datetime ymd hms =
     (case (ymd, hms) of ((y, m, d), (h, mi, s)) \<Rightarrow>
        if valid_date y m d \<and> valid_time h mi s
        then Inr \<lparr>dt_year = y, dt_month = m, dt_day = d,
                  dt_hour = h, dt_minute = mi, dt_second = s\<rparr>
        else Inl ValueError)"

text \<open>\<open>datetime.strptime(s, "%Y-%m-%d %H:%M:%S")\<close>.\<close>

definition strptime_datetime :: "string \<Rightarrow> datetime result" where
  "strptime_datetime s =
     (case re_datetime s of
        [] \<Rightarrow> Inl ValueError
      | ((ymd, hms), rest) # _ \<Rightarrow>
          if rest \<noteq> [] then Inl ValueError else mk_datetime ymd hms)"

text \<open>\<open>datetime.strptime(s, "%Y-%m-%d")\<close>: the time of day is midnight.\<close>

definition strptime_date :: "string \<Rightarrow> datetime result" where
  "strptime_date s =
     (case re_date s of
        [] \<Rightarrow> Inl ValueError
      | (ymd, rest) # _ \<Rightarrow>
          if rest \<noteq> [] then Inl ValueError else mk_datetime ymd (0, 0, 0))"

definition pad2 :: "int \<Rightarrow> string" where
  "pad2 n = [digit_char (n div 10), digit_char (n mod 10)]"

definition pad4 :: "int \<Rightarrow> string" where
  "pad4 n = [digit_char (n div 1000), digit_char (n div 100 mod 10),
             digit_char (n div 10 mod 10), digit_char (n mod 10)]"

text \<open>\<open>str\<close> of an integer.\<close>

fun str_nat :: "nat \<Rightarrow> string" where
  "str_nat n = (if n < 10 then [digit_char (int n)]
                else str_nat (n div 10) @ [digit_char (int (n mod 10))])"

declare str_nat.simps [simp del]

definition str_int :: "int \<Rightarrow> string" where
  "str_int i = (if i < 0 then ''-'' @ str_nat (nat (- i)) else str_nat (nat i))"

text \<open>\<open>t.strftime("%Y-%m-%d %H:%M:%S")\<close>. The C library prints \<open>%Y\<close> as the
  decimal number of the year, which has four digits from the year 1000 on; the other
  fields are padded to two digits.\<close>

definition strftime_datetime :: "datetime \<Rightarrow> string" where
  "strftime_datetime t =
     (if 1000 \<le> dt_year t then pad4 (dt_year t) else str_int (dt_year t)) @ ''-'' @
     pad2 (dt_month t) @ ''-'' @ pad2 (dt_day t) @ '' '' @
     pad2 (dt_hour t) @ '':'' @ pad2 (dt_minute t) @ '':'' @ pad2 (dt_second t)"

section \<open>Chronological order\<close>

text \<open>The fields of a datetime in the order of their significance, and the number of
  seconds since the start of day 0 of the proleptic Gregorian calendar.\<close>

definition dt_fields :: "datetime \<Rightarrow> int list" where
  "dt_fields t = [dt_year t, dt_month t, dt_day t, dt_hour t, dt_minute t, dt_second t]"

definition epoch :: "datetime \<Rightarrow> int" where
  "epoch t = 86400 * toordinal t + seconds_of_day t"

section \<open>Properties of parsers\<close>

text \<open>\<open>stable t p\<close>: the parser \<open>p\<close> finds the same matches, in the same order,
  when the input is followed by \<open>t\<close>. \<open>bounded n p\<close>: a match of \<open>p\<close> reads at most
  \<open>n\<close> characters.\<close>

definition stable :: "string \<Rightarrow> 'a parser \<Rightarrow> bool" where
  "stable t p \<longleftrightarrow> (\<forall>s. p (s @ t) = map (\<lambda>(a, r). (a, r @ t)) (p s))"

definition bounded :: "nat \<Rightarrow> 'a parser \<Rightarrow> bool" where
  "bounded n p \<longleftrightarrow> (\<forall>s a r. (a, r) \<in> set (p s) \<longrightarrow> length s \<le> length r + n)"

lemmas parser_defs =
  pret_def pthen_def palt_def re_range_def re_lit_def re_two_def
  re_Y_def re_m_def re_d_def re_H_def re_M_def re_S_def
  re_date_def re_time_def re_datetime_def is_digit_def digit_val_def

lemmas strptime_defs =
  strptime_datetime_def strptime_date_def mk_datetime_def valid_date_def valid_time_def
  days_in_month_def DAYS_IN_MONTH_def is_leap_def is_space_def

section \<open>Digits\<close>

lemma digit_char_props:
  assumes "0 \<le> k" and "k \<le> 9"
  shows "is_digit (digit_char k)" and "digit_val (digit_char k) = k"
    and "\<not> is_space (digit_char k)"
proof -
  from assms have "nat k + 48 < 256" "48 \<le> nat k + 48" "nat k + 48 \<le> 57" by simp_all
  then have c: "of_char (digit_char k) = nat k + 48"
    by (simp add: digit_char_def)
  with assms show "is_digit (digit_char k)" and "digit_val (digit_char k) = k"
    by (simp_all add: is_digit_def digit_val_def)
  have "(48::nat) \<le> of_char (digit_char k)" using c by simp
  then show "\<not> is_space (digit_char k)"
    by (auto simp: is_space_def)
qed

lemma re_range_digit:
  assumes "0 \<le> k" and "k \<le> 9"
  shows "re_range lo hi (digit_char k # r) = (if lo \<le> k \<and> k \<le> hi then [(k, r)] else [])"
  by (simp add: re_range_def digit_char_props [OF assms])

lemma re_two_digits:
  assumes "0 \<le> x" "x \<le> 9" "0 \<le> y" "y \<le> 9"
  shows "re_two a b c d (digit_char x # digit_char y # r) =
    (if a \<le> x \<and> x \<le> b \<and> c \<le> y \<and> y \<le> d then [(10 * x + y, r)] else [])"
  by (simp add: re_two_def pthen_def pret_def re_range_digit assms)

lemma re_two_pad2:
  assumes "0 \<le> n" and "n \<le> 99"
  shows "re_two a b c d (pad2 n @ r) =
    (if a \<le> n div 10 \<and> n div 10 \<le> b \<and> c \<le> n mod 10 \<and> n mod 10 \<le> d then [(n, r)] else [])"
proof -
  from assms have "0 \<le> n div 10" "n div 10 \<le> 9" "0 \<le> n mod 10" "n mod 10 \<le> 9" by simp_all
  from re_two_digits [OF this] show ?thesis by (simp add: pad2_def)
qed

lemma re_lit_Cons [simp]: "re_lit c (x # r) = (if x = c then [((), r)] else [])"
  by (simp add: re_lit_def)

section \<open>The first match\<close>

lemma first_match_single [simp]: "p s = [x] \<Longrightarrow> first_match p s = Some x"
  by (simp add: first_match_def)

lemma first_match_Nil [simp]: "p s = [] \<Longrightarrow> first_match p s = None"
  by (simp add: first_match_def)

lemma first_match_pret [simp]: "first_match (pret a) s = Some (a, s)"
  by (simp add: first_match_def pret_def)

lemma first_match_pthen:
  assumes "first_match p s = Some (a, r)" and "first_match (f a) r = Some y"
  shows "first_match (pthen p f) s = Some y"
  using assms by (auto simp: first_match_def pthen_def split: list.splits)

lemma first_match_palt:
  "first_match (palt p q) s =
     (case first_match p s of Some x \<Rightarrow> Some x | None \<Rightarrow> first_match q s)"
  by (simp add: first_match_def palt_def split: list.splits)

lemma strptime_datetime_first:
  "strptime_datetime s =
     (case first_match re_datetime s of
        None \<Rightarrow> Inl ValueError
      | Some ((ymd, hms), rest) \<Rightarrow> if rest \<noteq> [] then Inl ValueError else mk_datetime ymd hms)"
  by (simp add: strptime_datetime_def first_match_def split: list.splits)

lemma strptime_date_first:
  "strptime_date s =
     (case first_match re_date s of
        None \<Rightarrow> Inl ValueError
      | Some (ymd, rest) \<Rightarrow> if rest \<noteq> [] then Inl ValueError else mk_datetime ymd (0, 0, 0))"
  by (simp add: strptime_date_def first_match_def split: list.splits)

section \<open>The directives on padded fields\<close>

lemma first_re_two_pad2:
  assumes "0 \<le> n" and "n \<le> 99"
  shows "first_match (re_two a b c d) (pad2 n @ r) =
    (if a \<le> n div 10 \<and> n div 10 \<le> b \<and> c \<le> n mod 10 \<and> n mod 10 \<le> d
     then Some (n, r) else None)"
  by (simp add: first_match_def re_two_pad2 [OF assms])

lemma mod10_bounds: "0 \<le> (n::int) mod 10" "n mod 10 \<le> 9"
  by simp_all

lemma decimal4:
  fixes y :: int
  shows "1000 * (y div 1000) + 100 * (y div 100 mod 10) + 10 * (y div 10 mod 10) + y mod 10 = y"
proof -
  define a where "a = y div 10"
  define b where "b = a div 10"
  define c where "c = b div 10"
  have "10 * a + y mod 10 = y" "10 * b + a mod 10 = a" "10 * c + b mod 10 = b"
    unfolding a_def b_def c_def by (rule mult_div_mod_eq)+
  then have main: "1000 * c + 100 * (b mod 10) + 10 * (a mod 10) + y mod 10 = y"
    by linarith
  have "b = y div 100" "c = y div 1000"
    unfolding a_def b_def c_def by (simp_all add: zdiv_zmult2_eq)
  with main show ?thesis by (simp only: a_def)
qed

lemma first_re_Y:
  assumes "0 \<le> y" and "y \<le> 9999"
  shows "first_match re_Y (pad4 y @ r) = Some (y, r)"
proof -
  have d: "0 \<le> y div 1000" "y div 1000 \<le> 9" "0 \<le> y div 100 mod 10" "y div 100 mod 10 \<le> 9"
    "0 \<le> y div 10 mod 10" "y div 10 mod 10 \<le> 9" "0 \<le> y mod 10" "y mod 10 \<le> 9"
    using assms by simp_all
  have "re_Y (pad4 y @ r) =
      [(1000 * (y div 1000) + 100 * (y div 100 mod 10) + 10 * (y div 10 mod 10) + y mod 10, r)]"
    unfolding re_Y_def pad4_def pthen_def pret_def
    by (simp add: re_range_digit d)
  then show ?thesis by (simp add: decimal4)
qed

lemma first_re_two_decade:
  assumes "10 * a \<le> n" and "n \<le> 10 * a + 9" and "0 \<le> a" and "a \<le> 9"
  shows "first_match (re_two lo hi lo' hi') (pad2 n @ r) =
    (if lo \<le> a \<and> a \<le> hi \<and> lo' \<le> n - 10 * a \<and> n - 10 * a \<le> hi'
     then Some (n, r) else None)"
proof -
  from assms have "n div 10 = a" by (intro int_div_pos_eq [where r = "n - 10 * a"]) simp_all
  moreover from assms have "n mod 10 = n - 10 * a"
    by (intro int_mod_pos_eq [where q = a]) simp_all
  moreover from assms have "0 \<le> n" "n \<le> 99" by simp_all
  ultimately show ?thesis by (simp add: first_re_two_pad2)
qed

lemma first_re_m:
  assumes "1 \<le> m" and "m \<le> 12"
  shows "first_match re_m (pad2 m @ r) = Some (m, r)"
proof (cases "m \<le> 9")
  case True
  with assms show ?thesis
    by (simp add: re_m_def first_match_palt first_re_two_decade [of 0 m])
next
  case False
  with assms show ?thesis
    by (simp add: re_m_def first_match_palt first_re_two_decade [of 1 m])
qed

lemma first_re_d:
  assumes "1 \<le> d" and "d \<le> 31"
  shows "first_match re_d (pad2 d @ r) = Some (d, r)"
proof -
  consider "d \<le> 9" | "10 \<le> d" "d \<le> 19" | "20 \<le> d" "d \<le> 29" | "30 \<le> d"
    by linarith
  then show ?thesis
  proof cases
    case 1
    with assms show ?thesis
      by (simp add: re_d_def first_match_palt first_re_two_decade [of 0 d])
  next
    case 2
    with assms show ?thesis
      by (simp add: re_d_def first_match_palt first_re_two_decade [of 1 d])
  next
    case 3
    with assms show ?thesis
      by (simp add: re_d_def first_match_palt first_re_two_decade [of 2 d])
  next
    case 4
    with assms show ?thesis
      by (simp add: re_d_def first_match_palt first_re_two_decade [of 3 d])
  qed
qed

lemma first_re_H:
  assumes "0 \<le> h" and "h \<le> 23"
  shows "first_match re_H (pad2 h @ r) = Some (h, r)"
proof -
  consider "h \<le> 9" | "10 \<le> h" "h \<le> 19" | "20 \<le> h" by linarith
  then show ?thesis
  proof cases
    case 1
    with assms show ?thesis
      by (simp add: re_H_def first_match_palt first_re_two_decade [of 0 h])
  next
    case 2
    with assms show ?thesis
      by (simp add: re_H_def first_match_palt first_re_two_decade [of 1 h])
  next
    case 3
    with assms show ?thesis
      by (simp add: re_H_def first_match_palt first_re_two_decade [of 2 h])
  qed
qed

lemma first_re_M:
  assumes "0 \<le> n" and "n \<le> 59"
  shows "first_match re_M (pad2 n @ r) = Some (n, r)"
proof -
  from assms have "0 \<le> n" "n \<le> 99" by simp_all
  note two = first_re_two_pad2 [OF this]
  from assms have "0 \<le> n div 10" "n div 10 \<le> 5" by simp_all
  then show ?thesis
    by (simp add: re_M_def first_match_palt two mod10_bounds)
qed

lemma first_re_S:
  assumes "0 \<le> n" and "n \<le> 59"
  shows "first_match re_S (pad2 n @ r) = Some (n, r)"
proof -
  from assms have "0 \<le> n" "n \<le> 99" by simp_all
  note two = first_re_two_pad2 [OF this]
  from assms have "0 \<le> n div 10" "n div 10 \<le> 5" by simp_all
  then show ?thesis
    by (simp add: re_S_def first_match_palt two mod10_bounds)
qed

section \<open>Round trip of formatted timestamps\<close>

lemma first_re_lit [simp]: "first_match (re_lit c) (c # r) = Some ((), r)"
  by (simp add: first_match_def)

lemma pad2_Cons: "pad2 n @ r = digit_char (n div 10) # digit_char (n mod 10) # r"
  by (simp add: pad2_def)

lemma first_re_spaces:
  assumes "\<not> is_space c"
  shows "first_match re_spaces (CHR '' '' # c # r) = Some ((), c # r)"
  using assms by (simp add: first_match_def is_space_def)

lemma first_re_date:
  assumes "0 \<le> y" "y \<le> 9999" "1 \<le> m" "m \<le> 12" "1 \<le> d" "d \<le> 31"
  shows "first_match re_date (pad4 y @ CHR ''-'' # pad2 m @ CHR ''-'' # pad2 d @ r)
    = Some ((y, m, d), r)"
  unfolding re_date_def
  by (rule first_match_pthen first_re_Y first_re_m first_re_d first_re_lit first_match_pret assms)+

lemma first_re_time:
  assumes "0 \<le> h" "h \<le> 23" "0 \<le> mi" "mi \<le> 59" "0 \<le> s" "s \<le> 59"
  shows "first_match re_time (pad2 h @ CHR '':'' # pad2 mi @ CHR '':'' # pad2 s @ r)
    = Some ((h, mi, s), r)"
  unfolding re_time_def
  by (rule first_match_pthen first_re_H first_re_M first_re_S first_re_lit first_match_pret assms)+

lemma first_re_datetime:
  assumes "0 \<le> y" "y \<le> 9999" "1 \<le> m" "m \<le> 12" "1 \<le> d" "d \<le> 31"
    and "0 \<le> h" "h \<le> 23" "0 \<le> mi" "mi \<le> 59" "0 \<le> s" "s \<le> 59"
  shows "first_match re_datetime
      (pad4 y @ CHR ''-'' # pad2 m @ CHR ''-'' # pad2 d @
       CHR '' '' # pad2 h @ CHR '':'' # pad2 mi @ CHR '':'' # pad2 s @ r)
    = Some (((y, m, d), (h, mi, s)), r)"
proof -
  have sp: "first_match re_spaces (CHR '' '' # pad2 h @ x) = Some ((), pad2 h @ x)" for x
    unfolding pad2_Cons using assms(7,8)
    by (intro first_re_spaces digit_char_props(3)) simp_all
  show ?thesis
    unfolding re_datetime_def
    by (rule first_match_pthen first_re_date first_re_time sp first_match_pret assms)+
qed

lemma strftime_datetime_eq:
  assumes "1000 \<le> dt_year t"
  shows "strftime_datetime t =
    pad4 (dt_year t) @ CHR ''-'' # pad2 (dt_month t) @ CHR ''-'' # pad2 (dt_day t) @
    CHR '' '' # pad2 (dt_hour t) @ CHR '':'' # pad2 (dt_minute t) @ CHR '':'' #
    pad2 (dt_second t) @ []"
  using assms by (simp add: strftime_datetime_def)

lemma valid_datetime_fields:
  assumes "valid_datetime t"
  shows "1 \<le> dt_year t" "dt_year t \<le> 9999" "1 \<le> dt_month t" "dt_month t \<le> 12"
    "1 \<le> dt_day t" "dt_day t \<le> 31" "0 \<le> dt_hour t" "dt_hour t \<le> 23"
    "0 \<le> dt_minute t" "dt_minute t \<le> 59" "0 \<le> dt_second t" "dt_second t \<le> 59"
    "dt_day t \<le> days_in_month (dt_year t) (dt_month t)"
proof -
  from assms have v: "valid_date (dt_year t) (dt_month t) (dt_day t)"
    "valid_time (dt_hour t) (dt_minute t) (dt_second t)"
    by (simp_all add: valid_datetime_def)
  then show "1 \<le> dt_year t" "dt_year t \<le> 9999" "1 \<le> dt_month t" "dt_month t \<le> 12"
    "1 \<le> dt_day t" "0 \<le> dt_hour t" "dt_hour t \<le> 23"
    "0 \<le> dt_minute t" "dt_minute t \<le> 59" "0 \<le> dt_second t" "dt_second t \<le> 59"
    "dt_day t \<le> days_in_month (dt_year t) (dt_month t)"
    by (simp_all add: valid_date_def valid_time_def)
  with days_in_month_bounds [of "dt_month t" "dt_year t"] show "dt_day t \<le> 31" by simp
qed

lemma strptime_strftime:
  assumes "valid_datetime t" and "1000 \<le> dt_year t"
  shows "strptime_datetime (strftime_datetime t) = Inr t"
proof -
  note f = valid_datetime_fields [OF assms(1)]
  from f(1) have "0 \<le> dt_year t" by simp
  from first_re_datetime [OF this f(2-12), of "[]"] assms(1)
  show ?thesis
    by (simp add: strptime_datetime_first strftime_datetime_eq [OF assms(2)] mk_datetime_def
        valid_datetime_def)
qed

section \<open>The order of formatted timestamps\<close>

lemma append_le_append_iff:
  fixes u v :: "'a::linorder list"
  assumes "length u = length v"
  shows "u @ r \<le> v @ s \<longleftrightarrow> u < v \<or> (u = v \<and> r \<le> s)"
  using assms by (induction u v rule: list_induct2) auto

lemma of_char_digit_char: "0 \<le> k \<Longrightarrow> k \<le> 9 \<Longrightarrow> of_char (digit_char k) = nat k + 48"
  by (simp add: digit_char_def)

lemma digit_char_order:
  assumes "0 \<le> a" "a \<le> 9" "0 \<le> b" "b \<le> 9"
  shows "digit_char a < digit_char b \<longleftrightarrow> a < b" and "digit_char a = digit_char b \<longleftrightarrow> a = b"
proof -
  from assms show "digit_char a < digit_char b \<longleftrightarrow> a < b"
    by (auto simp: less_char_def of_char_digit_char)
  from assms of_char_digit_char [of a] of_char_digit_char [of b]
  show "digit_char a = digit_char b \<longleftrightarrow> a = b" by auto
qed

lemma lex10:
  fixes q r q' r' :: int
  assumes "0 \<le> r" "r \<le> 9" "0 \<le> r'" "r' \<le> 9"
  shows "q < q' \<or> q = q' \<and> r < r' \<longleftrightarrow> 10 * q + r < 10 * q' + r'"
    and "q = q' \<and> r = r' \<longleftrightarrow> 10 * q + r = 10 * q' + r'"
proof -
  from assms show "q < q' \<or> q = q' \<and> r < r' \<longleftrightarrow> 10 * q + r < 10 * q' + r'"
    by auto
  from assms show "q = q' \<and> r = r' \<longleftrightarrow> 10 * q + r = 10 * q' + r'"
    by (cases "q < q'"; cases "q' < q") auto
qed

lemma pad2_order:
  assumes "0 \<le> a" "a \<le> 99" "0 \<le> b" "b \<le> 99"
  shows "pad2 a < pad2 b \<longleftrightarrow> a < b" and "pad2 a = pad2 b \<longleftrightarrow> a = b"
proof -
  from assms have r: "0 \<le> a div 10" "a div 10 \<le> 9" "0 \<le> b div 10" "b div 10 \<le> 9"
    by simp_all
  note l = lex10 [OF mod10_bounds [of a] mod10_bounds [of b], of "a div 10" "b div 10"]
  from l(1) show "pad2 a < pad2 b \<longleftrightarrow> a < b"
    by (simp add: pad2_def digit_char_order r mod10_bounds)
  from l(2) show "pad2 a = pad2 b \<longleftrightarrow> a = b"
    by (simp add: pad2_def digit_char_order r mod10_bounds)
qed

lemma pad2_block:
  assumes "0 \<le> a" "a \<le> 99" "0 \<le> b" "b \<le> 99"
  shows "pad2 a @ r \<le> pad2 b @ s \<longleftrightarrow> a < b \<or> (a = b \<and> r \<le> s)"
proof -
  have "length (pad2 a) = length (pad2 b)" by (simp add: pad2_def)
  from append_le_append_iff [OF this] show ?thesis
    by (simp only: pad2_order [OF assms])
qed

lemma pad2_le_iff:
  assumes "0 \<le> a" "a \<le> 99" "0 \<le> b" "b \<le> 99"
  shows "pad2 a \<le> pad2 b \<longleftrightarrow> a < b \<or> a = b"
  using pad2_block [OF assms, of "[]" "[]"] by simp

lemma century:
  fixes n :: int
  shows "n div 1000 = n div 100 div 10" and "n div 10 mod 10 = n mod 100 div 10"
    and "n mod 10 = n mod 100 mod 10"
proof -
  show "n div 1000 = n div 100 div 10" by (simp add: zdiv_zmult2_eq)
  have "n mod 100 = 10 * (n div 10 mod 10) + n mod 10"
    using zmod_zmult2_eq [of 10 n 10] by simp
  then show "n div 10 mod 10 = n mod 100 div 10" and "n mod 10 = n mod 100 mod 10"
    by simp_all
qed

lemma pad4_pad2: "pad4 n = pad2 (n div 100) @ pad2 (n mod 100)"
  by (simp add: pad4_def pad2_def flip: century)

lemma lex100:
  fixes a b :: int
  shows "a div 100 < b div 100 \<or> a div 100 = b div 100 \<and> (a mod 100 < b mod 100 \<or>
      a mod 100 = b mod 100 \<and> P) \<longleftrightarrow> a < b \<or> a = b \<and> P"
proof -
  have "0 \<le> r \<Longrightarrow> r < 100 \<Longrightarrow> 0 \<le> r' \<Longrightarrow> r' < 100 \<Longrightarrow>
      q < q' \<or> q = q' \<and> (r < r' \<or> r = r' \<and> P) \<longleftrightarrow>
      100 * q + r < 100 * q' + r' \<or> 100 * q + r = 100 * q' + r' \<and> P" for q r q' r' :: int
    by auto
  from this [of "a mod 100" "b mod 100" "a div 100" "b div 100"] show ?thesis
    by simp
qed

lemma valid_datetime_two_digits:
  assumes "valid_datetime t"
  shows "0 \<le> dt_month t" "dt_month t \<le> 99" "0 \<le> dt_day t" "dt_day t \<le> 99"
    "0 \<le> dt_hour t" "dt_hour t \<le> 99" "0 \<le> dt_minute t" "dt_minute t \<le> 99"
    "0 \<le> dt_second t" "dt_second t \<le> 99"
    "0 \<le> dt_year t div 100" "dt_year t div 100 \<le> 99"
    "0 \<le> dt_year t mod 100" "dt_year t mod 100 \<le> 99"
  using valid_datetime_fields [OF assms] by simp_all

lemma strftime_le_iff:
  assumes "valid_datetime a" and "valid_datetime b"
    and "1000 \<le> dt_year a" and "1000 \<le> dt_year b"
  shows "strftime_datetime a \<le> strftime_datetime b \<longleftrightarrow> dt_fields a \<le> dt_fields b"
  using assms(3,4)
  by (simp add: strftime_datetime_def pad4_pad2 pad2_block pad2_le_iff dt_fields_def lex100
      valid_datetime_two_digits [OF assms(1)] valid_datetime_two_digits [OF assms(2)])

lemma epoch_le_iff:
  assumes "valid_datetime a" and "valid_datetime b"
  shows "epoch a \<le> epoch b \<longleftrightarrow>
    toordinal a < toordinal b \<or> toordinal a = toordinal b \<and> seconds_of_day a \<le> seconds_of_day b"
  using seconds_of_day_bounds [OF assms(1)] seconds_of_day_bounds [OF assms(2)]
  by (auto simp: epoch_def)

lemma seconds_of_day_le_iff:
  assumes "valid_datetime a" and "valid_datetime b"
  shows "seconds_of_day a \<le> seconds_of_day b \<longleftrightarrow>
    [dt_hour a, dt_minute a, dt_second a] \<le> [dt_hour b, dt_minute b, dt_second b]"
  using valid_datetime_fields [OF assms(1)] valid_datetime_fields [OF assms(2)]
  by (auto simp: seconds_of_day_def)

lemma dt_fields_le_iff:
  assumes "valid_datetime a" and "valid_datetime b"
  shows "dt_fields a \<le> dt_fields b \<longleftrightarrow> epoch a \<le> epoch b"
proof -
  note fa = valid_datetime_fields [OF assms(1)] and fb = valid_datetime_fields [OF assms(2)]
  note less = ymd2ord_less_iff [OF fa(3,4,5,13) fb(3,4,5,13)]
  have eq: "toordinal a = toordinal b \<longleftrightarrow>
      dt_year a = dt_year b \<and> dt_month a = dt_month b \<and> dt_day a = dt_day b"
    using ymd2ord_inj [OF fa(3,4,5,13) fb(3,4,5,13)] by (auto simp: toordinal_def)
  show ?thesis
    unfolding epoch_le_iff [OF assms] seconds_of_day_le_iff [OF assms] eq
    by (auto simp: dt_fields_def toordinal_def less)
qed

section \<open>A date followed by midnight\<close>

lemma stableD: "stable t p \<Longrightarrow> p (s @ t) = map (\<lambda>(a, r). (a, r @ t)) (p s)"
  by (simp add: stable_def)

lemma stable_pret: "stable t (pret a)"
  by (simp add: stable_def pret_def)

lemma stable_pthen:
  assumes "stable t p" and "\<And>a. stable t (f a)"
  shows "stable t (pthen p f)"
  unfolding stable_def pthen_def
  by (simp add: stableD [OF assms(1)] stableD [OF assms(2)] map_concat comp_def case_prod_beta)

lemma stable_palt: "stable t p \<Longrightarrow> stable t q \<Longrightarrow> stable t (palt p q)"
  by (simp add: stable_def palt_def)

lemma stable_re_range: "\<not> is_digit c \<Longrightarrow> stable (c # t) (re_range lo hi)"
  unfolding stable_def
proof
  fix s assume "\<not> is_digit c"
  then show "re_range lo hi (s @ c # t) = map (\<lambda>(a, r). (a, r @ c # t)) (re_range lo hi s)"
    by (cases s) (simp_all add: re_range_def)
qed

lemma stable_re_lit: "c \<noteq> x \<Longrightarrow> stable (c # t) (re_lit x)"
  unfolding stable_def
proof
  fix s assume "c \<noteq> x"
  then show "re_lit x (s @ c # t) = map (\<lambda>(a, r). (a, r @ c # t)) (re_lit x s)"
    by (cases s) (simp_all add: re_lit_def)
qed

lemma stable_re_two: "\<not> is_digit c \<Longrightarrow> stable (c # t) (re_two a b lo hi)"
  unfolding re_two_def by (intro stable_pthen stable_re_range stable_pret)

lemma not_digit_space: "\<not> is_digit CHR '' ''"
  by (simp add: is_digit_def)

lemma stable_space_day:
  "stable (CHR '' '' # CHR ''0'' # t) (pthen (re_lit CHR '' '') (\<lambda>_. re_range 1 9))"
  unfolding stable_def
proof
  fix s
  have "re_range 1 9 (CHR ''0'' # t) = []"
    by (simp add: re_range_def digit_val_def)
  then show "pthen (re_lit CHR '' '') (\<lambda>_. re_range 1 9) (s @ CHR '' '' # CHR ''0'' # t) =
      map (\<lambda>(a, r). (a, r @ CHR '' '' # CHR ''0'' # t))
        (pthen (re_lit CHR '' '') (\<lambda>_. re_range 1 9) s)"
    by (cases s) (simp_all add: pthen_def re_lit_def stableD [OF stable_re_range [OF not_digit_space]])
qed

lemma stable_re_date: "stable (CHR '' '' # CHR ''0'' # t) re_date"
  unfolding re_date_def re_Y_def re_m_def re_d_def
  by (intro stable_pthen stable_palt stable_re_two stable_re_range stable_re_lit stable_pret
      stable_space_day not_digit_space) simp_all

lemma pad2_zero: "pad2 0 = ''00''"
  by code_simp

lemma re_datetime_midnight:
  assumes "first_match re_date d = Some (ymd, [])"
  shows "first_match re_datetime (d @ '' 00:00:00'') = Some ((ymd, (0, 0, 0)), [])"
proof -
  from assms obtain rest where "re_date d = (ymd, []) # rest"
    by (auto simp: first_match_def split: list.splits)
  then have d: "first_match re_date (d @ '' 00:00:00'') = Some (ymd, '' 00:00:00'')"
    by (simp add: stableD [OF stable_re_date] first_match_def)
  have sp: "first_match re_spaces '' 00:00:00'' = Some ((), ''00:00:00'')"
    by (simp add: first_match_def is_space_def)
  have t: "first_match re_time ''00:00:00'' = Some ((0, 0, 0), [])"
    using first_re_time [of 0 0 0 "[]"] by (simp add: pad2_zero)
  show ?thesis
    unfolding re_datetime_def
    by (rule first_match_pthen d sp t first_match_pret)+
qed

lemma strptime_date_midnight:
  assumes "strptime_date d = Inr x"
  shows "strptime_datetime (d @ '' 00:00:00'') = Inr x"
proof -
  from assms obtain ymd where "first_match re_date d = Some (ymd, [])"
    and "mk_datetime ymd (0, 0, 0) = Inr x"
    by (auto simp: strptime_date_first split: option.splits if_splits)
  then show ?thesis
    by (simp add: strptime_datetime_first re_datetime_midnight)
qed

lemma mk_datetime_Inr:
  assumes "mk_datetime (y, m, d) (h, mi, s) = Inr x"
  shows "x = dt y m d h mi s" and "valid_date y m d" and "valid_time h mi s"
  using assms by (auto simp: mk_datetime_def dt_def split: if_splits)

section \<open>How much a directive reads\<close>

lemma boundedD: "bounded n p \<Longrightarrow> (a, r) \<in> set (p s) \<Longrightarrow> length s \<le> length r + n"
  by (auto simp: bounded_def)

lemma bounded_mono: "bounded n p \<Longrightarrow> n \<le> m \<Longrightarrow> bounded m p"
  by (fastforce simp: bounded_def)

lemma bounded_pret: "bounded 0 (pret a)"
  by (simp add: bounded_def pret_def)

lemma bounded_pthen:
  assumes "bounded n p" and "\<And>a. bounded m (f a)"
  shows "bounded (n + m) (pthen p f)"
  unfolding bounded_def
proof (intro allI impI)
  fix s b r assume "(b, r) \<in> set (pthen p f s)"
  then obtain a r' where "(a, r') \<in> set (p s)" and "(b, r) \<in> set (f a r')"
    by (auto simp: pthen_def)
  with boundedD [OF assms(1)] boundedD [OF assms(2)] show "length s \<le> length r + (n + m)"
    by fastforce
qed

lemma bounded_palt: "bounded n p \<Longrightarrow> bounded n q \<Longrightarrow> bounded n (palt p q)"
  by (auto simp: bounded_def palt_def)

lemma bounded_re_range: "bounded 1 (re_range lo hi)"
  by (auto simp: bounded_def re_range_def split: list.splits if_splits)

lemma bounded_re_lit: "bounded 1 (re_lit c)"
  by (auto simp: bounded_def re_lit_def split: list.splits if_splits)

lemma bounded_re_two: "bounded 2 (re_two a b c d)"
proof -
  have "bounded (1 + (1 + 0)) (re_two a b c d)"
    unfolding re_two_def by (intro bounded_pthen bounded_re_range bounded_pret)
  then show ?thesis by (rule bounded_mono) simp
qed

lemma bounded_re_m: "bounded 2 re_m"
  unfolding re_m_def
  by (intro bounded_palt bounded_re_two bounded_mono [OF bounded_re_range]) simp

lemma bounded_re_d: "bounded 2 re_d"
proof -
  have "bounded (1 + 1) (pthen (re_lit CHR '' '') (\<lambda>_. re_range 1 9))"
    by (intro bounded_pthen bounded_re_lit bounded_re_range)
  then have "bounded 2 (pthen (re_lit CHR '' '') (\<lambda>_. re_range 1 9))"
    by (rule bounded_mono) simp
  then show ?thesis
    unfolding re_d_def
    by (intro bounded_palt bounded_re_two bounded_mono [OF bounded_re_range]) simp_all
qed

lemma bounded_re_Y: "bounded 4 re_Y"
proof -
  have "bounded (1 + (1 + (1 + (1 + 0)))) re_Y"
    unfolding re_Y_def by (intro bounded_pthen bounded_re_range bounded_pret)
  then show ?thesis by (rule bounded_mono) simp
qed

lemma bounded_re_date: "bounded 10 re_date"
proof -
  have "bounded (4 + (1 + (2 + (1 + (2 + 0))))) re_date"
    unfolding re_date_def
    by (intro bounded_pthen bounded_re_Y bounded_re_lit bounded_re_m bounded_re_d bounded_pret)
  then show ?thesis by (rule bounded_mono) simp
qed

section \<open>The shape of an accepted date\<close>

lemma pthen_mem:
  "(b, r) \<in> set (pthen p f s) \<longleftrightarrow> (\<exists>a r'. (a, r') \<in> set (p s) \<and> (b, r) \<in> set (f a r'))"
  by (auto simp: pthen_def)

lemma re_range_mem:
  "(v, r) \<in> set (re_range lo hi s) \<longleftrightarrow>
     (\<exists>c. s = c # r \<and> is_digit c \<and> lo \<le> digit_val c \<and> digit_val c \<le> hi \<and> v = digit_val c)"
  by (cases s) (auto simp: re_range_def)

lemma re_lit_mem: "(u, r) \<in> set (re_lit x s) \<longleftrightarrow> s = x # r"
  by (cases s) (auto simp: re_lit_def)

lemma re_date_shape:
  assumes "re_date d \<noteq> []"
  shows "\<exists>a b c e r. d = a # b # c # e # CHR ''-'' # r \<and>
    is_digit a \<and> is_digit b \<and> is_digit c \<and> is_digit e"
proof -
  from assms obtain v r where "(v, r) \<in> set (re_date d)"
    by (cases "re_date d") auto
  then show ?thesis
    unfolding re_date_def re_Y_def by (auto simp: pthen_mem re_range_mem re_lit_mem pret_def)
qed

lemma digit_char_val:
  assumes "is_digit c"
  shows "digit_char (digit_val c) = c"
proof -
  from assms have "(48::nat) \<le> of_char c" by (simp add: is_digit_def)
  then have "nat (int (of_char c) - 48) + 48 = (of_char c :: nat)"
    by linarith
  then show ?thesis by (simp add: digit_val_def digit_char_def)
qed

lemma digit_val_bounds: "is_digit c \<Longrightarrow> 0 \<le> digit_val c \<and> digit_val c \<le> 9"
  by (auto simp: is_digit_def digit_val_def)

lemma pad2_digit_vals:
  assumes "is_digit a" and "is_digit b"
  shows "pad2 (10 * digit_val a + digit_val b) = [a, b]"
  using assms digit_val_bounds [OF assms(1)] digit_val_bounds [OF assms(2)]
  by (simp add: pad2_def digit_char_val)

lemma split100:
  fixes h l :: int
  assumes "0 \<le> l" and "l < 100"
  shows "(100 * h + l) div 100 = h" and "(100 * h + l) mod 100 = l"
  using assms by simp_all

lemma pad4_digit_vals:
  assumes "is_digit a" "is_digit b" "is_digit c" "is_digit e"
  shows "pad4 (1000 * digit_val a + 100 * digit_val b + 10 * digit_val c + digit_val e) =
    [a, b, c, e]"
proof -
  define hi lo where "hi = 10 * digit_val a + digit_val b"
    and "lo = 10 * digit_val c + digit_val e"
  from digit_val_bounds [OF assms(3)] digit_val_bounds [OF assms(4)]
  have "0 \<le> lo" "lo < 100" by (simp_all add: lo_def)
  note split100 [OF this, of hi]
  moreover have "1000 * digit_val a + 100 * digit_val b + 10 * digit_val c + digit_val e =
      100 * hi + lo" by (simp add: hi_def lo_def)
  ultimately have "pad4 (1000 * digit_val a + 100 * digit_val b + 10 * digit_val c +
      digit_val e) = pad2 hi @ pad2 lo"
    by (simp only: pad4_pad2)
  then show ?thesis
    by (simp add: hi_def lo_def pad2_digit_vals assms)
qed

end
