(* ===== verification/SqlDates.thy ===== *)
theory SqlDates
  imports Timestamps
begin

text \<open>
  The two SQLite date functions the program calls, \<open>DATE(x)\<close> and
  \<open>strftime('%Y-%W', x)\<close>, on the time strings the program can store: a date
  \<open>YYYY-MM-DD\<close>, optionally followed by a run of whitespace or \<open>T\<close> and a time
  \<open>HH:MM\<close> or \<open>HH:MM:SS\<close>. A string that starts with four digits and a hyphen
  and does not continue in this way is no time string for SQLite, and both functions
  return \<open>NULL\<close>. The other spellings SQLite accepts (fractions of a second, time-zone
  suffixes, hour 24, a day beyond the end of the month, Julian day numbers, \<open>now\<close>,
  a time without a date) are outside the model: the result for them is \<open>SqlOther\<close>
  and the operations that meet it say so instead of answering.
\<close>

section \<open>Time strings\<close>

datatype sql_time = SqlDay int int int | SqlNull | SqlOther

text \<open>\<open>sqlite3Isspace\<close>.\<close>

definition sql_is_space :: "char \<Rightarrow> bool" where
  "sql_is_space c \<longleftrightarrow>
     c = CHR '' '' \<or> c = CHR 0x09 \<or> c = CHR 0x0A \<or> c = CHR 0x0B \<or> c = CHR 0x0C \<or> c = CHR 0x0D"

text \<open>\<open>getDigits\<close>: exactly two digits with a value between \<open>lo\<close> and \<open>hi\<close>.\<close>

definition sql_two :: "int \<Rightarrow> int \<Rightarrow> string \<Rightarrow> (int \<times> string) option" where
  "sql_two lo hi s =
     (case s of
        a # b # r \<Rightarrow>
          if is_digit a \<and> is_digit b \<and> lo \<le> 10 * digit_val a + digit_val b \<and>
             10 * digit_val a + digit_val b \<le> hi
          then Some (10 * digit_val a + digit_val b, r) else None
      | _ \<Rightarrow> None)"

definition sql_four :: "string \<Rightarrow> (int \<times> string) option" where
  "sql_four s =
     (case s of
        a # b # c # d # r \<Rightarrow>
          if is_digit a \<and> is_digit b \<and> is_digit c \<and> is_digit d
          then Some (1000 * digit_val a + 100 * digit_val b + 10 * digit_val c + digit_val d, r)
          else None
      | _ \<Rightarrow> None)"

definition sql_char :: "char \<Rightarrow> string \<Rightarrow> string option" where
  "sql_char x s = (case s of c # r \<Rightarrow> if c = x then Some r else None | [] \<Rightarrow> None)"

text \<open>\<open>parseYyyyMmDd\<close> up to the end of the date: \<open>getDigits(zDate, "40f-21a-21d")\<close>.\<close>

definition sql_ymd :: "string \<Rightarrow> ((int \<times> int \<times> int) \<times> string) option" where
  "sql_ymd s =
     Option.bind (sql_four s) (\<lambda>(y, r1).
     Option.bind (sql_char CHR ''-'' r1) (\<lambda>r2.
     Option.bind (sql_two 1 12 r2) (\<lambda>(m, r3).
     Option.bind (sql_char CHR ''-'' r3) (\<lambda>r4.
     Option.bind (sql_two 1 31 r4) (\<lambda>(d, r5). Some ((y, m, d), r5))))))"

text \<open>\<open>parseHhMmSs\<close> without fraction and time zone: \<open>None\<close> when SQLite rejects
  the time, \<open>Some None\<close> when the string continues in a way the model does not
  cover, otherwise the hour.\<close>

definition sql_hms :: "string \<Rightarrow> int option option" where
  "sql_hms s =
     (case sql_two 0 24 s of
        None \<Rightarrow> None
      | Some (h, r1) \<Rightarrow>
          (case sql_char CHR '':'' r1 of
             None \<Rightarrow> None
           | Some r2 \<Rightarrow>
               (case sql_two 0 59 r2 of
                  None \<Rightarrow> None
                | Some (mi, r3) \<Rightarrow>
                    (case r3 of
                       [] \<Rightarrow> Some (Some h)
                     | c # r4 \<Rightarrow>
                         if c = CHR '':'' then
                           (case sql_two 0 59 r4 of
                              None \<Rightarrow> None
                            | Some (sec, r5) \<Rightarrow> if r5 = [] then Some (Some h) else Some None)
                         else Some None))))"

text \<open>The date a time string denotes.\<close>

definition sql_datetime :: "string \<Rightarrow> sql_time" where
  "sql_datetime s =
     (if \<not> (list_all is_digit (take 4 s) \<and> drop 4 (take 5 s) = ''-'') then SqlOther
      else
        (case sql_ymd s of
           None \<Rightarrow> SqlNull
         | Some ((y, m, d), r) \<Rightarrow>
             let r' = dropWhile (\<lambda>c. sql_is_space c \<or> c = CHR ''T'') r in
             if r' = [] then (if d \<le> days_in_month y m then SqlDay y m d else SqlOther)
             else
               (case sql_hms r' of
                  None \<Rightarrow> SqlNull
                | Some None \<Rightarrow> SqlOther
                | Some (Some h) \<Rightarrow>
                    if d \<le> days_in_month y m \<and> h \<le> 23 then SqlDay y m d else SqlOther)))"

section \<open>The two functions\<close>

text \<open>\<open>strftime('%W', x)\<close>: the week of the year, where week 1 starts with the first
  Monday of the year and the days before it are in week 0.\<close>

definition sql_week_of_year :: "int \<Rightarrow> int \<Rightarrow> int \<Rightarrow> int" where
  "sql_week_of_year y m d =
     (let days_after_jan01 = days_before_month y m + d - 1;
          days_after_monday = (ymd2ord y m d - 1) mod 7
      in (days_after_jan01 - days_after_monday + 7) div 7)"

text \<open>The values of \<open>DATE(x)\<close> and of \<open>strftime('%Y-%W', x)\<close>, as the fields the
  text is printed from; \<open>None\<close> is \<open>NULL\<close>.\<close>

definition sql_DATE :: "sql_time \<Rightarrow> (int \<times> int \<times> int) option" where
  "sql_DATE t = (case t of SqlDay y m d \<Rightarrow> Some (y, m, d) | _ \<Rightarrow> None)"

definition sql_year_week :: "sql_time \<Rightarrow> (int \<times> int) option" where
  "sql_year_week t = (case t of SqlDay y m d \<Rightarrow> Some (y, sql_week_of_year y m d) | _ \<Rightarrow> None)"

text \<open>\<open>a = b\<close> in a \<open>WHERE\<close> clause: true only when neither side is \<open>NULL\<close>.\<close>

definition sql_eq :: "'a option \<Rightarrow> 'a option \<Rightarrow> bool" where
  "sql_eq a b = (case (a, b) of (Some x, Some y) \<Rightarrow> x = y | _ \<Rightarrow> False)"

lemmas sql_parse_defs =
  sql_datetime_def sql_ymd_def sql_hms_def sql_two_def sql_four_def sql_char_def
  sql_is_space_def is_digit_def digit_val_def days_in_month_def DAYS_IN_MONTH_def is_leap_def

section \<open>Comparisons\<close>

lemma sql_eq_None [simp]: "sql_eq a None = False"
  by (simp add: sql_eq_def split: option.splits)

lemma sql_eq_DATE:
  "sql_eq (sql_DATE t) (sql_DATE (SqlDay y m d)) \<longleftrightarrow> t = SqlDay y m d"
  by (cases t) (auto simp: sql_eq_def sql_DATE_def)

lemma sql_eq_year_week:
  "sql_eq (sql_year_week t) (sql_year_week (SqlDay y m d)) \<longleftrightarrow>
     sql_year_week t = Some (y, sql_week_of_year y m d)"
  by (cases t) (auto simp: sql_eq_def sql_year_week_def)

lemma sql_null_values [simp]: "sql_DATE SqlNull = None" "sql_year_week SqlNull = None"
  by (simp_all add: sql_DATE_def sql_year_week_def)

section \<open>Formatted timestamps as SQLite reads them\<close>

lemma sql_two_pad2:
  assumes "0 \<le> n" and "n \<le> 99"
  shows "sql_two lo hi (pad2 n @ r) = (if lo \<le> n \<and> n \<le> hi then Some (n, r) else None)"
proof -
  from assms have d: "0 \<le> n div 10" "n div 10 \<le> 9" "0 \<le> n mod 10" "n mod 10 \<le> 9"
    by simp_all
  have "10 * (n div 10) + n mod 10 = n" by simp
  then show ?thesis
    by (simp add: sql_two_def pad2_def digit_char_props(1,2) d)
qed

lemma sql_four_pad4:
  assumes "0 \<le> y" and "y \<le> 9999"
  shows "sql_four (pad4 y @ r) = Some (y, r)"
proof -
  have d: "0 \<le> y div 1000" "y div 1000 \<le> 9" "0 \<le> y div 100 mod 10" "y div 100 mod 10 \<le> 9"
    "0 \<le> y div 10 mod 10" "y div 10 mod 10 \<le> 9" "0 \<le> y mod 10" "y mod 10 \<le> 9"
    using assms by simp_all
  show ?thesis
    by (simp add: sql_four_def pad4_def digit_char_props(1,2) d decimal4)
qed

lemma sql_char_Cons [simp]: "sql_char c (x # r) = (if x = c then Some r else None)"
  by (simp add: sql_char_def)

lemma sql_ymd_padded:
  assumes "0 \<le> y" "y \<le> 9999" "1 \<le> m" "m \<le> 12" "1 \<le> d" "d \<le> 31"
  shows "sql_ymd (pad4 y @ CHR ''-'' # pad2 m @ CHR ''-'' # pad2 d @ r) = Some ((y, m, d), r)"
  using assms by (simp add: sql_ymd_def sql_four_pad4 sql_two_pad2)

lemma sql_hms_padded:
  assumes "0 \<le> h" "h \<le> 23" "0 \<le> mi" "mi \<le> 59" "0 \<le> s" "s \<le> 59"
  shows "sql_hms (pad2 h @ CHR '':'' # pad2 mi @ CHR '':'' # pad2 s) = Some (Some h)"
  using assms sql_two_pad2 [of s 0 59 "[]"]
  by (simp add: sql_hms_def sql_two_pad2)

lemma pad4_digits:
  assumes "0 \<le> y" and "y \<le> 9999"
  shows "list_all is_digit (take 4 (pad4 y @ r))" and "drop 4 (take 5 (pad4 y @ c # r)) = [c]"
proof -
  have d: "0 \<le> y div 1000" "y div 1000 \<le> 9" "0 \<le> y div 100 mod 10" "y div 100 mod 10 \<le> 9"
    "0 \<le> y div 10 mod 10" "y div 10 mod 10 \<le> 9" "0 \<le> y mod 10" "y mod 10 \<le> 9"
    using assms by simp_all
  show "list_all is_digit (take 4 (pad4 y @ r))"
    by (simp add: pad4_def digit_char_props(1) d)
  show "drop 4 (take 5 (pad4 y @ c # r)) = [c]"
    by (simp add: pad4_def)
qed

lemma digit_not_sql_sep:
  assumes "0 \<le> k" and "k \<le> 9"
  shows "\<not> (sql_is_space (digit_char k) \<or> digit_char k = CHR ''T'')"
proof -
  from digit_char_props(1) [OF assms] have "(48::nat) \<le> of_char (digit_char k)"
    "of_char (digit_char k) \<le> (57::nat)"
    by (simp_all add: is_digit_def)
  then show ?thesis by (auto simp: sql_is_space_def)
qed

lemma sql_datetime_strftime:
  assumes "valid_datetime t" and "1000 \<le> dt_year t"
  shows "sql_datetime (strftime_datetime t) = SqlDay (dt_year t) (dt_month t) (dt_day t)"
proof -
  note f = valid_datetime_fields [OF assms(1)]
  from f(1) have y0: "0 \<le> dt_year t" by simp
  define tm where "tm = pad2 (dt_hour t) @ CHR '':'' # pad2 (dt_minute t) @ CHR '':'' #
    pad2 (dt_second t)"
  define dm where "dm = pad2 (dt_month t) @ CHR ''-'' # pad2 (dt_day t) @ CHR '' '' # tm"
  define s where "s = strftime_datetime t"
  have s: "s = pad4 (dt_year t) @ CHR ''-'' # dm"
    by (simp add: s_def dm_def tm_def strftime_datetime_eq [OF assms(2)])
  have c1: "list_all is_digit (take 4 s)" "drop 4 (take 5 s) = ''-''"
    unfolding s by (rule pad4_digits [OF y0 f(2)])+
  have c2: "sql_ymd s = Some ((dt_year t, dt_month t, dt_day t), CHR '' '' # tm)"
    unfolding s dm_def by (rule sql_ymd_padded [OF y0 f(2-6)])
  have tm: "tm = digit_char (dt_hour t div 10) # tl tm"
    by (simp add: tm_def pad2_Cons)
  have c3: "dropWhile (\<lambda>c. sql_is_space c \<or> c = CHR ''T'') (CHR '' '' # tm) = tm"
    using digit_not_sql_sep [of "dt_hour t div 10"] f(7,8)
    by (subst (1 2) tm) (simp add: sql_is_space_def)
  have c4: "sql_hms tm = Some (Some (dt_hour t))"
    unfolding tm_def by (rule sql_hms_padded [OF f(7-12)])
  have c5: "tm \<noteq> []" by (subst tm) simp
  show ?thesis
    unfolding s_def [symmetric] sql_datetime_def
    by (simp del: dropWhile.simps add: c1 c2 c3 c4 c5 f(13,8))
qed

section \<open>A date that strptime accepts, as SQLite reads it\<close>

lemma sql_four_SomeD:
  assumes "sql_four s = Some (y, r)"
  shows "s = pad4 y @ r \<and> 0 \<le> y \<and> y \<le> 9999"
proof -
  from assms obtain a b c e where s: "s = a # b # c # e # r"
    and dig: "is_digit a" "is_digit b" "is_digit c" "is_digit e"
    and y: "y = 1000 * digit_val a + 100 * digit_val b + 10 * digit_val c + digit_val e"
    by (auto simp: sql_four_def split: list.splits if_splits)
  from dig [THEN digit_val_bounds] have "0 \<le> y \<and> y \<le> 9999" unfolding y by simp
  with dig show ?thesis unfolding s y by (simp add: pad4_digit_vals)
qed

lemma sql_two_SomeD:
  assumes "sql_two lo hi s = Some (v, r)"
  shows "s = pad2 v @ r \<and> lo \<le> v \<and> v \<le> hi"
  using assms by (auto simp: sql_two_def pad2_digit_vals split: list.splits if_splits)

lemma sql_char_SomeD: "sql_char c s = Some r \<Longrightarrow> s = c # r"
  by (auto simp: sql_char_def split: list.splits if_splits)

lemma sql_ymd_shape:
  assumes "sql_ymd s = Some ((y, m, d), r)"
  shows "s = pad4 y @ CHR ''-'' # pad2 m @ CHR ''-'' # pad2 d @ r"
    and "0 \<le> y" "y \<le> 9999" "1 \<le> m" "m \<le> 12" "1 \<le> d" "d \<le> 31"
  using assms
  by (auto simp: sql_ymd_def Option.bind_eq_Some_conv
      dest!: sql_four_SomeD sql_two_SomeD sql_char_SomeD)

lemma padded_date_no_space:
  assumes "0 \<le> y" "y \<le> 9999" "0 \<le> m" "m \<le> 99" "0 \<le> d" "d \<le> 99"
  shows "CHR '' '' \<notin> set (pad4 y @ CHR ''-'' # pad2 m @ CHR ''-'' # pad2 d)"
proof -
  have "CHR '' '' \<noteq> digit_char k" if "0 \<le> k" "k \<le> 9" for k
    using digit_char_props(3) [OF that] by (auto simp: is_space_def)
  moreover from assms have "0 \<le> y div 1000" "y div 1000 \<le> 9" "0 \<le> m div 10" "m div 10 \<le> 9"
    "0 \<le> d div 10" "d div 10 \<le> 9"
    by simp_all
  ultimately show ?thesis by (simp add: pad4_def pad2_def mod10_bounds)
qed

lemma append_stop:
  assumes "d @ c # t = P @ r" and "length d \<le> length P" and "c \<notin> set P"
  shows "d = P \<and> r = c # t"
proof -
  from assms(1) consider us where "d = P @ us" "us @ c # t = r"
    | us where "d @ us = P" "c # t = us @ r"
    by (auto simp: append_eq_append_conv2)
  then show ?thesis
  proof cases
    case 1
    with assms(2) show ?thesis by simp
  next
    case 2
    with assms(3) show ?thesis by (cases us) auto
  qed
qed

lemma sql_midnight:
  assumes "d \<le> days_in_month y m"
  shows "(let r' = dropWhile (\<lambda>c. sql_is_space c \<or> c = CHR ''T'') '' 00:00:00'' in
     if r' = [] then (if d \<le> days_in_month y m then SqlDay y m d else SqlOther)
     else (case sql_hms r' of None \<Rightarrow> SqlNull | Some None \<Rightarrow> SqlOther
           | Some (Some h) \<Rightarrow>
               if d \<le> days_in_month y m \<and> h \<le> 23 then SqlDay y m d else SqlOther)) =
     SqlDay y m d"
proof -
  have "dropWhile (\<lambda>c. sql_is_space c \<or> c = CHR ''T'') '' 00:00:00'' = ''00:00:00''"
    by (simp add: sql_is_space_def)
  moreover have "sql_hms ''00:00:00'' = Some (Some 0)"
    using sql_hms_padded [of 0 0 0] by (simp add: pad2_zero)
  ultimately show ?thesis using assms by simp
qed

lemma sql_datetime_midnight:
  assumes "strptime_date d = Inr x"
  shows "sql_datetime (d @ '' 00:00:00'') = SqlNull \<or>
    sql_datetime (d @ '' 00:00:00'') = SqlDay (dt_year x) (dt_month x) (dt_day x)"
proof (cases "sql_ymd (d @ '' 00:00:00'')")
  case None
  from assms have "re_date d \<noteq> []" by (auto simp: strptime_date_def)
  from re_date_shape [OF this] None show ?thesis
    by (auto simp: sql_datetime_def)
next
  case (Some res)
  obtain y m dd r where res: "res = ((y, m, dd), r)" by (cases res) auto
  note sh = sql_ymd_shape [OF Some [unfolded res]]
  define P where "P = pad4 y @ CHR ''-'' # pad2 m @ CHR ''-'' # pad2 dd"
  from assms obtain ymd where fm: "first_match re_date d = Some (ymd, [])"
    and mk: "mk_datetime ymd (0, 0, 0) = Inr x"
    by (auto simp: strptime_date_first split: option.splits if_splits)
  from fm have "(ymd, []) \<in> set (re_date d)" "re_date d \<noteq> []"
    by (auto simp: first_match_def split: list.splits)
  with boundedD [OF bounded_re_date] have len: "length d \<le> 10" by fastforce
  have P: "length P = 10" "CHR '' '' \<notin> set P"
    using padded_date_no_space [of y m dd] sh(2-7) by (simp_all add: P_def pad4_def pad2_def)
  from sh(1) have "d @ '' 00:00:00'' = P @ r" by (simp add: P_def)
  with len P have "d = P \<and> r = '' 00:00:00''"
    by (intro append_stop) simp_all
  then have d: "d = P" and r: "r = '' 00:00:00''" by simp_all
  from first_re_date [OF sh(2-7), of "[]"] fm have ymd: "ymd = (y, m, dd)"
    by (simp add: d P_def)
  note x = mk_datetime_Inr [OF mk [unfolded ymd]]
  from x(2) have "dd \<le> days_in_month y m" by (simp add: valid_date_def)
  from sql_midnight [OF this] re_date_shape [OF \<open>re_date d \<noteq> []\<close>] Some
  show ?thesis
    unfolding sql_datetime_def res r by (auto simp: x(1) dt_def simp del: dropWhile.simps)
qed

end
