(* ===== verification/Database.thy ===== *)
theory Database
  imports SqlDates
begin

text \<open>
  The persistence layer, \<open>src/database.py\<close>: the two tables of the SQLite schema as
  lists of rows in rowid order, the \<open>AUTOINCREMENT\<close> counters, one definition per
  method of class \<open>Database\<close> and the constraint checks of the schema (\<open>UNIQUE\<close> on
  \<open>habit.name\<close>, the foreign key of \<open>tracker.habit_name\<close> with its cascades) inside
  the statements that can violate them. Every method commits before it returns,
  so a method is one atomic step from a database value to the next. The lemmas
  show that every method keeps the schema's constraints, what each method returns
  on each of its branches, and that the two \<open>except\<close> branches around the
  \<open>INSERT\<close> statements can never be taken.
\<close>

section \<open>Tables\<close>

record habit_row =
  h_id :: int
  h_name :: string
  h_description :: string
  h_periodicity :: string
  h_date :: string

record tracker_row =
  t_id :: int
  t_check_of_date :: string
  t_habit_name :: string

record database =
  habit_rows :: "habit_row list"
  tracker_rows :: "tracker_row list"
  habit_seq :: int
  tracker_seq :: int

text \<open>\<open>CREATE TABLE IF NOT EXISTS\<close>: a file that already holds the tables keeps
  them; a new file, or \<open>:memory:\<close>, starts with both tables empty.\<close>

definition empty_db :: database where
  "empty_db = \<lparr>habit_rows = [], tracker_rows = [], habit_seq = 0, tracker_seq = 0\<rparr>"

definition create_tables :: "database option \<Rightarrow> database" where
  "create_tables stored = (case stored of None \<Rightarrow> empty_db | Some db \<Rightarrow> db)"

section \<open>Messages\<close>

datatype db_msg =
    ErrNameEmpty
  | ErrHabitExists string
  | HabitAdded string
  | ErrAddingHabit string
  | EventHabitNotFound string
  | EventAdded string string
  | ErrAddingEvent string
  | UpdateHabitNotFound string
  | HabitUpdated string
  | AllDataDeleted
  | ErrDeleting string

fun render_db_msg :: "db_msg \<Rightarrow> string" where
  "render_db_msg ErrNameEmpty = ''Error: Habit name cannot be empty or just whitespace.''"
| "render_db_msg (ErrHabitExists n) =
     ''Error: A habit with the name '' @ quoted n @ '' already exists.''"
| "render_db_msg (HabitAdded n) = ''Habit '' @ quoted n @ '' added successfully.''"
| "render_db_msg (ErrAddingHabit e) = ''Error adding habit: '' @ e"
| "render_db_msg (EventHabitNotFound n) =
     ''Habit '' @ quoted n @ '' not found. Cannot add event.''"
| "render_db_msg (EventAdded n d) =
     ''Event for habit '' @ quoted n @ '' added on '' @ d @ ''.''"
| "render_db_msg (ErrAddingEvent e) = ''Error adding event: '' @ e"
| "render_db_msg (UpdateHabitNotFound n) =
     ''Habit '' @ quoted n @ '' not found. Cannot update.''"
| "render_db_msg (HabitUpdated n) = ''Habit '' @ quoted n @ '' has been updated successfully.''"
| "render_db_msg AllDataDeleted = ''All data has been successfully deleted.''"
| "render_db_msg (ErrDeleting e) = ''An error occurred while deleting data: '' @ e"

section \<open>Queries\<close>

text \<open>\<open>cur.fetchone()\<close>: the first row of the result, or \<open>None\<close>.\<close>

definition fetchone :: "'a list \<Rightarrow> 'a option" where
  "fetchone xs = (case xs of [] \<Rightarrow> None | x # _ \<Rightarrow> Some x)"

text \<open>\<open>WHERE LOWER(name) = LOWER(?)\<close> and \<open>WHERE name = ?\<close> on table \<open>habit\<close>,
  \<open>WHERE habit_name = ?\<close> on table \<open>tracker\<close>.\<close>

definition habits_ci :: "database \<Rightarrow> string \<Rightarrow> habit_row list" where
  "habits_ci db n = filter (\<lambda>r. sql_lower (h_name r) = sql_lower n) (habit_rows db)"

definition habits_named :: "database \<Rightarrow> string \<Rightarrow> habit_row list" where
  "habits_named db n = filter (\<lambda>r. h_name r = n) (habit_rows db)"

definition events_of :: "database \<Rightarrow> string \<Rightarrow> tracker_row list" where
  "events_of db n = filter (\<lambda>t. t_habit_name t = n) (tracker_rows db)"

section \<open>Statements that a constraint can reject\<close>

text \<open>\<open>INSERT INTO habit\<close>: \<open>name\<close> is \<open>UNIQUE\<close>; the id is the next value of
  the \<open>AUTOINCREMENT\<close> sequence.\<close>

definition insert_habit ::
  "database \<Rightarrow> string \<Rightarrow> string \<Rightarrow> string \<Rightarrow> string \<Rightarrow> string + database" where
  "insert_habit db n descr per date =
     (if habits_named db n \<noteq> [] then Inl ''UNIQUE constraint failed: habit.name''
      else Inr (db\<lparr>habit_rows := habit_rows db @
                     [\<lparr>h_id = habit_seq db + 1, h_name = n, h_description = descr,
                       h_periodicity = per, h_date = date\<rparr>],
                   habit_seq := habit_seq db + 1\<rparr>))"

text \<open>\<open>INSERT INTO tracker\<close>: \<open>habit_name\<close> references \<open>habit (name)\<close>.\<close>

definition insert_tracker :: "database \<Rightarrow> string \<Rightarrow> string \<Rightarrow> string + database" where
  "insert_tracker db n date =
     (if habits_named db n = [] then Inl ''FOREIGN KEY constraint failed''
      else Inr (db\<lparr>tracker_rows := tracker_rows db @
                     [\<lparr>t_id = tracker_seq db + 1, t_check_of_date = date, t_habit_name = n\<rparr>],
                   tracker_seq := tracker_seq db + 1\<rparr>))"

text \<open>\<open>UPDATE habit SET name = ? WHERE name = ?\<close>: rejected when another row has
  the new name; \<open>ON UPDATE CASCADE\<close> renames the events of the habit.\<close>

definition rename_habit :: "database \<Rightarrow> string \<Rightarrow> string \<Rightarrow> py_error + database" where
  "rename_habit db new old =
     (if habits_named db old \<noteq> [] \<and> new \<noteq> old \<and> habits_named db new \<noteq> []
      then Inl IntegrityError
      else Inr (db\<lparr>habit_rows :=
                     map (\<lambda>r. if h_name r = old then r\<lparr>h_name := new\<rparr> else r) (habit_rows db),
                   tracker_rows :=
                     map (\<lambda>t. if t_habit_name t = old then t\<lparr>t_habit_name := new\<rparr> else t)
                       (tracker_rows db)\<rparr>))"

section \<open>The methods of class Database\<close>

definition add_habit ::
  "database \<Rightarrow> string \<Rightarrow> string \<Rightarrow> string \<Rightarrow> string \<Rightarrow> db_msg \<times> database" where
  "add_habit db name description periodicity date =
     (let n = lower (strip name) in
      if n = [] then (ErrNameEmpty, db)
      else
        let descr = (if strip description = [] then ''No description'' else description) in
        if 0 < length (habits_ci db n) then (ErrHabitExists n, db)
        else (case insert_habit db n descr periodicity date of
                Inl e \<Rightarrow> (ErrAddingHabit e, db)
              | Inr db' \<Rightarrow> (HabitAdded n, db')))"

definition increment_tracker ::
  "datetime \<Rightarrow> database \<Rightarrow> string \<Rightarrow> string option \<Rightarrow> db_msg \<times> database" where
  "increment_tracker now db habit_name event_date =
     (let date = (case event_date of None \<Rightarrow> strftime_datetime now
                  | Some d \<Rightarrow> if d = [] then strftime_datetime now else d) in
      case fetchone (map h_name (habits_ci db habit_name)) of
        None \<Rightarrow> (EventHabitNotFound habit_name, db)
      | Some matched \<Rightarrow>
          (case insert_tracker db matched date of
             Inl e \<Rightarrow> (ErrAddingEvent e, db)
           | Inr db' \<Rightarrow> (EventAdded matched date, db')))"

definition get_habit_data :: "database \<Rightarrow> string \<Rightarrow> tracker_row list" where
  "get_habit_data db habit_name = events_of db habit_name"

definition delete_habit_data :: "database \<Rightarrow> string \<Rightarrow> database" where
  "delete_habit_data db habit_name =
     db\<lparr>tracker_rows := filter (\<lambda>t. t_habit_name t \<noteq> habit_name) (tracker_rows db),
        habit_rows := filter (\<lambda>r. h_name r \<noteq> habit_name) (habit_rows db)\<rparr>"

definition proof_habit :: "database \<Rightarrow> string \<Rightarrow> bool" where
  "proof_habit db habit_name \<longleftrightarrow> 0 < length (habits_ci db habit_name)"

definition set_description :: "database \<Rightarrow> string \<Rightarrow> string \<Rightarrow> database" where
  "set_description db d n =
     db\<lparr>habit_rows := map (\<lambda>r. if h_name r = n then r\<lparr>h_description := d\<rparr> else r)
                         (habit_rows db)\<rparr>"

definition set_periodicity :: "database \<Rightarrow> string \<Rightarrow> string \<Rightarrow> database" where
  "set_periodicity db p n =
     db\<lparr>habit_rows := map (\<lambda>r. if h_name r = n then r\<lparr>h_periodicity := p\<rparr> else r)
                         (habit_rows db)\<rparr>"

definition update_habit ::
  "database \<Rightarrow> string \<Rightarrow> string option \<Rightarrow> string option \<Rightarrow> string option
     \<Rightarrow> (db_msg \<times> database) result" where
  "update_habit db old_name new_name new_description new_periodicity =
     (case fetchone (map h_name (habits_ci db old_name)) of
        None \<Rightarrow> Inr (UpdateHabitNotFound old_name, db)
      | Some existing \<Rightarrow>
          rbind (if truthy new_name
                 then rbind (rename_habit db (the new_name) existing)
                        (\<lambda>db'. Inr (the new_name, db'))
                 else Inr (existing, db))
            (\<lambda>(exact_name, db1).
               let db2 = (if truthy new_description
                          then set_description db1 (the new_description) exact_name else db1);
                   db3 = (if truthy new_periodicity
                          then set_periodicity db2 (the new_periodicity) exact_name else db2)
               in Inr (HabitUpdated exact_name, db3)))"

definition delete_tracker_data :: "database \<Rightarrow> string \<Rightarrow> database" where
  "delete_tracker_data db habit_name =
     db\<lparr>tracker_rows := filter (\<lambda>t. t_habit_name t \<noteq> habit_name) (tracker_rows db)\<rparr>"

definition get_current_habits :: "database \<Rightarrow> habit_row list" where
  "get_current_habits db = habit_rows db"

definition delete_db :: "database \<Rightarrow> db_msg \<times> database" where
  "delete_db db = (AllDataDeleted, db\<lparr>tracker_rows := [], habit_rows := []\<rparr>)"

definition get_habit_periodicity :: "database \<Rightarrow> string \<Rightarrow> string option" where
  "get_habit_periodicity db habit_name =
     fetchone (map h_periodicity (habits_ci db habit_name))"

text \<open>\<open>check_event_exists\<close>: a new cursor on which no statement was executed returns
  \<open>None\<close> from \<open>fetchone\<close>, so a periodicity that is neither \<open>daily\<close> nor
  \<open>weekly\<close> ends in \<open>TypeError\<close>.\<close>

definition check_event_exists :: "database \<Rightarrow> string \<Rightarrow> string \<Rightarrow> string \<Rightarrow> bool result" where
  "check_event_exists db habit_name event_date periodicity =
     (let times = map (\<lambda>t. sql_datetime (t_check_of_date t)) (events_of db habit_name);
          event = sql_datetime event_date
      in if periodicity = ''daily'' then
           (if SqlOther \<in> set (event # times) then Inl NotModelled
            else Inr (0 < length (filter (\<lambda>t. sql_eq (sql_DATE t) (sql_DATE event)) times)))
         else if periodicity = ''weekly'' then
           (if SqlOther \<in> set (event # times) then Inl NotModelled
            else Inr (0 < length
                   (filter (\<lambda>t. sql_eq (sql_year_week t) (sql_year_week event)) times)))
         else Inl TypeError)"

section \<open>The constraints of the schema\<close>

text \<open>Primary keys are distinct and were issued by the sequence; names are
  \<open>UNIQUE\<close>; every event references an existing habit by its exact name.\<close>

definition ids_ok :: "int list \<Rightarrow> int \<Rightarrow> bool" where
  "ids_ok ids seq \<longleftrightarrow> 0 \<le> seq \<and> distinct ids \<and> (\<forall>i \<in> set ids. 1 \<le> i \<and> i \<le> seq)"

definition unique_names :: "database \<Rightarrow> bool" where
  "unique_names db \<longleftrightarrow> distinct (map h_name (habit_rows db))"

definition fk_ok :: "database \<Rightarrow> bool" where
  "fk_ok db \<longleftrightarrow> (\<forall>t \<in> set (tracker_rows db). t_habit_name t \<in> h_name ` set (habit_rows db))"

definition db_ok :: "database \<Rightarrow> bool" where
  "db_ok db \<longleftrightarrow>
     ids_ok (map h_id (habit_rows db)) (habit_seq db) \<and>
     ids_ok (map t_id (tracker_rows db)) (tracker_seq db) \<and>
     unique_names db \<and> fk_ok db"

text \<open>What the application adds on top of the schema: no two habits whose names
  differ only in case, and every name trimmed, lower-case and not empty.\<close>

definition names_ci_unique :: "database \<Rightarrow> bool" where
  "names_ci_unique db \<longleftrightarrow> distinct (map (\<lambda>r. sql_lower (h_name r)) (habit_rows db))"

definition names_normalised :: "database \<Rightarrow> bool" where
  "names_normalised db \<longleftrightarrow>
     (\<forall>r \<in> set (habit_rows db). h_name r \<noteq> [] \<and> lower (strip (h_name r)) = h_name r)"

text \<open>The row that \<open>add_habit\<close> inserts and the date that \<open>increment_tracker\<close>
  stores, named for the statements below.\<close>

definition new_habit_row :: "database \<Rightarrow> string \<Rightarrow> string \<Rightarrow> string \<Rightarrow> string \<Rightarrow> habit_row" where
  "new_habit_row db n d p t =
     \<lparr>h_id = habit_seq db + 1, h_name = n,
      h_description = (if strip d = [] then ''No description'' else d),
      h_periodicity = p, h_date = t\<rparr>"

definition event_date_or_now :: "datetime \<Rightarrow> string option \<Rightarrow> string" where
  "event_date_or_now now event_date =
     (case event_date of None \<Rightarrow> strftime_datetime now
      | Some d \<Rightarrow> if d = [] then strftime_datetime now else d)"

section \<open>A small database\<close>

text \<open>Two habits and five check-offs entered through the methods above, for the
  concrete instances of the properties.\<close>

definition demo_now :: datetime where
  "demo_now = \<lparr>dt_year = 2024, dt_month = 12, dt_day = 9,
                 dt_hour = 8, dt_minute = 30, dt_second = 0\<rparr>"

definition demo_db :: database where
  "demo_db =
     (let db1 = snd (add_habit empty_db ''  Workout '' '''' ''daily'' ''2024-12-01 00:00:00'');
          db2 = snd (add_habit db1 ''Car Wash'' ''wash it'' ''weekly'' ''2024-12-01 00:00:00'');
          db3 = snd (increment_tracker demo_now db2 ''workout'' (Some ''2024-12-01 07:00:00''));
          db4 = snd (increment_tracker demo_now db3 ''Workout'' (Some ''2024-12-02 07:00:00''));
          db5 = snd (increment_tracker demo_now db4 ''workout'' (Some ''2024-12-04 07:00:00''));
          db6 = snd (increment_tracker demo_now db5 ''car wash'' (Some ''2024-12-02 09:00:00''))
      in snd (increment_tracker demo_now db6 ''car wash'' None))"

definition demo_odd_db :: database where
  "demo_odd_db =
     (let db1 = snd (add_habit demo_db ''Read'' ''a chapter'' ''monthly'' ''2024-12-01 00:00:00'');
          db2 = snd (increment_tracker demo_now db1 ''read'' (Some ''2024-12-01 21:00:00''));
          db3 = snd (increment_tracker demo_now db2 ''read'' (Some ''2024-12-02 21:00:00''));
          db4 = snd (add_habit db3 ''Nap'' [] ''daily'' ''2024-12-01 00:00:00'');
          db5 = snd (increment_tracker demo_now db4 ''nap'' (Some ''2024-12-05 13:00:00''))
      in snd (increment_tracker demo_now db5 ''nap'' (Some ''noon'')))"

definition demo_row :: habit_row where
  "demo_row = \<lparr>h_id = 1, h_name = ''workout'', h_description = ''No description'',
     h_periodicity = ''daily'', h_date = ''2024-12-01 00:00:00''\<rparr>"

lemmas db_ok_defs [inv_defs] = db_ok_def ids_ok_def unique_names_def fk_ok_def

lemmas query_defs [row_simps] = habits_ci_def habits_named_def events_of_def fetchone_def

subsection \<open>Queries\<close>

lemma fetchone_Nil [simp]: "fetchone [] = None"
  by (simp add: fetchone_def)

lemma fetchone_Cons [simp]: "fetchone (x # xs) = Some x"
  by (simp add: fetchone_def)

lemma fetchone_eq_None_iff [simp]: "fetchone xs = None \<longleftrightarrow> xs = []"
  by (cases xs) simp_all

lemma fetchone_SomeD: "fetchone xs = Some x \<Longrightarrow> x \<in> set xs"
  by (cases xs) auto

lemma fetchone_map: "fetchone (map f xs) = map_option f (fetchone xs)"
  by (cases xs) simp_all

lemma habits_named_subset_ci: "set (habits_named db n) \<subseteq> set (habits_ci db n)"
  by (auto simp: row_simps)

lemma habits_named_eq_Nil_iff: "habits_named db n = [] \<longleftrightarrow> n \<notin> h_name ` set (habit_rows db)"
  by (auto simp: habits_named_def filter_empty_conv)

lemma habits_ci_eq_Nil_iff:
  "habits_ci db n = [] \<longleftrightarrow> sql_lower n \<notin> (\<lambda>r. sql_lower (h_name r)) ` set (habit_rows db)"
  by (force simp: habits_ci_def filter_empty_conv)

lemma habits_ci_Nil_named_Nil: "habits_ci db n = [] \<Longrightarrow> habits_named db n = []"
  using habits_named_subset_ci [of db n] by auto

lemma proof_habit_iff: "proof_habit db n \<longleftrightarrow> habits_ci db n \<noteq> []"
  by (simp add: proof_habit_def)

lemma proof_habit_stored: "r \<in> set (habit_rows db) \<Longrightarrow> proof_habit db (h_name r)"
  by (auto simp: proof_habit_iff habits_ci_eq_Nil_iff)

lemma unique_names_named:
  assumes "unique_names db" and "r \<in> set (habit_rows db)"
  shows "habits_named db (h_name r) = [r]"
  using filter_key_unique [of h_name "habit_rows db" r] assms
  by (simp add: unique_names_def habits_named_def)

lemma names_ci_unique_ci:
  assumes "names_ci_unique db" and "r \<in> set (habit_rows db)"
    and "sql_lower n = sql_lower (h_name r)"
  shows "habits_ci db n = [r]"
  using filter_key_unique [of "\<lambda>r. sql_lower (h_name r)" "habit_rows db" r] assms
  by (simp add: names_ci_unique_def habits_ci_def)

lemma names_ci_unique_imp_unique: "names_ci_unique db \<Longrightarrow> unique_names db"
  unfolding names_ci_unique_def unique_names_def
  using distinct_map [of "sql_lower" "map h_name (habit_rows db)"]
  by (simp add: comp_def)

subsection \<open>Statements keep the constraints\<close>

lemma ids_ok_snoc:
  assumes "ids_ok ids seq"
  shows "ids_ok (ids @ [seq + 1]) (seq + 1)"
proof -
  have "seq + 1 \<notin> set ids"
  proof
    assume "seq + 1 \<in> set ids"
    with assms have "seq + 1 \<le> seq" by (auto simp: ids_ok_def)
    then show False by simp
  qed
  with assms show ?thesis by (auto simp: ids_ok_def)
qed

lemma rename_keeps_h_id:
  "map h_id (map (\<lambda>r. if h_name r = old then r\<lparr>h_name := new\<rparr> else r) rows) = map h_id rows"
  by (induction rows) auto

lemma rename_keeps_t_id:
  "map t_id (map (\<lambda>t. if t_habit_name t = old then t\<lparr>t_habit_name := new\<rparr> else t) evs)
     = map t_id evs"
  by (induction evs) auto

lemma insert_habit_Inr_iff:
  "insert_habit db n d p t = Inr db' \<longleftrightarrow>
     habits_named db n = [] \<and>
     db' = db\<lparr>habit_rows := habit_rows db @
                 [\<lparr>h_id = habit_seq db + 1, h_name = n, h_description = d,
                   h_periodicity = p, h_date = t\<rparr>],
               habit_seq := habit_seq db + 1\<rparr>"
  by (auto simp: insert_habit_def)

lemma insert_tracker_Inr_iff:
  "insert_tracker db n t = Inr db' \<longleftrightarrow>
     habits_named db n \<noteq> [] \<and>
     db' = db\<lparr>tracker_rows := tracker_rows db @
                 [\<lparr>t_id = tracker_seq db + 1, t_check_of_date = t, t_habit_name = n\<rparr>],
               tracker_seq := tracker_seq db + 1\<rparr>"
  by (auto simp: insert_tracker_def)

lemma insert_habit_ok:
  assumes "db_ok db" and "insert_habit db n d p t = Inr db'"
  shows "db_ok db'"
  using assms ids_ok_snoc [of "map h_id (habit_rows db)" "habit_seq db"]
  by (auto simp: insert_habit_Inr_iff habits_named_eq_Nil_iff db_ok_def unique_names_def fk_ok_def)

lemma insert_tracker_ok:
  assumes "db_ok db" and "insert_tracker db n t = Inr db'"
  shows "db_ok db'"
  using assms ids_ok_snoc [of "map t_id (tracker_rows db)" "tracker_seq db"]
  by (auto simp: insert_tracker_Inr_iff habits_named_eq_Nil_iff db_ok_def unique_names_def fk_ok_def)

lemma rename_habit_Inr_iff:
  "rename_habit db new old = Inr db' \<longleftrightarrow>
     (habits_named db old = [] \<or> new = old \<or> habits_named db new = []) \<and>
     db' = db\<lparr>habit_rows :=
                 map (\<lambda>r. if h_name r = old then r\<lparr>h_name := new\<rparr> else r) (habit_rows db),
               tracker_rows :=
                 map (\<lambda>t. if t_habit_name t = old then t\<lparr>t_habit_name := new\<rparr> else t)
                   (tracker_rows db)\<rparr>"
  by (auto simp: rename_habit_def)

lemma rename_rows_id:
  assumes "old \<notin> h_name ` set rows \<or> new = old"
  shows "map (\<lambda>r. if h_name r = old then r\<lparr>h_name := new\<rparr> else r) rows = rows"
  using assms by (induction rows) auto

lemma rename_habit_ok:
  assumes ok: "db_ok db" and ren: "rename_habit db new old = Inr db'"
  shows "db_ok db'"
proof -
  let ?g = "\<lambda>r. if h_name r = old then r\<lparr>h_name := new\<rparr> else r"
  let ?h = "\<lambda>t. if t_habit_name t = old then t\<lparr>t_habit_name := new\<rparr> else t"
  from ren have db': "habit_rows db' = map ?g (habit_rows db)"
    "tracker_rows db' = map ?h (tracker_rows db)"
    "habit_seq db' = habit_seq db" "tracker_seq db' = tracker_seq db"
    and cond: "old \<notin> h_name ` set (habit_rows db) \<or> new = old
      \<or> new \<notin> h_name ` set (habit_rows db)"
    by (auto simp: rename_habit_Inr_iff habits_named_eq_Nil_iff)
  note ids = rename_keeps_h_id [of old new] rename_keeps_t_id [of old new]
  have names: "\<And>r. h_name (?g r) = (if h_name r = old then new else h_name r)"
    by simp
  have uniq: "distinct (map h_name (map ?g (habit_rows db)))"
  proof (cases "old \<notin> h_name ` set (habit_rows db) \<or> new = old")
    case True
    then show ?thesis using ok by (simp add: rename_rows_id db_ok_def unique_names_def)
  next
    case False
    with cond have "new \<notin> h_name ` set (habit_rows db)" by blast
    with ok show ?thesis
      by (intro distinct_map_update_key [where old = old and new = new])
        (simp_all add: db_ok_def unique_names_def)
  qed
  have fk: "\<forall>t \<in> set (map ?h (tracker_rows db)).
      t_habit_name t \<in> h_name ` set (map ?g (habit_rows db))"
  proof
    fix t assume "t \<in> set (map ?h (tracker_rows db))"
    then obtain u where u: "u \<in> set (tracker_rows db)" "t = ?h u" by auto
    with ok obtain r where r: "r \<in> set (habit_rows db)" "h_name r = t_habit_name u"
      by (auto simp: db_ok_def fk_ok_def)
    then have "h_name (?g r) = t_habit_name t" using u(2) by simp
    with r(1) show "t_habit_name t \<in> h_name ` set (map ?g (habit_rows db))"
      by (metis (no_types, lifting) image_eqI image_set)
  qed
  from ok show ?thesis
    unfolding db_ok_def unique_names_def fk_ok_def db' ids
    using uniq fk by simp
qed

lemma filter_rows_ok:
  assumes ok: "db_ok db"
    and keep: "\<And>t. t \<in> set (tracker_rows db) \<Longrightarrow> P t \<Longrightarrow>
           \<exists>r \<in> set (habit_rows db). Q r \<and> t_habit_name t = h_name r"
  shows "db_ok (db\<lparr>tracker_rows := filter P (tracker_rows db),
                   habit_rows := filter Q (habit_rows db)\<rparr>)"
proof -
  have "\<forall>t \<in> set (filter P (tracker_rows db)).
      t_habit_name t \<in> h_name ` set (filter Q (habit_rows db))"
    using keep by fastforce
  with ok show ?thesis
    by (simp add: db_ok_def ids_ok_def unique_names_def fk_ok_def distinct_map_filter)
qed

subsection \<open>add\_habit\<close>


lemma add_habit_eq:
  "add_habit db name d p t =
     (let n = lower (strip name) in
      if n = [] then (ErrNameEmpty, db)
      else if proof_habit db n then (ErrHabitExists n, db)
      else (HabitAdded n, db\<lparr>habit_rows := habit_rows db @ [new_habit_row db n d p t],
                               habit_seq := habit_seq db + 1\<rparr>))"
  by (auto simp: add_habit_def Let_def proof_habit_def insert_habit_def new_habit_row_def
      dest: habits_ci_Nil_named_Nil)

lemma add_habit_cases [consumes 1, case_names blank exists added]:
  assumes "add_habit db name d p t = (msg, db')"
  obtains "lower (strip name) = []" "msg = ErrNameEmpty" "db' = db"
  | "lower (strip name) \<noteq> []" "proof_habit db (lower (strip name))"
    "msg = ErrHabitExists (lower (strip name))" "db' = db"
  | "lower (strip name) \<noteq> []" "\<not> proof_habit db (lower (strip name))"
    "msg = HabitAdded (lower (strip name))"
    "db' = db\<lparr>habit_rows := habit_rows db @ [new_habit_row db (lower (strip name)) d p t],
               habit_seq := habit_seq db + 1\<rparr>"
  using assms unfolding add_habit_eq Let_def by (auto split: if_splits)

lemma add_habit_ok:
  assumes "db_ok db"
  shows "db_ok (snd (add_habit db name d p t))"
proof (cases "add_habit db name d p t")
  case (Pair msg db')
  then show ?thesis
  proof (cases rule: add_habit_cases)
    case added
    let ?n = "lower (strip name)"
    from added(2) have "?n \<notin> h_name ` set (habit_rows db)"
      by (auto simp: proof_habit_iff habits_ci_eq_Nil_iff)
    with assms ids_ok_snoc [of "map h_id (habit_rows db)" "habit_seq db"] added(4) Pair
    show ?thesis
      by (auto simp: db_ok_def unique_names_def fk_ok_def new_habit_row_def)
  qed (use assms Pair in simp_all)
qed

lemma add_habit_keeps_ci_unique:
  assumes "names_ci_unique db"
  shows "names_ci_unique (snd (add_habit db name d p t))"
proof (cases "add_habit db name d p t")
  case (Pair msg db')
  then show ?thesis
  proof (cases rule: add_habit_cases)
    case added
    from added(2) have
      "sql_lower (lower (strip name)) \<notin> (\<lambda>r. sql_lower (h_name r)) ` set (habit_rows db)"
      by (simp add: proof_habit_iff habits_ci_eq_Nil_iff)
    with assms added(4) Pair show ?thesis
      by (auto simp: names_ci_unique_def new_habit_row_def)
  qed (use assms Pair in simp_all)
qed

lemma add_habit_keeps_normalised:
  assumes "names_normalised db"
  shows "names_normalised (snd (add_habit db name d p t))"
proof (cases "add_habit db name d p t")
  case (Pair msg db')
  then show ?thesis
  proof (cases rule: add_habit_cases)
    case added
    have "lower (strip (lower (strip name))) = lower (strip name)"
      by (simp add: strip_lower)
    with assms added(1,4) Pair show ?thesis
      by (auto simp: names_normalised_def new_habit_row_def)
  qed (use assms Pair in simp_all)
qed

subsection \<open>increment\_tracker\<close>


lemma increment_tracker_eq:
  "increment_tracker now db n e =
     (case fetchone (habits_ci db n) of
        None \<Rightarrow> (EventHabitNotFound n, db)
      | Some r \<Rightarrow>
          (EventAdded (h_name r) (event_date_or_now now e),
           db\<lparr>tracker_rows := tracker_rows db @
                 [\<lparr>t_id = tracker_seq db + 1, t_check_of_date = event_date_or_now now e,
                   t_habit_name = h_name r\<rparr>],
               tracker_seq := tracker_seq db + 1\<rparr>))"
proof (cases "habits_ci db n")
  case Nil
  then show ?thesis by (simp add: increment_tracker_def)
next
  case (Cons r rs)
  then have "r \<in> set (habit_rows db)"
    using set_filter [of "\<lambda>r. sql_lower (h_name r) = sql_lower n" "habit_rows db"]
    by (auto simp: habits_ci_def)
  then have "habits_named db (h_name r) \<noteq> []"
    by (auto simp: habits_named_eq_Nil_iff)
  with Cons show ?thesis
    by (simp add: increment_tracker_def insert_tracker_def event_date_or_now_def Let_def)
qed

lemma increment_tracker_ok:
  assumes "db_ok db"
  shows "db_ok (snd (increment_tracker now db n e))"
proof (cases "fetchone (habits_ci db n)")
  case None
  with assms show ?thesis by (simp add: increment_tracker_eq)
next
  case (Some r)
  then have "r \<in> set (habit_rows db)"
    by (auto dest!: fetchone_SomeD simp: habits_ci_def)
  with assms Some ids_ok_snoc [of "map t_id (tracker_rows db)" "tracker_seq db"]
  show ?thesis
    by (auto simp: increment_tracker_eq db_ok_def unique_names_def fk_ok_def)
qed

subsection \<open>Deleting\<close>

lemma delete_habit_data_ok:
  assumes "db_ok db"
  shows "db_ok (delete_habit_data db n)"
  unfolding delete_habit_data_def
  using assms by (intro filter_rows_ok) (auto simp: db_ok_def fk_ok_def)

lemma delete_tracker_data_ok:
  assumes "db_ok db"
  shows "db_ok (delete_tracker_data db n)"
proof -
  have "delete_tracker_data db n =
      db\<lparr>tracker_rows := filter (\<lambda>t. t_habit_name t \<noteq> n) (tracker_rows db),
         habit_rows := filter (\<lambda>r. True) (habit_rows db)\<rparr>"
    by (simp add: delete_tracker_data_def)
  also have "db_ok \<dots>"
    using assms by (intro filter_rows_ok) (auto simp: db_ok_def fk_ok_def)
  finally show ?thesis .
qed

lemma delete_db_ok:
  assumes "db_ok db"
  shows "db_ok (snd (delete_db db))"
  using assms by (simp add: delete_db_def db_ok_def ids_ok_def unique_names_def fk_ok_def)

lemma delete_habit_data_gone:
  "habits_named (delete_habit_data db n) n = []" "events_of (delete_habit_data db n) n = []"
  by (simp_all add: delete_habit_data_def habits_named_def events_of_def filter_empty_conv)

lemma delete_habit_data_others:
  assumes "m \<noteq> n"
  shows "habits_named (delete_habit_data db n) m = habits_named db m"
    and "events_of (delete_habit_data db n) m = events_of db m"
  using assms
  by (auto simp: delete_habit_data_def habits_named_def events_of_def intro: filter_cong)

subsection \<open>update\_habit\<close>

lemma update_rows_ok:
  assumes "db_ok db" and "\<And>r. h_id (g r) = h_id r" and "\<And>r. h_name (g r) = h_name r"
  shows "db_ok (db\<lparr>habit_rows := map g (habit_rows db)\<rparr>)"
  using assms(1)
  by (simp add: db_ok_def unique_names_def fk_ok_def o_def image_image assms(2,3))

lemma set_description_ok: "db_ok db \<Longrightarrow> db_ok (set_description db d n)"
  unfolding set_description_def by (rule update_rows_ok) simp_all

lemma set_periodicity_ok: "db_ok db \<Longrightarrow> db_ok (set_periodicity db p n)"
  unfolding set_periodicity_def by (rule update_rows_ok) simp_all

lemma update_habit_ok:
  assumes "db_ok db" and "update_habit db old nn nd np = Inr (msg, db')"
  shows "db_ok db'"
proof (cases "fetchone (map h_name (habits_ci db old))")
  case None
  with assms show ?thesis by (simp add: update_habit_def)
next
  case (Some existing)
  from assms(2) Some obtain exact db1 where
    step1: "(if truthy nn then rbind (rename_habit db (the nn) existing)
                (\<lambda>db'. Inr (the nn, db')) else Inr (existing, db)) = Inr (exact, db1)"
    and rest: "db' = (let db2 = (if truthy nd then set_description db1 (the nd) exact else db1)
        in if truthy np then set_periodicity db2 (the np) exact else db2)"
    by (auto simp: update_habit_def rbind_eq_Inr_iff Let_def)
  from step1 assms(1) have "db_ok db1"
    by (auto simp: rbind_eq_Inr_iff split: if_splits intro: rename_habit_ok)
  then show ?thesis
    unfolding rest Let_def by (simp add: set_description_ok set_periodicity_ok)
qed

subsection \<open>check\_event\_exists\<close>

lemma check_event_exists_cases:
  "check_event_exists db n d p = Inl e \<Longrightarrow> e = NotModelled \<or> e = TypeError"
  by (auto simp: check_event_exists_def Let_def split: if_splits)

lemma check_event_exists_unknown:
  "p \<noteq> ''daily'' \<Longrightarrow> p \<noteq> ''weekly'' \<Longrightarrow> check_event_exists db n d p = Inl TypeError"
  by (simp add: check_event_exists_def Let_def)

lemma check_event_exists_daily:
  assumes "sql_datetime d = SqlDay y m dd"
    and "\<forall>t \<in> set (events_of db n). sql_datetime (t_check_of_date t) \<noteq> SqlOther"
  shows "check_event_exists db n d ''daily'' =
    Inr (\<exists>t \<in> set (events_of db n). sql_datetime (t_check_of_date t) = SqlDay y m dd)"
  using assms(2)
  by (auto simp: check_event_exists_def Let_def assms(1) length_filter_pos_iff sql_eq_DATE filter_empty_conv)

lemma check_event_exists_weekly:
  assumes "sql_datetime d = SqlDay y m dd"
    and "\<forall>t \<in> set (events_of db n). sql_datetime (t_check_of_date t) \<noteq> SqlOther"
  shows "check_event_exists db n d ''weekly'' =
    Inr (\<exists>t \<in> set (events_of db n).
           sql_year_week (sql_datetime (t_check_of_date t)) = Some (y, sql_week_of_year y m dd))"
  using assms(2)
  by (auto simp: check_event_exists_def Let_def assms(1) length_filter_pos_iff sql_eq_year_week filter_empty_conv)

lemma check_event_exists_null:
  assumes "sql_datetime d = SqlNull" and "p = ''daily'' \<or> p = ''weekly''"
    and "\<forall>t \<in> set (events_of db n). sql_datetime (t_check_of_date t) \<noteq> SqlOther"
  shows "check_event_exists db n d p = Inr False"
  using assms(2,3)
  by (auto simp: check_event_exists_def Let_def assms(1) length_filter_pos_iff)


section \<open>Properties of the persistence layer\<close>

lemma demo_db_eq [code]:
  "demo_db =
     \<lparr>habit_rows =
        [\<lparr>h_id = 1, h_name = ''workout'', h_description = ''No description'',
          h_periodicity = ''daily'', h_date = ''2024-12-01 00:00:00''\<rparr>,
         \<lparr>h_id = 2, h_name = ''car wash'', h_description = ''wash it'',
          h_periodicity = ''weekly'', h_date = ''2024-12-01 00:00:00''\<rparr>],
      tracker_rows =
        [\<lparr>t_id = 1, t_check_of_date = ''2024-12-01 07:00:00'', t_habit_name = ''workout''\<rparr>,
         \<lparr>t_id = 2, t_check_of_date = ''2024-12-02 07:00:00'', t_habit_name = ''workout''\<rparr>,
         \<lparr>t_id = 3, t_check_of_date = ''2024-12-04 07:00:00'', t_habit_name = ''workout''\<rparr>,
         \<lparr>t_id = 4, t_check_of_date = ''2024-12-02 09:00:00'', t_habit_name = ''car wash''\<rparr>,
         \<lparr>t_id = 5, t_check_of_date = ''2024-12-09 08:30:00'', t_habit_name = ''car wash''\<rparr>],
      habit_seq = 2, tracker_seq = 5\<rparr>"
  by code_simp

lemma update_habit_Inr_ok:
  assumes "db_ok db"
  shows "case update_habit db old nn nd np of Inl e \<Rightarrow> e = IntegrityError
           | Inr (msg, db') \<Rightarrow> db_ok db'"
proof (cases "update_habit db old nn nd np")
  case (Inl e)
  then show ?thesis
    by (auto simp: update_habit_def rbind_eq_Inl_iff rename_habit_def Let_def
        split: option.splits if_splits prod.splits)
next
  case (Inr res)
  with assms update_habit_ok [of db old nn nd np "fst res" "snd res"] show ?thesis
    by (simp add: case_prod_beta)
qed

text \<open>C2. Every method of class \<open>Database\<close> that writes keeps the constraints of the
  schema: from a database with distinct primary keys issued by the sequences, unique
  names and no dangling event, \<open>add_habit\<close>, \<open>increment_tracker\<close>,
  \<open>delete_habit_data\<close>, \<open>delete_tracker_data\<close> and \<open>delete_db\<close> lead to such a
  database, and \<open>update_habit\<close> either does so or raises \<open>IntegrityError\<close> and
  nothing else.\<close>

theorem database_methods_keep_db_ok:
  assumes "db_ok db"
  shows "db_ok (snd (add_habit db name d p t)) \<and>
         db_ok (snd (increment_tracker now db n e)) \<and>
         db_ok (delete_habit_data db n) \<and>
         db_ok (delete_tracker_data db n) \<and>
         db_ok (snd (delete_db db)) \<and>
         (case update_habit db n nn nd np of Inl err \<Rightarrow> err = IntegrityError
          | Inr (msg, db') \<Rightarrow> db_ok db')"
  using assms
  by (intro conjI add_habit_ok increment_tracker_ok delete_habit_data_ok
      delete_tracker_data_ok delete_db_ok update_habit_Inr_ok)

theorem database_methods_keep_db_ok_witness:
  "db_ok demo_db \<and>
   db_ok (snd (add_habit demo_db ''Read'' ''a book'' ''daily'' ''2024-12-09 08:30:00'')) \<and>
   db_ok (snd (increment_tracker demo_now demo_db ''WORKOUT'' None)) \<and>
   db_ok (delete_habit_data demo_db ''workout'') \<and>
   db_ok (delete_tracker_data demo_db ''workout'') \<and>
   db_ok (snd (delete_db demo_db)) \<and>
   update_habit demo_db ''workout'' (Some ''car wash'') None None = Inl IntegrityError"
  using database_methods_keep_db_ok [of demo_db "''Read''" "''a book''" "''daily''"
      "''2024-12-09 08:30:00''" demo_now "''workout''" None "Some ''car wash''" None None]
  by code_simp

text \<open>C8. The \<open>except\<close> branches of \<open>add_habit\<close> and \<open>increment_tracker\<close> are dead:
  whatever the database and the arguments, \<open>add_habit\<close> never answers
  "Error adding habit" and \<open>increment_tracker\<close> never answers "Error adding event",
  because the lookup before each \<open>INSERT\<close> establishes the constraint the \<open>INSERT\<close>
  could violate.\<close>

theorem insert_never_rejected:
  "fst (add_habit db name d p t) \<noteq> ErrAddingHabit e \<and>
   fst (increment_tracker now db n ev) \<noteq> ErrAddingEvent e'"
  by (simp add: add_habit_eq increment_tracker_eq Let_def split: option.splits)

text \<open>C23. \<open>add_habit\<close> keeps the two properties the application adds to the schema:
  no two stored names are equal up to case, and every stored name is non-empty,
  trimmed and lower-case.\<close>

theorem add_habit_keeps_name_discipline:
  assumes "names_ci_unique db" and "names_normalised db"
  shows "names_ci_unique (snd (add_habit db name d p t)) \<and>
         names_normalised (snd (add_habit db name d p t))"
  using assms by (simp add: add_habit_keeps_ci_unique add_habit_keeps_normalised)

theorem add_habit_keeps_name_discipline_witness:
  "names_ci_unique (snd (add_habit demo_db '' READ  '' '''' ''daily'' ''2024-12-09'')) \<and>
   names_normalised (snd (add_habit demo_db '' READ  '' '''' ''daily'' ''2024-12-09''))"
  by (rule add_habit_keeps_name_discipline; code_simp)



lemma add_habit_added_iff:
  "fst (add_habit db name d p t) = HabitAdded n \<longleftrightarrow>
     n = lower (strip name) \<and> n \<noteq> [] \<and> \<not> proof_habit db n"
  by (auto simp: add_habit_eq Let_def)

lemma habits_ci_snoc:
  "habits_ci (db\<lparr>habit_rows := habit_rows db @ [r], habit_seq := k\<rparr>) m =
     habits_ci db m @ (if sql_lower (h_name r) = sql_lower m then [r] else [])"
  by (simp add: habits_ci_def)

text \<open>C30. After \<open>add_habit\<close> has answered "added successfully" for the normalised name
  \<open>n\<close>, every spelling \<open>m\<close> of that name up to case is found by \<open>proof_habit\<close>,
  \<open>get_habit_periodicity\<close> returns the periodicity that was given, and adding \<open>m\<close>
  again is refused with "already exists".\<close>

theorem add_habit_then_lookup:
  assumes "fst (add_habit db name d p t) = HabitAdded n" and "lower m = n"
  shows "proof_habit (snd (add_habit db name d p t)) m \<and>
         get_habit_periodicity (snd (add_habit db name d p t)) m = Some p \<and>
         fst (add_habit (snd (add_habit db name d p t)) m d' p' t') = ErrHabitExists n"
proof -
  from assms(1) have n: "n = lower (strip name)" "n \<noteq> []" "\<not> proof_habit db n"
    by (auto simp: add_habit_added_iff)
  let ?db = "db\<lparr>habit_rows := habit_rows db @ [new_habit_row db n d p t],
                  habit_seq := habit_seq db + 1\<rparr>"
  have db': "snd (add_habit db name d p t) = ?db"
    using n(2,3) unfolding n(1) by (simp add: add_habit_eq Let_def)
  have ln: "sql_lower n = n" "sql_lower m = n" "strip n = n"
    using assms(2) unfolding n(1) by (simp_all add: sql_lower_eq_lower strip_lower [symmetric])
  from n(3) have none: "habits_ci db m = []"
    by (simp add: proof_habit_iff habits_ci_def ln)
  have ci: "habits_ci ?db m = [new_habit_row db n d p t]"
    by (simp add: habits_ci_snoc none new_habit_row_def ln)
  have "lower (strip m) = n"
    using ln(3) assms(2) by (simp add: strip_lower [symmetric])
  moreover have "proof_habit ?db n"
    by (simp add: proof_habit_iff habits_ci_snoc new_habit_row_def)
  ultimately have "fst (add_habit ?db m d' p' t') = ErrHabitExists n"
    using n(2) by (simp add: add_habit_eq Let_def)
  with ci show ?thesis
    unfolding db' by (simp add: proof_habit_iff get_habit_periodicity_def new_habit_row_def)
qed

theorem add_habit_then_lookup_witness:
  "proof_habit (snd (add_habit demo_db '' Read '' '''' ''weekly'' ''2024-12-09'')) ''READ'' \<and>
   get_habit_periodicity (snd (add_habit demo_db '' Read '' '''' ''weekly'' ''2024-12-09''))
     ''READ'' = Some ''weekly''"
  using add_habit_then_lookup [of demo_db "'' Read ''" "''''" "''weekly''" "''2024-12-09''"
      "''read''" "''READ''" "''''" "''daily''" "''2024-12-10''"]
  by code_simp

text \<open>C37. \<open>delete_habit_data\<close> removes the habit with exactly the given name together
  with all its events, and leaves the rows and events of every other name as they
  were.\<close>

theorem delete_habit_data_cascade:
  assumes "m \<noteq> n"
  shows "habits_named (delete_habit_data db n) n = [] \<and>
         events_of (delete_habit_data db n) n = [] \<and>
         habits_named (delete_habit_data db n) m = habits_named db m \<and>
         events_of (delete_habit_data db n) m = events_of db m"
  using assms by (simp add: delete_habit_data_gone delete_habit_data_others)

theorem delete_habit_data_cascade_witness:
  "habits_named (delete_habit_data demo_db ''workout'') ''workout'' = [] \<and>
   events_of (delete_habit_data demo_db ''workout'') ''workout'' = [] \<and>
   length (events_of (delete_habit_data demo_db ''workout'') ''car wash'') = 2"
  using delete_habit_data_cascade [of "''car wash''" "''workout''" demo_db]
  by code_simp

text \<open>C31. Renaming a habit to the exact name of another stored habit is not answered with
  a message: the \<open>UPDATE\<close> violates \<open>UNIQUE\<close> and \<open>update_habit\<close> raises
  \<open>IntegrityError\<close>, which the method does not catch.\<close>

theorem update_habit_duplicate_raises:
  assumes "names_ci_unique db" and "r \<in> set (habit_rows db)" and "r' \<in> set (habit_rows db)"
    and "sql_lower old = sql_lower (h_name r)" and "h_name r' \<noteq> h_name r"
    and "h_name r' \<noteq> []"
  shows "update_habit db old (Some (h_name r')) nd np = Inl IntegrityError"
proof -
  from names_ci_unique_ci [OF assms(1,2,4)]
  have "fetchone (map h_name (habits_ci db old)) = Some (h_name r)"
    by simp
  moreover have "habits_named db (h_name r) \<noteq> []" "habits_named db (h_name r') \<noteq> []"
    using assms(2,3) by (auto simp: habits_named_eq_Nil_iff)
  ultimately show ?thesis
    using assms(5,6) by (simp add: update_habit_def rename_habit_def)
qed

theorem update_habit_duplicate_raises_witness:
  "update_habit demo_db ''WORKOUT'' (Some ''car wash'') (Some ''d'') None = Inl IntegrityError"
  using update_habit_duplicate_raises [of demo_db demo_row
      "\<lparr>h_id = 2, h_name = ''car wash'', h_description = ''wash it'',
        h_periodicity = ''weekly'', h_date = ''2024-12-01 00:00:00''\<rparr>" "''WORKOUT''"
      "Some ''d''" None]
  by code_simp

lemma increment_tracker_now:
  assumes "proof_habit db n"
  shows "tracker_rows (snd (increment_tracker now db n None)) =
    tracker_rows db @
      [\<lparr>t_id = tracker_seq db + 1, t_check_of_date = strftime_datetime now,
        t_habit_name = h_name (hd (habits_ci db n))\<rparr>]"
  using assms
  by (cases "habits_ci db n")
    (simp_all add: increment_tracker_eq proof_habit_iff event_date_or_now_def)

text \<open>C21. The timestamp of a check-off without a date reads back as the time of the
  call. When \<open>increment_tracker\<close> is called for a stored habit without a date, at a
  valid time \<open>now\<close> of the year 1000 or later, the last row of table \<open>tracker\<close>
  holds a string that \<open>strptime\<close> parses to \<open>now\<close> and that SQLite reads as the
  day of \<open>now\<close>.\<close>

theorem increment_tracker_stamp_roundtrip:
  assumes "valid_datetime now" and "1000 \<le> dt_year now" and "proof_habit db n"
  shows "strptime_datetime (t_check_of_date (last (tracker_rows
            (snd (increment_tracker now db n None))))) = Inr now \<and>
         sql_datetime (t_check_of_date (last (tracker_rows
            (snd (increment_tracker now db n None))))) =
           SqlDay (dt_year now) (dt_month now) (dt_day now)"
  by (simp add: increment_tracker_now [OF assms(3)] strptime_strftime [OF assms(1,2)]
      sql_datetime_strftime [OF assms(1,2)])

theorem increment_tracker_stamp_roundtrip_witness:
  "strptime_datetime (t_check_of_date (last (tracker_rows
      (snd (increment_tracker demo_now demo_db ''Workout'' None))))) = Inr demo_now \<and>
   sql_datetime (t_check_of_date (last (tracker_rows
      (snd (increment_tracker demo_now demo_db ''Workout'' None))))) =
     SqlDay (dt_year demo_now) (dt_month demo_now) (dt_day demo_now)"
  by (rule increment_tracker_stamp_roundtrip; code_simp)

end
