(* ===== verification/Habits.thy ===== *)
theory Habits
  imports Database
begin

text \<open>
  The habit objects of \<open>src/habits.py\<close>: class \<open>Habit\<close>, a record with a progress
  counter, and class \<open>DBHabit\<close>, whose methods validate what the caller supplies and
  then call the methods of \<open>Database\<close>. A method of \<open>DBHabit\<close> takes the habit and
  the database and returns its message with the database it leaves behind;
  \<open>store\<close> also returns the habit, because it can replace the description. The
  lemmas show that the methods keep the constraints of the database, which of their
  answers are possible, and what rule \<open>add_event\<close> enforces on repeated check-offs.
\<close>

section \<open>Class Habit\<close>

record habit =
  hb_id :: "int option"
  hb_name :: string
  hb_description :: string
  hb_periodicity :: string
  hb_date :: string
  hb_count :: int

text \<open>\<open>Habit.__init__\<close>; \<open>DBHabit.__init__\<close> only calls it.\<close>

definition habit_init :: "datetime \<Rightarrow> string \<Rightarrow> string \<Rightarrow> string \<Rightarrow> int option \<Rightarrow> habit" where
  "habit_init now name description periodicity ident =
     \<lparr>hb_id = ident, hb_name = lower (strip name), hb_description = strip description,
      hb_periodicity = periodicity, hb_date = strftime_datetime now, hb_count = 0\<rparr>"

definition increment :: "habit \<Rightarrow> habit" where
  "increment h = h\<lparr>hb_count := hb_count h + 1\<rparr>"

definition reset :: "habit \<Rightarrow> habit" where
  "reset h = h\<lparr>hb_count := 0\<rparr>"

definition habit_str :: "habit \<Rightarrow> string" where
  "habit_str h = hb_name h @ '': '' @ str_int (hb_count h)"

section \<open>Class DBHabit\<close>

text \<open>The answers of the methods; \<open>FromDb\<close> passes on the answer of the database
  method that was called.\<close>

datatype habit_msg =
    StoreBlank
  | StoreExists string
  | InvalidDateFormat string
  | NoPeriodicity string
  | AlreadyCheckedDaily string string
  | AlreadyCheckedWeekly string
  | EventNoHabit string
  | HabitDeleted string
  | DeleteNoHabit string
  | UpdateNoHabit string
  | ProgressReset string
  | ResetNoHabit string
  | FromDb db_msg

fun render_habit_msg :: "habit_msg \<Rightarrow> string" where
  "render_habit_msg StoreBlank =
     ''Habit name cannot be blank or just whitespace. It was not added.''"
| "render_habit_msg (StoreExists n) = ''Habit '' @ quoted n @ '' already exists. It was not added.''"
| "render_habit_msg (InvalidDateFormat d) =
     ''Invalid date format: '' @ quoted d @ ''. Please use YYYY-MM-DD.''"
| "render_habit_msg (NoPeriodicity n) =
     ''Could not determine periodicity for habit '' @ quoted n @ ''.''"
| "render_habit_msg (AlreadyCheckedDaily n d) =
     ''Habit '' @ quoted n @ '' was already checked-off on '' @ d @ ''.''"
| "render_habit_msg (AlreadyCheckedWeekly n) =
     ''Habit '' @ quoted n @ '' was already checked-off in this week.''"
| "render_habit_msg (EventNoHabit n) = ''Habit '' @ quoted n @ '' not found. Cannot add event.''"
| "render_habit_msg (HabitDeleted n) = ''The habit '' @ quoted n @ '' has been deleted.''"
| "render_habit_msg (DeleteNoHabit n) =
     ''Habit '' @ quoted n @ '' not found or there may be a typo.''"
| "render_habit_msg (UpdateNoHabit n) = ''Habit '' @ quoted n @ '' does not exist.''"
| "render_habit_msg (ProgressReset n) =
     ''All progress for habit '' @ quoted n @ '' has been reset.''"
| "render_habit_msg (ResetNoHabit n) = ''Habit '' @ quoted n @ '' not found.''"
| "render_habit_msg (FromDb m) = render_db_msg m"

definition store :: "habit \<Rightarrow> database \<Rightarrow> habit_msg \<times> habit \<times> database" where
  "store h db =
     (if strip (hb_name h) = [] then (StoreBlank, h, db)
      else
        let h' = (if strip (hb_description h) = []
                  then h\<lparr>hb_description := ''No description''\<rparr> else h) in
        if proof_habit db (hb_name h') then (StoreExists (hb_name h'), h', db)
        else (case add_habit db (hb_name h') (hb_description h') (hb_periodicity h') (hb_date h')
              of (msg, db') \<Rightarrow> (FromDb msg, h', db')))"

text \<open>The date that \<open>add_event\<close> hands on: the current time, or the argument
  followed by midnight when \<open>strptime\<close> accepts it as a date.\<close>

definition event_date :: "datetime \<Rightarrow> string option \<Rightarrow> (habit_msg + string) result" where
  "event_date now date =
     (if \<not> truthy date then Inr (Inr (strftime_datetime now))
      else (case strptime_date (the date) of
              Inr _ \<Rightarrow> Inr (Inr (the date @ '' 00:00:00''))
            | Inl e \<Rightarrow> if e = ValueError then Inr (Inl (InvalidDateFormat (the date)))
                       else Inl e))"

definition add_event ::
  "datetime \<Rightarrow> habit \<Rightarrow> database \<Rightarrow> string option \<Rightarrow> (habit_msg \<times> database) result" where
  "add_event now h db date =
     (if proof_habit db (hb_name h) then
        rbind (event_date now date) (\<lambda>checked.
          case checked of
            Inl msg \<Rightarrow> Inr (msg, db)
          | Inr d \<Rightarrow>
              (case get_habit_periodicity db (hb_name h) of
                 None \<Rightarrow> Inr (NoPeriodicity (hb_name h), db)
               | Some periodicity \<Rightarrow>
                   if periodicity = [] then Inr (NoPeriodicity (hb_name h), db)
                   else
                     rbind (check_event_exists db (hb_name h) d periodicity) (\<lambda>already_checked.
                       if already_checked \<and> periodicity = ''daily''
                       then Inr (AlreadyCheckedDaily (hb_name h) (take 10 d), db)
                       else if already_checked \<and> periodicity = ''weekly''
                       then Inr (AlreadyCheckedWeekly (hb_name h), db)
                       else (case increment_tracker now db (hb_name h) (Some d) of
                               (msg, db') \<Rightarrow> Inr (FromDb msg, db')))))
      else Inr (EventNoHabit (hb_name h), db))"

definition delete :: "habit \<Rightarrow> database \<Rightarrow> habit_msg \<times> database" where
  "delete h db =
     (if proof_habit db (hb_name h)
      then (HabitDeleted (hb_name h), delete_habit_data db (hb_name h))
      else (DeleteNoHabit (hb_name h), db))"

definition update ::
  "habit \<Rightarrow> database \<Rightarrow> string option \<Rightarrow> string option \<Rightarrow> string option
     \<Rightarrow> (habit_msg \<times> database) result" where
  "update h db new_name new_description new_periodicity =
     (if \<not> proof_habit db (hb_name h) then Inr (UpdateNoHabit (hb_name h), db)
      else rbind (update_habit db (hb_name h) new_name new_description new_periodicity)
             (\<lambda>(msg, db'). Inr (FromDb msg, db')))"

definition reset_in_db :: "habit \<Rightarrow> database \<Rightarrow> habit_msg \<times> database" where
  "reset_in_db h db =
     (if proof_habit db (hb_name h)
      then (ProgressReset (hb_name h), delete_tracker_data db (hb_name h))
      else (ResetNoHabit (hb_name h), db))"

text \<open>The habit \<open>workout\<close> as the caller constructs it, for the concrete instances.\<close>

definition demo_habit :: habit where
  "demo_habit = habit_init demo_now '' Workout '' [] ''daily'' None"

section \<open>The methods keep the constraints\<close>

lemmas habit_defs = store_def add_event_def delete_def update_def reset_in_db_def

lemma store_ok:
  assumes "db_ok db"
  shows "db_ok (snd (snd (store h db)))"
  using assms add_habit_ok [OF assms] by (simp add: store_def Let_def case_prod_beta)

text \<open>\<open>add_event\<close> branch by branch.\<close>

lemma event_date_cases:
  obtains d where "event_date now date = Inr (Inr d)"
  | m where "event_date now date = Inr (Inl m)"
proof (cases "event_date now date")
  case (Inl e)
  then have False
    by (auto simp: event_date_def strptime_date_def mk_datetime_def
        split: if_splits sum.splits list.splits prod.splits)
  then show ?thesis ..
next
  case (Inr r)
  with that show ?thesis by (cases r) auto
qed

lemma add_event_no_habit:
  "\<not> proof_habit db (hb_name h) \<Longrightarrow> add_event now h db date = Inr (EventNoHabit (hb_name h), db)"
  by (simp add: add_event_def)

lemma add_event_invalid:
  "proof_habit db (hb_name h) \<Longrightarrow> event_date now date = Inr (Inl m) \<Longrightarrow>
   add_event now h db date = Inr (m, db)"
  by (simp add: add_event_def)

lemma add_event_no_periodicity:
  assumes "proof_habit db (hb_name h)" and "event_date now date = Inr (Inr d)"
    and "get_habit_periodicity db (hb_name h) = None \<or>
         get_habit_periodicity db (hb_name h) = Some []"
  shows "add_event now h db date = Inr (NoPeriodicity (hb_name h), db)"
  using assms by (auto simp: add_event_def)

lemma add_event_checked:
  assumes "proof_habit db (hb_name h)" and "event_date now date = Inr (Inr d)"
    and "get_habit_periodicity db (hb_name h) = Some p" and "p \<noteq> []"
  shows "add_event now h db date =
    rbind (check_event_exists db (hb_name h) d p) (\<lambda>already.
      Inr (if already \<and> p = ''daily'' then (AlreadyCheckedDaily (hb_name h) (take 10 d), db)
           else if already \<and> p = ''weekly'' then (AlreadyCheckedWeekly (hb_name h), db)
           else (FromDb (fst (increment_tracker now db (hb_name h) (Some d))),
                 snd (increment_tracker now db (hb_name h) (Some d)))))"
  using assms by (auto simp: add_event_def case_prod_beta intro!: arg_cong2 [where f = rbind])

lemma add_event_ok:
  assumes "db_ok db" and "add_event now h db date = Inr (msg, db')"
  shows "db_ok db'"
proof (cases "proof_habit db (hb_name h)")
  case False
  with assms show ?thesis by (simp add: add_event_no_habit)
next
  case True
  show ?thesis
  proof (cases rule: event_date_cases [of now date])
    case (2 m)
    with True assms show ?thesis by (simp add: add_event_invalid)
  next
    case (1 d)
    show ?thesis
    proof (cases "get_habit_periodicity db (hb_name h) = None \<or>
        get_habit_periodicity db (hb_name h) = Some []")
      case True
      from add_event_no_periodicity [OF \<open>proof_habit db (hb_name h)\<close> 1 True] assms
      show ?thesis by simp
    next
      case False
      then obtain p where p: "get_habit_periodicity db (hb_name h) = Some p" "p \<noteq> []" by auto
      from assms(2) have "\<exists>a. check_event_exists db (hb_name h) d p = Inr a \<and>
          (db' = db \<or> db' = snd (increment_tracker now db (hb_name h) (Some d)))"
        unfolding add_event_checked [OF True 1 p]
        by (auto simp: rbind_eq_Inr_iff split: if_splits)
      with assms(1) increment_tracker_ok [OF assms(1), of now "hb_name h" "Some d"]
      show ?thesis by auto
    qed
  qed
qed

lemma delete_ok: "db_ok db \<Longrightarrow> db_ok (snd (delete h db))"
  by (simp add: delete_def delete_habit_data_ok)

lemma reset_in_db_ok: "db_ok db \<Longrightarrow> db_ok (snd (reset_in_db h db))"
  by (simp add: reset_in_db_def delete_tracker_data_ok)

lemma update_ok:
  assumes "db_ok db"
  shows "case update h db nn nd np of Inl e \<Rightarrow> e = IntegrityError | Inr (msg, db') \<Rightarrow> db_ok db'"
  using update_habit_Inr_ok [OF assms, of "hb_name h" nn nd np] assms
  by (auto simp: update_def split: sum.splits)

section \<open>store\<close>

lemma habit_init_name [simp]:
  "hb_name (habit_init now name d p i) = lower (strip name)"
  "strip (hb_name (habit_init now name d p i)) = lower (strip name)"
  "lower (hb_name (habit_init now name d p i)) = lower (strip name)"
  by (simp_all add: habit_init_def strip_lower)

lemma store_new_habit:
  fixes name :: string
  defines "n \<equiv> lower (strip name)"
  shows "fst (store (habit_init now name d p i) db) =
     (if n = [] then StoreBlank
      else if proof_habit db n then StoreExists n
      else FromDb (HabitAdded n))"
  by (auto simp: store_def Let_def n_def case_prod_beta add_habit_eq strip_lower [symmetric])

section \<open>add\_event\<close>

lemma add_event_unknown_periodicity:
  assumes "proof_habit db (hb_name h)" and "event_date now date = Inr (Inr d)"
    and "get_habit_periodicity db (hb_name h) = Some p"
    and "p \<noteq> []" "p \<noteq> ''daily''" "p \<noteq> ''weekly''"
  shows "add_event now h db date = Inl TypeError"
  by (simp add: add_event_checked [OF assms(1-4)] check_event_exists_unknown [OF assms(5,6)])

section \<open>delete\<close>

lemma proof_habit_normalised:
  assumes "names_normalised db" and "proof_habit db n" and "lower n = n"
  shows "habits_named db n \<noteq> []"
proof -
  from assms(2) obtain r where r: "r \<in> set (habit_rows db)" "sql_lower (h_name r) = sql_lower n"
    by (auto simp: proof_habit_iff habits_ci_def filter_empty_conv)
  with assms(1) have "lower (strip (h_name r)) = h_name r" by (simp add: names_normalised_def)
  then have "lower (h_name r) = h_name r" by (metis lower_idem)
  with r assms(3) have "h_name r = n" by (simp add: sql_lower_eq_lower)
  with r(1) show ?thesis by (auto simp: habits_named_eq_Nil_iff)
qed

lemma delete_removes:
  assumes "names_normalised db" and "proof_habit db (hb_name h)"
    and "lower (hb_name h) = hb_name h"
  shows "fst (delete h db) = HabitDeleted (hb_name h)"
    and "\<not> proof_habit (snd (delete h db)) (hb_name h)"
    and "events_of (snd (delete h db)) (hb_name h) = []"
    and "length (habit_rows (snd (delete h db))) < length (habit_rows db)"
proof -
  from assms(2) show "fst (delete h db) = HabitDeleted (hb_name h)" by (simp add: delete_def)
  from assms(2) have db': "snd (delete h db) = delete_habit_data db (hb_name h)"
    by (simp add: delete_def)
  show "events_of (snd (delete h db)) (hb_name h) = []"
    unfolding db' by (rule delete_habit_data_gone)
  from proof_habit_normalised [OF assms] obtain r where
    r: "r \<in> set (habit_rows db)" "h_name r = hb_name h"
    by (auto simp: habits_named_eq_Nil_iff)
  then show "length (habit_rows (snd (delete h db))) < length (habit_rows db)"
    unfolding db' delete_habit_data_def by (auto intro!: length_filter_less)
  show "\<not> proof_habit (snd (delete h db)) (hb_name h)"
  proof
    assume "proof_habit (snd (delete h db)) (hb_name h)"
    moreover have "names_normalised (snd (delete h db))"
      using assms(1) unfolding db' by (auto simp: names_normalised_def delete_habit_data_def)
    ultimately have "habits_named (snd (delete h db)) (hb_name h) \<noteq> []"
      using assms(3) by (intro proof_habit_normalised)
    then show False unfolding db' by (simp add: delete_habit_data_gone)
  qed
qed

lemma add_event_errors:
  assumes "add_event now h db date = Inl e"
  shows "e = TypeError \<or> e = NotModelled"
proof (cases "proof_habit db (hb_name h)")
  case False
  with assms show ?thesis by (simp add: add_event_no_habit)
next
  case True
  show ?thesis
  proof (cases rule: event_date_cases [of now date])
    case (2 m)
    with True assms show ?thesis by (simp add: add_event_invalid)
  next
    case (1 d)
    show ?thesis
    proof (cases "get_habit_periodicity db (hb_name h) = None \<or>
        get_habit_periodicity db (hb_name h) = Some []")
      case True
      from add_event_no_periodicity [OF \<open>proof_habit db (hb_name h)\<close> 1 True] assms
      show ?thesis by simp
    next
      case False
      then obtain p where p: "get_habit_periodicity db (hb_name h) = Some p" "p \<noteq> []" by auto
      from assms have "check_event_exists db (hb_name h) d p = Inl e"
        unfolding add_event_checked [OF True 1 p] by (auto simp: rbind_eq_Inl_iff)
      then show ?thesis by (auto dest: check_event_exists_cases)
    qed
  qed
qed

section \<open>Properties of the habit objects\<close>

text \<open>C9. Every method of \<open>DBHabit\<close> keeps the constraints of the schema: \<open>store\<close>,
  \<open>delete\<close> and \<open>reset_in_db\<close> always, \<open>add_event\<close> whenever it returns, and
  \<open>update\<close> unless it raises \<open>IntegrityError\<close>. The only exception that can leave
  \<open>add_event\<close> is the \<open>TypeError\<close> of \<open>check_event_exists\<close> (or the model's
  \<open>NotModelled\<close> for a time string outside its domain); an invalid date is answered
  with a message, never with \<open>ValueError\<close>.\<close>

theorem dbhabit_methods_keep_db_ok:
  assumes "db_ok db"
  shows "db_ok (snd (snd (store h db))) \<and>
         (case add_event now h db date of Inl e \<Rightarrow> e = TypeError \<or> e = NotModelled
          | Inr (msg, db') \<Rightarrow> db_ok db') \<and>
         db_ok (snd (delete h db)) \<and>
         (case update h db nn nd np of Inl e \<Rightarrow> e = IntegrityError
          | Inr (msg, db') \<Rightarrow> db_ok db') \<and>
         db_ok (snd (reset_in_db h db))"
proof -
  have "case add_event now h db date of Inl e \<Rightarrow> e = TypeError \<or> e = NotModelled
      | Inr (msg, db') \<Rightarrow> db_ok db'"
    using add_event_errors [of now h db date] add_event_ok [OF assms, of now h date]
    by (auto split: sum.splits)
  with assms show ?thesis
    by (simp add: store_ok delete_ok reset_in_db_ok update_ok)
qed

theorem dbhabit_methods_keep_db_ok_witness:
  "db_ok (snd (snd (store (habit_init demo_now ''Read'' [] ''daily'' None) demo_db))) \<and>
   (case add_event demo_now demo_habit demo_db (Some ''2024-12-05'') of
      Inl e \<Rightarrow> False | Inr (msg, db') \<Rightarrow> db_ok db' \<and> length (tracker_rows db') = 6) \<and>
   db_ok (snd (delete demo_habit demo_db)) \<and>
   db_ok (snd (reset_in_db demo_habit demo_db))"
  using dbhabit_methods_keep_db_ok [of demo_db "habit_init demo_now ''Read'' [] ''daily'' None"]
    dbhabit_methods_keep_db_ok [of demo_db demo_habit demo_now "Some ''2024-12-05''"]
  by code_simp

text \<open>C28. \<open>store\<close> on a freshly constructed habit has three answers: the name is blank,
  the habit exists, or the habit was added; the three error answers of \<open>add_habit\<close>
  cannot come back through \<open>store\<close>. The database it leaves is the one \<open>add_habit\<close>
  leaves for the same name and the stripped description.\<close>

theorem store_new_habit_answers:
  "fst (store (habit_init now name d p i) db) =
     (if lower (strip name) = [] then StoreBlank
      else if proof_habit db (lower (strip name)) then StoreExists (lower (strip name))
      else FromDb (HabitAdded (lower (strip name)))) \<and>
   snd (snd (store (habit_init now name d p i) db)) =
     snd (add_habit db name (strip d) p (strftime_datetime now))"
proof -
  have "snd (snd (store (habit_init now name d p i) db)) =
      snd (add_habit db name (strip d) p (strftime_datetime now))"
    by (auto simp: store_def Let_def case_prod_beta add_habit_eq habit_init_def
        strip_lower [symmetric] new_habit_row_def)
  then show ?thesis by (simp add: store_new_habit)
qed

text \<open>C27. A check-off for a stored habit whose periodicity is neither \<open>daily\<close> nor
  \<open>weekly\<close> (and not empty) is not answered: \<open>check_event_exists\<close> runs no query,
  subscripts \<open>None\<close> and \<open>add_event\<close> raises \<open>TypeError\<close>.\<close>

theorem add_event_unknown_periodicity_raises:
  assumes "proof_habit db (hb_name h)"
    and "get_habit_periodicity db (hb_name h) = Some p"
    and "p \<noteq> []" "p \<noteq> ''daily''" "p \<noteq> ''weekly''"
    and "\<not> truthy date \<or> strptime_date (the date) = Inr t"
  shows "add_event now h db date = Inl TypeError"
proof -
  from assms(6) have "\<exists>d. event_date now date = Inr (Inr d)"
    by (cases "truthy date") (auto simp: event_date_def)
  then obtain d where "event_date now date = Inr (Inr d)" ..
  from add_event_unknown_periodicity [OF assms(1) this assms(2-5)] show ?thesis .
qed

theorem add_event_unknown_periodicity_raises_witness:
  "add_event demo_now (habit_init demo_now ''Read'' [] ''monthly'' None) demo_odd_db None
     = Inl TypeError"
  by (rule add_event_unknown_periodicity_raises [where p = "''monthly''"]; code_simp)

text \<open>C10. The daily rule of \<open>add_event\<close>. For a daily habit and a date that SQLite
  reads as the day \<open>y-m-dd\<close>, the check-off is refused exactly when a check-off
  stored under the habit's name falls on that day; otherwise it is recorded by
  \<open>increment_tracker\<close>.\<close>

theorem add_event_daily_rule:
  assumes "proof_habit db (hb_name h)" and "event_date now date = Inr (Inr d)"
    and "get_habit_periodicity db (hb_name h) = Some ''daily''"
    and "sql_datetime d = SqlDay y m dd"
    and "\<forall>t \<in> set (events_of db (hb_name h)). sql_datetime (t_check_of_date t) \<noteq> SqlOther"
  shows "add_event now h db date =
    Inr (if \<exists>t \<in> set (events_of db (hb_name h)).
              sql_datetime (t_check_of_date t) = SqlDay y m dd
         then (AlreadyCheckedDaily (hb_name h) (take 10 d), db)
         else (FromDb (fst (increment_tracker now db (hb_name h) (Some d))),
               snd (increment_tracker now db (hb_name h) (Some d))))"
  by (simp add: add_event_checked [OF assms(1-3)] check_event_exists_daily [OF assms(4,5)])

theorem add_event_daily_rule_witness:
  "add_event demo_now demo_habit demo_db (Some ''2024-12-02'') =
     Inr (AlreadyCheckedDaily ''workout'' ''2024-12-02'', demo_db)"
  using add_event_daily_rule [of demo_db demo_habit demo_now "Some ''2024-12-02''"
      "''2024-12-02 00:00:00''" 2024 12 2]
  by code_simp

text \<open>C12. The weekly rule of \<open>add_event\<close>. For a weekly habit the check-off is refused
  exactly when a stored check-off has the same year and the same week of the year in
  the sense of \<open>strftime('%Y-%W')\<close>, where weeks start on Monday and the days before
  the first Monday of a year are its week 0. This is not the ISO week that
  \<open>calculate_streak\<close> compares.\<close>

theorem add_event_weekly_rule:
  assumes "proof_habit db (hb_name h)" and "event_date now date = Inr (Inr d)"
    and "get_habit_periodicity db (hb_name h) = Some ''weekly''"
    and "sql_datetime d = SqlDay y m dd"
    and "\<forall>t \<in> set (events_of db (hb_name h)). sql_datetime (t_check_of_date t) \<noteq> SqlOther"
  shows "add_event now h db date =
    Inr (if \<exists>t \<in> set (events_of db (hb_name h)).
              sql_year_week (sql_datetime (t_check_of_date t)) = Some (y, sql_week_of_year y m dd)
         then (AlreadyCheckedWeekly (hb_name h), db)
         else (FromDb (fst (increment_tracker now db (hb_name h) (Some d))),
               snd (increment_tracker now db (hb_name h) (Some d))))"
  by (simp add: add_event_checked [OF assms(1-3)] check_event_exists_weekly [OF assms(4,5)])

theorem add_event_weekly_rule_witness:
  "add_event demo_now (habit_init demo_now ''car wash'' [] ''weekly'' None) demo_db
     (Some ''2024-12-08'') = Inr (AlreadyCheckedWeekly ''car wash'', demo_db)"
  using add_event_weekly_rule [of demo_db "habit_init demo_now ''car wash'' [] ''weekly'' None"
      demo_now "Some ''2024-12-08''" "''2024-12-08 00:00:00''" 2024 12 8]
  by code_simp

text \<open>C29. A date that \<open>strptime\<close> accepts but SQLite does not read, such as
  \<open>2024-12-2\<close>, is never refused: both SQL comparisons are \<open>NULL\<close>, and the
  check-off is recorded again on every call.\<close>

theorem add_event_unpadded_date:
  assumes "proof_habit db (hb_name h)" and "event_date now date = Inr (Inr d)"
    and "get_habit_periodicity db (hb_name h) = Some p" and "p = ''daily'' \<or> p = ''weekly''"
    and "sql_datetime d = SqlNull"
    and "\<forall>t \<in> set (events_of db (hb_name h)). sql_datetime (t_check_of_date t) \<noteq> SqlOther"
  shows "add_event now h db date =
    Inr (FromDb (fst (increment_tracker now db (hb_name h) (Some d))),
         snd (increment_tracker now db (hb_name h) (Some d)))"
proof -
  from assms(4) have "p \<noteq> []" by auto
  from add_event_checked [OF assms(1-3) this] check_event_exists_null [OF assms(5,4,6)]
  show ?thesis by simp
qed

theorem add_event_unpadded_date_witness:
  "(case add_event demo_now demo_habit demo_db (Some ''2024-12-2'') of
      Inl _ \<Rightarrow> False
    | Inr (msg, db') \<Rightarrow>
        msg = FromDb (EventAdded ''workout'' ''2024-12-2 00:00:00'') \<and>
        add_event demo_now demo_habit db' (Some ''2024-12-2'') =
          Inr (msg, snd (increment_tracker demo_now db' ''workout''
                 (Some ''2024-12-2 00:00:00''))))"
  using add_event_unpadded_date [of demo_db demo_habit demo_now "Some ''2024-12-2''"
      "''2024-12-2 00:00:00''" "''daily''"]
  by code_simp

text \<open>C32. On a database whose names are in normal form, \<open>delete\<close> of an existing habit
  removes it: the habit is no longer found, it has no events left, and the table has
  fewer rows.\<close>

theorem delete_removes_normalised:
  assumes "names_normalised db" and "proof_habit db (hb_name h)"
    and "lower (hb_name h) = hb_name h"
  shows "fst (delete h db) = HabitDeleted (hb_name h) \<and>
         \<not> proof_habit (snd (delete h db)) (hb_name h) \<and>
         events_of (snd (delete h db)) (hb_name h) = [] \<and>
         length (habit_rows (snd (delete h db))) < length (habit_rows db)"
  using delete_removes [OF assms] by simp

theorem delete_removes_normalised_witness:
  "fst (delete demo_habit demo_db) = HabitDeleted ''workout'' \<and>
   map h_name (habit_rows (snd (delete demo_habit demo_db))) = [''car wash''] \<and>
   length (tracker_rows (snd (delete demo_habit demo_db))) = 2"
  using delete_removes_normalised [of demo_db demo_habit]
  by code_simp


end
