(* ===== verification/Analytics.thy ===== *)
theory Analytics
  imports Database "HOL-Library.Sublist" "HOL-Library.Multiset"
begin

text \<open>
  The analytics layer, \<open>src/analytics.py\<close>: the queries of class \<open>Analytics\<close>, the
  streak calculator \<open>calculate_streak\<close> with its two adjacency rules, and the
  aggregator \<open>longest_streak_across\<close>. The loop of the calculator is a recursion over
  the sorted check-off strings that parses each pair as the code does; the lemmas
  relate it to a scan over parsed datetimes and the scan to its specification, the
  length of the longest run of adjacent check-offs.
\<close>

section \<open>Simple queries\<close>

definition calculate_count :: "database \<Rightarrow> string \<Rightarrow> int" where
  "calculate_count db habit_name = int (length (get_habit_data db habit_name))"

definition get_current_habit_names :: "database \<Rightarrow> string list" where
  "get_current_habit_names db = map h_name (get_current_habits db)"

datatype info_result = Info "habit_row list" | InfoNotFound string

definition get_info :: "database \<Rightarrow> string \<Rightarrow> info_result" where
  "get_info db habit_name =
     (if proof_habit db habit_name then Info (habits_named db habit_name)
      else InfoNotFound habit_name)"

definition get_periodicity :: "database \<Rightarrow> string \<Rightarrow> string list" where
  "get_periodicity db periodicity =
     map h_name (filter (\<lambda>r. h_periodicity r = periodicity) (habit_rows db))"

section \<open>The streak calculator\<close>

text \<open>\<open>(current_date - previous_date).days == 1\<close>.\<close>

definition daily_adjacent :: "datetime \<Rightarrow> datetime \<Rightarrow> bool" where
  "daily_adjacent cur prev \<longleftrightarrow> timedelta_days cur prev = 1"

text \<open>The test on the ISO (year, week) pairs of the two dates.\<close>

definition weekly_adjacent :: "datetime \<Rightarrow> datetime \<Rightarrow> bool" where
  "weekly_adjacent cur prev \<longleftrightarrow>
     (let current_week = iso_year_week cur; previous_week = iso_year_week prev in
      (fst current_week = fst previous_week \<and> snd current_week = snd previous_week + 1) \<or>
      (fst current_week = fst previous_week + 1 \<and> snd previous_week = 52 \<and>
       snd current_week = 1))"

text \<open>The body of the loop after both dates are parsed: the pair is
  \<open>(longest_streak, current_streak)\<close>. A periodicity that is neither \<open>daily\<close> nor
  \<open>weekly\<close> falls through both branches and changes nothing.\<close>

definition streak_step :: "string \<Rightarrow> int \<times> int \<Rightarrow> datetime \<Rightarrow> datetime \<Rightarrow> int \<times> int" where
  "streak_step periodicity lc cur prev =
     (case lc of (longest, current) \<Rightarrow>
        if periodicity = ''daily'' then
          (if daily_adjacent cur prev then (longest, current + 1)
           else (max longest current, 1))
        else if periodicity = ''weekly'' then
          (if weekly_adjacent cur prev then (longest, current + 1)
           else (max longest current, 1))
        else (longest, current))"

text \<open>\<open>for i in range(1, len(check_off_dates))\<close>: \<open>prev\<close> is element \<open>i - 1\<close>, the
  head of the list is element \<open>i\<close>. \<open>strptime\<close> raises \<open>ValueError\<close> on the first
  string of a pair that does not parse.\<close>

fun streak_loop :: "string \<Rightarrow> int \<times> int \<Rightarrow> string \<Rightarrow> string list \<Rightarrow> (int \<times> int) result" where
  "streak_loop periodicity lc prev [] = Inr lc"
| "streak_loop periodicity lc prev (cur # rest) =
     (case strptime_datetime cur of
        Inl e \<Rightarrow> Inl e
      | Inr current_date \<Rightarrow>
          (case strptime_datetime prev of
             Inl e \<Rightarrow> Inl e
           | Inr previous_date \<Rightarrow>
               streak_loop periodicity
                 (streak_step periodicity lc current_date previous_date) cur rest))"

text \<open>\<open>SELECT check_of_date FROM tracker WHERE habit_name = ? ORDER BY check_of_date
  ASC\<close>: text is compared byte by byte.\<close>

definition check_off_dates :: "database \<Rightarrow> string \<Rightarrow> string list" where
  "check_off_dates db habit_name = sort (map t_check_of_date (events_of db habit_name))"

text \<open>The result is an integer or the message \<open>Habit '...' not found.\<close>\<close>

datatype streak_result = Streak int | StreakNotFound string

definition not_found_message :: "string \<Rightarrow> string" where
  "not_found_message habit_name = ''Habit '' @ quoted habit_name @ '' not found.''"

definition calculate_streak :: "database \<Rightarrow> string \<Rightarrow> streak_result result" where
  "calculate_streak db habit_name =
     (if proof_habit db habit_name then
        (case check_off_dates db habit_name of
           [] \<Rightarrow> Inr (Streak 0)
         | first # rest \<Rightarrow>
             (case fetchone (map h_periodicity (habits_named db habit_name)) of
                None \<Rightarrow> Inl TypeError
              | Some periodicity \<Rightarrow>
                  (case streak_loop periodicity (0, 1) first rest of
                     Inl e \<Rightarrow> Inl e
                   | Inr (longest_streak, current_streak) \<Rightarrow>
                       Inr (Streak (max longest_streak current_streak)))))
      else Inr (StreakNotFound habit_name))"

section \<open>The aggregator\<close>

text \<open>The loop over \<open>all_habits\<close>; the state is \<open>longest_streak\<close> and
  \<open>habits_with_longest_streak\<close>. Comparing a not-found message with an integer
  raises \<open>TypeError\<close>.\<close>

fun across_loop ::
  "database \<Rightarrow> int \<times> (string \<times> int) list \<Rightarrow> string list \<Rightarrow> (string \<times> int) list result" where
  "across_loop db (longest_streak, found) [] = Inr found"
| "across_loop db (longest_streak, found) (habit_name # rest) =
     (case calculate_streak db habit_name of
        Inl e \<Rightarrow> Inl e
      | Inr (StreakNotFound _) \<Rightarrow> Inl TypeError
      | Inr (Streak streak) \<Rightarrow>
          if streak > longest_streak then across_loop db (streak, [(habit_name, streak)]) rest
          else if streak = longest_streak
            then across_loop db (longest_streak, found @ [(habit_name, streak)]) rest
          else across_loop db (longest_streak, found) rest)"

definition longest_streak_across :: "database \<Rightarrow> (string \<times> int) list result" where
  "longest_streak_across db = across_loop db (0, []) (map h_name (habit_rows db))"

section \<open>The scan over parsed dates and its specification\<close>

text \<open>The loop with the parsing factored out: \<open>adj cur prev\<close> decides whether the
  run continues.\<close>

fun scan_streak :: "('a \<Rightarrow> 'a \<Rightarrow> bool) \<Rightarrow> int \<times> int \<Rightarrow> 'a \<Rightarrow> 'a list \<Rightarrow> int \<times> int" where
  "scan_streak adj lc prev [] = lc"
| "scan_streak adj lc prev (cur # rest) =
     scan_streak adj
       (if adj cur prev then (fst lc, snd lc + 1) else (max (fst lc) (snd lc), 1)) cur rest"

definition longest_run :: "('a \<Rightarrow> 'a \<Rightarrow> bool) \<Rightarrow> 'a list \<Rightarrow> int" where
  "longest_run adj xs =
     (case xs of [] \<Rightarrow> 0
      | x # rest \<Rightarrow> (case scan_streak adj (0, 1) x rest of (l, c) \<Rightarrow> max l c))"

text \<open>The specification: a streak is a contiguous part of the sequence in which
  every element is adjacent to the one before it; the longest streak is the greatest
  length of a streak.\<close>

definition is_streak :: "('a \<Rightarrow> 'a \<Rightarrow> bool) \<Rightarrow> 'a list \<Rightarrow> bool" where
  "is_streak adj ys \<longleftrightarrow> successively (\<lambda>prev cur. adj cur prev) ys"

definition longest_streak_spec :: "('a \<Rightarrow> 'a \<Rightarrow> bool) \<Rightarrow> 'a list \<Rightarrow> int" where
  "longest_streak_spec adj xs =
     Max (set (map (\<lambda>ys. int (length ys)) (filter (is_streak adj) (sublists xs))))"

definition adjacency :: "string \<Rightarrow> datetime \<Rightarrow> datetime \<Rightarrow> bool" where
  "adjacency periodicity =
     (if periodicity = ''daily'' then daily_adjacent else weekly_adjacent)"

text \<open>\<open>parsed ss ds\<close>: every string of \<open>ss\<close> is accepted by \<open>strptime\<close>, with the
  datetimes \<open>ds\<close>.\<close>

abbreviation parsed :: "string list \<Rightarrow> datetime list \<Rightarrow> bool" where
  "parsed ss ds \<equiv> list_all2 (\<lambda>s d. strptime_datetime s = Inr d) ss ds"

section \<open>Vocabulary of the statements\<close>

text \<open>\<open>parses s\<close>: \<open>strptime\<close> accepts the string. \<open>all_parse db\<close>: it accepts
  every stored check-off. \<open>streak_of\<close>: the integer \<open>calculate_streak\<close> returns.
  \<open>best_streaks\<close>: the names whose value is the greatest, in the order of the list,
  where the greatest is at least 0 as in the code.\<close>

definition parses :: "string \<Rightarrow> bool" where
  "parses s = (case strptime_datetime s of Inl _ \<Rightarrow> False | Inr _ \<Rightarrow> True)"

definition all_parse :: "database \<Rightarrow> bool" where
  "all_parse db = list_all (\<lambda>t. parses (t_check_of_date t)) (tracker_rows db)"

definition streak_of :: "database \<Rightarrow> string \<Rightarrow> int" where
  "streak_of db n = (case calculate_streak db n of Inr (Streak k) \<Rightarrow> k | _ \<Rightarrow> 0)"

definition best_streaks :: "(string \<Rightarrow> int) \<Rightarrow> string list \<Rightarrow> (string \<times> int) list" where
  "best_streaks f names =
     filter (\<lambda>(n, s). s = Max (insert 0 (f ` set names))) (map (\<lambda>n. (n, f n)) names)"

text \<open>The parsed check-offs of habit \<open>workout\<close> in \<open>demo_db\<close>, and a database in which
  habit \<open>car wash\<close> has a single check-off that does not parse.\<close>

definition demo_dates :: "datetime list" where
  "demo_dates = [dt 2024 12 1 7 0 0, dt 2024 12 2 7 0 0, dt 2024 12 4 7 0 0]"

definition demo_single_db :: database where
  "demo_single_db =
     snd (increment_tracker demo_now (delete_tracker_data demo_db ''car wash'') ''car wash''
            (Some ''tomorrow''))"

section \<open>The scan computes the longest streak\<close>

text \<open>The length of the run that ends at the last element, on the reversed list.\<close>

fun run_back :: "('a \<Rightarrow> 'a \<Rightarrow> bool) \<Rightarrow> 'a list \<Rightarrow> nat" where
  "run_back adj [] = 0"
| "run_back adj [x] = 1"
| "run_back adj (x # p # ps) = (if adj x p then Suc (run_back adj (p # ps)) else 1)"

lemma is_streak_Nil [simp]: "is_streak adj []"
  by (simp add: is_streak_def)

lemma is_streak_single [simp]: "is_streak adj [x]"
  by (simp add: is_streak_def)

lemma is_streak_snoc2:
  "is_streak adj (ys @ [p, x]) \<longleftrightarrow> is_streak adj (ys @ [p]) \<and> adj x p"
  by (auto simp: is_streak_def successively_append_iff)

lemma run_back_pos: "xs \<noteq> [] \<Longrightarrow> 0 < run_back adj xs"
  by (induction adj xs rule: run_back.induct) auto

lemma run_back_le_length: "run_back adj xs \<le> length xs"
  by (induction adj xs rule: run_back.induct) auto

text \<open>Every streak at the end of the sequence is at most as long as \<open>run_back\<close>
  says, and one of them is that long.\<close>

lemma streak_suffix_le:
  assumes "suffix ys xs" and "is_streak adj ys"
  shows "length ys \<le> run_back adj (rev xs)"
  using assms
proof (induction xs arbitrary: ys rule: rev_induct)
  case Nil
  then show ?case by simp
next
  case (snoc x xs)
  show ?case
  proof (cases ys rule: rev_cases)
    case Nil
    then show ?thesis by simp
  next
    case ys: (snoc zs z)
    with snoc.prems(1) have z: "z = x" and zs: "suffix zs xs" by auto
    show ?thesis
    proof (cases zs rule: rev_cases)
      case Nil
      with ys show ?thesis using run_back_pos [of "rev (xs @ [x])" adj] by simp
    next
      case (snoc ws w)
      with zs obtain us where xs: "xs = us @ [w]" by (auto simp: suffix_def)
      from snoc.prems(2) ys z snoc have st: "is_streak adj (ws @ [w])" and adj: "adj x w"
        by (simp_all add: is_streak_snoc2)
      from snoc.IH [OF zs] st snoc have "length zs \<le> run_back adj (rev xs)" by simp
      with adj xs ys show ?thesis by simp
    qed
  qed
qed

lemma streak_suffix_exists:
  "\<exists>ys. suffix ys xs \<and> is_streak adj ys \<and> length ys = run_back adj (rev xs)"
proof (induction xs rule: rev_induct)
  case Nil
  show ?case by simp
next
  case (snoc x xs)
  show ?case
  proof (cases xs rule: rev_cases)
    case Nil
    then show ?thesis by (intro exI [of _ "[x]"]) simp
  next
    case xs: (snoc us w)
    show ?thesis
    proof (cases "adj x w")
      case False
      with xs show ?thesis by (intro exI [of _ "[x]"]) (simp add: suffix_def)
    next
      case True
      from snoc.IH obtain ys where ys: "suffix ys xs" "is_streak adj ys"
        "length ys = run_back adj (rev xs)" by blast
      from ys(3) xs have "ys \<noteq> []" using run_back_pos [of "rev xs" adj] by auto
      with ys(1) xs obtain vs where vs: "ys = vs @ [w]"
        by (cases ys rule: rev_cases) (auto simp: suffix_def)
      with ys(2) True have "is_streak adj (ys @ [x])"
        by (simp add: is_streak_snoc2)
      moreover from ys(1) have "suffix (ys @ [x]) (xs @ [x])" by simp
      ultimately show ?thesis using ys(3) xs True
        by (intro exI [of _ "ys @ [x]"]) simp
    qed
  qed
qed

lemma Max_streak_suffix:
  "Max ((\<lambda>ys. int (length ys)) ` {ys. suffix ys xs \<and> is_streak adj ys})
     = int (run_back adj (rev xs))"
proof (rule Max_eqI)
  have "finite {ys. suffix ys xs \<and> is_streak adj ys}"
    by (rule finite_subset [of _ "set (suffixes xs)"]) auto
  then show "finite ((\<lambda>ys. int (length ys)) ` {ys. suffix ys xs \<and> is_streak adj ys})"
    by (rule finite_imageI)
next
  fix n assume "n \<in> (\<lambda>ys. int (length ys)) ` {ys. suffix ys xs \<and> is_streak adj ys}"
  then show "n \<le> int (run_back adj (rev xs))"
    by (auto dest: streak_suffix_le)
next
  from streak_suffix_exists [of xs adj]
  show "int (run_back adj (rev xs)) \<in> (\<lambda>ys. int (length ys)) ` {ys. suffix ys xs \<and> is_streak adj ys}"
    by force
qed

lemma longest_streak_spec_alt:
  "longest_streak_spec adj xs = Max ((\<lambda>ys. int (length ys)) ` {ys. sublist ys xs \<and> is_streak adj ys})"
proof -
  have "set (filter (is_streak adj) (sublists xs)) = {ys. sublist ys xs \<and> is_streak adj ys}"
    by auto
  then show ?thesis by (simp add: longest_streak_spec_def)
qed

lemma finite_streaks: "finite {ys. sublist ys xs \<and> is_streak adj ys}"
  by (rule finite_subset [of _ "set (sublists xs)"]) auto

lemma longest_streak_spec_Nil [simp]: "longest_streak_spec adj [] = 0"
  by (simp add: longest_streak_spec_def)

lemma longest_streak_spec_snoc:
  "longest_streak_spec adj (xs @ [x]) =
     max (longest_streak_spec adj xs) (int (run_back adj (x # rev xs)))"
proof -
  let ?len = "\<lambda>ys. int (length ys)"
  let ?A = "{ys. sublist ys xs \<and> is_streak adj ys}"
  let ?B = "{ys. suffix ys (xs @ [x]) \<and> is_streak adj ys}"
  have split: "{ys. sublist ys (xs @ [x]) \<and> is_streak adj ys} = ?A \<union> ?B"
    by (auto simp: sublist_snoc)
  have finB: "finite ?B"
    by (rule finite_subset [of _ "set (suffixes (xs @ [x]))"]) auto
  have "[] \<in> ?A" "[] \<in> ?B" by auto
  then have ne: "?len ` ?A \<noteq> {}" "?len ` ?B \<noteq> {}" by blast+
  have "longest_streak_spec adj (xs @ [x]) = Max (?len ` ?A \<union> ?len ` ?B)"
    by (simp add: longest_streak_spec_alt split image_Un)
  also have "\<dots> = max (Max (?len ` ?A)) (Max (?len ` ?B))"
    using finite_streaks [of xs adj] finB ne by (intro Max_Un) simp_all
  also have "Max (?len ` ?B) = int (run_back adj (rev (xs @ [x])))"
    by (rule Max_streak_suffix)
  finally show ?thesis by (simp add: longest_streak_spec_alt)
qed

text \<open>The invariant of the scan after the elements \<open>pre @ [prev]\<close>: the current
  run is the run that ends at \<open>prev\<close>, and the greater of the two counters is the
  longest streak so far.\<close>

lemma scan_streak_invariant:
  assumes "snd lc = int (run_back adj (prev # rev pre))"
    and "max (fst lc) (snd lc) = longest_streak_spec adj (pre @ [prev])"
  shows "(case scan_streak adj lc prev rest of (l, c) \<Rightarrow> max l c)
           = longest_streak_spec adj (pre @ prev # rest)"
  using assms
proof (induction rest arbitrary: lc prev pre)
  case Nil
  then show ?case by (simp add: case_prod_beta)
next
  case (Cons cur rest)
  let ?lc = "if adj cur prev then (fst lc, snd lc + 1) else (max (fst lc) (snd lc), 1)"
  have run: "snd ?lc = int (run_back adj (cur # rev (pre @ [prev])))"
    using Cons.prems(1) by simp
  have "max (fst ?lc) (snd ?lc) = max (max (fst lc) (snd lc)) (snd ?lc)"
    by (simp add: max_def)
  also have "\<dots> = max (longest_streak_spec adj (pre @ [prev]))
      (int (run_back adj (cur # rev (pre @ [prev]))))"
    using Cons.prems(2) run by presburger
  also have "\<dots> = longest_streak_spec adj ((pre @ [prev]) @ [cur])"
    by (rule longest_streak_spec_snoc [symmetric])
  finally have spec: "max (fst ?lc) (snd ?lc) = longest_streak_spec adj ((pre @ [prev]) @ [cur])" .
  from Cons.IH [OF run spec] show ?case by simp
qed

lemma longest_streak_spec_single [simp]: "longest_streak_spec adj [x] = 1"
  using longest_streak_spec_snoc [of adj "[]" x] by simp

lemma longest_run_eq_spec: "longest_run adj xs = longest_streak_spec adj xs"
proof (cases xs)
  case Nil
  then show ?thesis by (simp add: longest_run_def)
next
  case (Cons x rest)
  have "(case scan_streak adj (0, 1) x rest of (l, c) \<Rightarrow> max l c)
      = longest_streak_spec adj ([] @ x # rest)"
    by (rule scan_streak_invariant) simp_all
  with Cons show ?thesis by (simp add: longest_run_def)
qed

lemma longest_streak_spec_bounds:
  "(if xs = [] then 0 else 1) \<le> longest_streak_spec adj xs"
  "longest_streak_spec adj xs \<le> int (length xs)"
proof -
  let ?S = "(\<lambda>ys. int (length ys)) ` {ys. sublist ys xs \<and> is_streak adj ys}"
  have fin: "finite ?S" using finite_streaks by (rule finite_imageI)
  have "take 1 xs \<in> {ys. sublist ys xs \<and> is_streak adj ys}"
    by (cases xs) auto
  then have "int (length (take 1 xs)) \<in> ?S" by (rule imageI)
  with fin have "int (length (take 1 xs)) \<le> Max ?S" by (rule Max_ge)
  then show "(if xs = [] then 0 else 1) \<le> longest_streak_spec adj xs"
    by (cases xs) (simp_all add: longest_streak_spec_alt)
  have "?S \<noteq> {}" using \<open>int (length (take 1 xs)) \<in> ?S\<close> by blast
  with fin have "Max ?S \<in> ?S" by (rule Max_in)
  then show "longest_streak_spec adj xs \<le> int (length xs)"
    by (auto simp: longest_streak_spec_alt dest: sublist_length_le)
qed

section \<open>The loop over the stored strings\<close>

lemma streak_step_known:
  assumes "periodicity = ''daily'' \<or> periodicity = ''weekly''"
  shows "streak_step periodicity lc cur prev =
    (if adjacency periodicity cur prev then (fst lc, snd lc + 1)
     else (max (fst lc) (snd lc), 1))"
  using assms by (auto simp: streak_step_def adjacency_def split: prod.splits)

lemma streak_step_unknown:
  assumes "periodicity \<noteq> ''daily''" and "periodicity \<noteq> ''weekly''"
  shows "streak_step periodicity lc cur prev = lc"
  using assms by (simp add: streak_step_def split: prod.splits)

lemma streak_loop_scan:
  assumes "periodicity = ''daily'' \<or> periodicity = ''weekly''"
    and "strptime_datetime prev = Inr p" and "parsed rest ds"
  shows "streak_loop periodicity lc prev rest = Inr (scan_streak (adjacency periodicity) lc p ds)"
  using assms(3,2)
proof (induction rest ds arbitrary: lc prev p rule: list_all2_induct)
  case Nil
  show ?case by simp
next
  case (Cons s d rest ds)
  from Cons.IH [OF Cons.hyps(1)] Cons.hyps(1) Cons.prems show ?case
    by (simp add: streak_step_known [OF assms(1)])
qed

lemma streak_loop_unknown:
  assumes "periodicity \<noteq> ''daily''" and "periodicity \<noteq> ''weekly''"
    and "strptime_datetime prev = Inr p" and "parsed rest ds"
  shows "streak_loop periodicity lc prev rest = Inr lc"
  using assms(4,3)
proof (induction rest ds arbitrary: prev p rule: list_all2_induct)
  case Nil
  show ?case by simp
next
  case (Cons s d rest ds)
  from Cons.IH [OF Cons.hyps(1)] Cons.hyps(1) Cons.prems show ?case
    by (simp add: streak_step_unknown [OF assms(1,2)])
qed

text \<open>A string that \<open>strptime\<close> rejects makes the loop raise, unless it is the only
  check-off: with a single element the loop body never runs.\<close>

lemma streak_loop_ValueError:
  assumes "\<exists>s \<in> set (prev # rest). strptime_datetime s = Inl ValueError"
    and "rest \<noteq> []"
    and "\<And>s e. strptime_datetime s = Inl e \<Longrightarrow> e = ValueError"
  shows "streak_loop periodicity lc prev rest = Inl ValueError"
  using assms(1,2)
proof (induction rest arbitrary: lc prev)
  case Nil
  then show ?case by simp
next
  case (Cons cur rest)
  show ?case
  proof (cases "strptime_datetime cur")
    case (Inl e)
    with assms(3) show ?thesis by auto
  next
    case cur: (Inr cd)
    show ?thesis
    proof (cases "strptime_datetime prev")
      case (Inl e)
      with assms(3) cur show ?thesis by auto
    next
      case (Inr pd)
      with Cons.prems cur have bad: "\<exists>s \<in> set (cur # rest). strptime_datetime s = Inl ValueError"
        and "rest \<noteq> []"
        by auto
      from Cons.IH [OF this] cur Inr show ?thesis by simp
    qed
  qed
qed

lemma strptime_datetime_error: "strptime_datetime s = Inl e \<Longrightarrow> e = ValueError"
  by (auto simp: strptime_datetime_def mk_datetime_def split: list.splits prod.splits if_splits)

section \<open>calculate\_streak\<close>

lemma check_off_dates_eq_Nil_iff:
  "check_off_dates db n = [] \<longleftrightarrow> events_of db n = []"
  by (simp add: check_off_dates_def)

lemma set_check_off_dates:
  "set (check_off_dates db n) = t_check_of_date ` set (events_of db n)"
  by (simp add: check_off_dates_def)

lemma length_check_off_dates: "length (check_off_dates db n) = length (events_of db n)"
  by (simp add: check_off_dates_def)

lemma sorted_check_off_dates: "sorted (check_off_dates db n)"
  by (simp add: check_off_dates_def)

lemma events_imp_habit:
  assumes "fk_ok db" and "events_of db n \<noteq> []"
  shows "habits_named db n \<noteq> []"
proof -
  from assms(2) obtain t where "t \<in> set (tracker_rows db)" "t_habit_name t = n"
    by (auto simp: events_of_def filter_empty_conv)
  with assms(1) show ?thesis
    by (auto simp: fk_ok_def habits_named_eq_Nil_iff)
qed

lemma streak_loop_error: "streak_loop periodicity lc prev rest = Inl e \<Longrightarrow> e = ValueError"
proof (induction rest arbitrary: lc prev)
  case Nil
  then show ?case by simp
next
  case (Cons cur rest)
  then show ?case
    by (auto split: sum.splits dest: strptime_datetime_error)
qed

lemma calculate_streak_not_found:
  "\<not> proof_habit db n \<Longrightarrow> calculate_streak db n = Inr (StreakNotFound n)"
  by (simp add: calculate_streak_def)

lemma calculate_streak_no_events:
  assumes "proof_habit db n" and "events_of db n = []"
  shows "calculate_streak db n = Inr (Streak 0)"
proof -
  from assms(2) have "check_off_dates db n = []" by (simp add: check_off_dates_eq_Nil_iff)
  with assms(1) show ?thesis by (simp add: calculate_streak_def)
qed

lemma calculate_streak_stored:
  assumes "unique_names db" and "r \<in> set (habit_rows db)"
  shows "calculate_streak db (h_name r) =
    (case check_off_dates db (h_name r) of
       [] \<Rightarrow> Inr (Streak 0)
     | first # rest \<Rightarrow>
         (case streak_loop (h_periodicity r) (0, 1) first rest of
            Inl e \<Rightarrow> Inl e
          | Inr (l, c) \<Rightarrow> Inr (Streak (max l c))))"
  using assms
  by (cases "check_off_dates db (h_name r)")
    (simp_all add: calculate_streak_def proof_habit_stored unique_names_named)

lemma calculate_streak_errors:
  assumes "fk_ok db" and "calculate_streak db n = Inl e"
  shows "e = ValueError"
proof (cases "check_off_dates db n")
  case Nil
  with assms(2) show ?thesis by (simp add: calculate_streak_def split: if_splits)
next
  case (Cons first rest)
  then have "events_of db n \<noteq> []" by (auto simp: check_off_dates_eq_Nil_iff [symmetric])
  with assms(1) have "habits_named db n \<noteq> []" by (rule events_imp_habit)
  then obtain p where "fetchone (map h_periodicity (habits_named db n)) = Some p"
    by (cases "habits_named db n") auto
  with assms(2) Cons show ?thesis
    by (auto simp: calculate_streak_def split: if_splits sum.splits dest: streak_loop_error)
qed

section \<open>The aggregator returns the best streaks\<close>

lemma Max_insert2:
  fixes a b :: int
  assumes "finite A"
  shows "Max (insert a (insert b A)) = max a (Max (insert b A))"
  using assms by simp

lemma across_loop_spec:
  assumes "\<forall>n \<in> set names. calculate_streak db n = Inr (Streak (f n))"
  shows "across_loop db (L, found) names =
     Inr ((if Max (insert L (f ` set names)) = L then found else []) @
          filter (\<lambda>(n, s). s = Max (insert L (f ` set names))) (map (\<lambda>n. (n, f n)) names))"
  using assms
proof (induction names arbitrary: L found)
  case Nil
  show ?case by simp
next
  case (Cons n rest)
  let ?M = "\<lambda>L. Max (insert L (f ` set rest))"
  have M1: "Max (insert L (f ` set (n # rest))) = max L (?M (f n))"
    by (simp add: Max_insert2)
  have M2: "Max (insert L (f ` set (n # rest))) = max (f n) (?M L)"
    by (simp add: Max_insert2 insert_commute [of L])
  have ge: "L \<le> ?M L" "f n \<le> ?M (f n)" by simp_all
  from Cons.prems have n: "calculate_streak db n = Inr (Streak (f n))"
    and rest: "\<forall>n \<in> set rest. calculate_streak db n = Inr (Streak (f n))" by simp_all
  note IH = Cons.IH [OF rest]
  consider (gt) "f n > L" | (eq) "f n = L" | (lt) "f n < L" by linarith
  then show ?case
  proof cases
    case gt
    with ge(2) have "max L (?M (f n)) = ?M (f n)" "?M (f n) \<noteq> L" by linarith+
    with gt show ?thesis unfolding M1 by (simp add: n IH)
  next
    case eq
    with ge(1) have "max (f n) (?M L) = ?M L" by linarith
    with eq show ?thesis unfolding M2 by (simp add: n IH)
  next
    case lt
    with ge(1) have "max (f n) (?M L) = ?M L" "f n \<noteq> ?M L" by linarith+
    with lt show ?thesis unfolding M2 by (simp add: n IH)
  qed
qed

lemma longest_streak_across_best:
  assumes "\<forall>r \<in> set (habit_rows db). calculate_streak db (h_name r) = Inr (Streak (f (h_name r)))"
  shows "longest_streak_across db = Inr (best_streaks f (map h_name (habit_rows db)))"
  using across_loop_spec [of "map h_name (habit_rows db)" db f 0 "[]"] assms
  by (simp add: longest_streak_across_def best_streaks_def)

lemma streak_loop_total:
  assumes "\<forall>s \<in> set (prev # rest). parses s"
  shows "\<exists>lc'. streak_loop p lc prev rest = Inr lc'"
  using assms
proof (induction rest arbitrary: lc prev)
  case Nil
  show ?case by simp
next
  case (Cons cur rest)
  then show ?case by (auto simp: parses_def split: sum.splits)
qed

lemma all_parse_check_off_dates:
  assumes "all_parse db" and "s \<in> set (check_off_dates db n)"
  shows "parses s"
  using assms by (auto simp: all_parse_def list_all_iff set_check_off_dates events_of_def)

lemma calculate_streak_total:
  assumes "fk_ok db" and "all_parse db" and "proof_habit db n"
  shows "calculate_streak db n = Inr (Streak (streak_of db n))"
proof (cases "check_off_dates db n")
  case Nil
  with assms(3) show ?thesis by (simp add: calculate_streak_def streak_of_def)
next
  case (Cons first rest)
  then have "events_of db n \<noteq> []" by (auto simp: check_off_dates_eq_Nil_iff [symmetric])
  with assms(1) have "habits_named db n \<noteq> []" by (rule events_imp_habit)
  then obtain p where p: "fetchone (map h_periodicity (habits_named db n)) = Some p"
    by (cases "habits_named db n") auto
  have "\<forall>s \<in> set (first # rest). parses s"
    using all_parse_check_off_dates [OF assms(2), of _ n] Cons by simp
  from streak_loop_total [OF this] obtain l c where
    "streak_loop p (0, 1) first rest = Inr (l, c)" by fastforce
  with Cons p assms(3) show ?thesis by (simp add: calculate_streak_def streak_of_def)
qed

lemma across_loop_error:
  assumes "fk_ok db" and "\<forall>n \<in> set names. proof_habit db n"
    and "across_loop db (L, found) names = Inl e"
  shows "e = ValueError"
  using assms(2,3)
proof (induction names arbitrary: L found)
  case Nil
  then show ?case by simp
next
  case (Cons n rest)
  show ?case
  proof (cases "calculate_streak db n")
    case (Inl e')
    with Cons.prems(2) calculate_streak_errors [OF assms(1) Inl] show ?thesis by simp
  next
    case (Inr res)
    from Cons.prems(1) have "proof_habit db n" by simp
    with Inr obtain k where "res = Streak k"
      by (cases res) (auto simp: calculate_streak_def split: list.splits option.splits sum.splits)
    with Inr Cons.prems Cons.IH show ?thesis by (auto split: if_splits)
  qed
qed

lemma longest_streak_across_error:
  assumes "fk_ok db" and "longest_streak_across db = Inl e"
  shows "e = ValueError"
  using across_loop_error [OF assms(1), of "map h_name (habit_rows db)" 0 "[]" e] assms(2)
  by (simp add: longest_streak_across_def proof_habit_stored)

lemma calculate_streak_run:
  assumes "unique_names db" and "r \<in> set (habit_rows db)"
    and "h_periodicity r = ''daily'' \<or> h_periodicity r = ''weekly''"
    and "parsed (check_off_dates db (h_name r)) ds"
  shows "calculate_streak db (h_name r) =
    Inr (Streak (longest_run (adjacency (h_periodicity r)) ds))"
proof (cases "check_off_dates db (h_name r)")
  case Nil
  with assms(4) have "ds = []" by simp
  with Nil assms(1,2) show ?thesis by (simp add: calculate_streak_stored longest_run_def)
next
  case (Cons first rest)
  with assms(4) obtain d ds' where ds: "ds = d # ds'" "strptime_datetime first = Inr d"
    "parsed rest ds'"
    by (auto simp: list_all2_Cons1)
  from streak_loop_scan [OF assms(3) ds(2,3)]
  have "streak_loop (h_periodicity r) (0, 1) first rest =
      Inr (scan_streak (adjacency (h_periodicity r)) (0, 1) d ds')" .
  then show ?thesis using Cons ds(1) assms(1,2)
    by (simp add: calculate_streak_stored longest_run_def split: prod.splits)
qed

section \<open>The weekly rule in terms of consecutive weeks\<close>

lemma weekly_adjacent_pairs:
  assumes "iso_year_week prev = (iy, w)" and "iso_year_week cur = (iy', w')"
  shows "weekly_adjacent cur prev \<longleftrightarrow>
    (iy' = iy \<and> w' = w + 1) \<or> (iy' = iy + 1 \<and> w = 52 \<and> w' = 1)"
  by (simp add: weekly_adjacent_def assms)

lemma weekly_adjacent_index:
  assumes "valid_datetime cur" and "valid_datetime prev"
    and "iso_year_week prev = (iy, w)" and "weekly_adjacent cur prev"
  shows "(iso_week_index cur = iso_week_index prev + 1 \<and> w \<noteq> 53) \<or>
    (iso_week_index cur = iso_week_index prev + 2 \<and> w = 52 \<and> iso_weeks_in_year iy = 53)"
proof -
  obtain iy' w' where c: "iso_year_week cur = (iy', w')" by (cases "iso_year_week cur")
  note p = iso_year_week_spec [OF assms(2,3)]
  note q = iso_year_week_spec [OF assms(1) c]
  note k = iso_weeks_in_year_cases [of iy]
  from assms(4) weekly_adjacent_pairs [OF assms(3) c]
  consider "iy' = iy" "w' = w + 1" | "iy' = iy + 1" "w = 52" "w' = 1" by blast
  then show ?thesis
  proof cases
    case 1
    with p q k show ?thesis by auto
  next
    case 2
    with p q k show ?thesis by (auto simp: week_base_Suc)
  qed
qed

lemma index_weekly_adjacent:
  assumes "valid_datetime cur" and "valid_datetime prev"
    and "iso_year_week prev = (iy, w)"
    and r: "(iso_week_index cur = iso_week_index prev + 1 \<and> w \<noteq> 53) \<or>
      (iso_week_index cur = iso_week_index prev + 2 \<and> w = 52 \<and> iso_weeks_in_year iy = 53)"
  shows "weekly_adjacent cur prev"
proof -
  obtain iy' w' where c: "iso_year_week cur = (iy', w')" by (cases "iso_year_week cur")
  note p = iso_year_week_spec [OF assms(2,3)]
  note q = iso_year_week_spec [OF assms(1) c]
  note k = iso_weeks_in_year_cases [of iy]
  note adj = weekly_adjacent_pairs [OF assms(3) c]
  have wrap: "iy + 1 = iy' \<and> 1 = w'"
    if "week_base iy + iso_weeks_in_year iy + 1 = week_base iy' + w'"
  proof (rule iso_week_unique)
    show "week_base (iy + 1) + 1 = week_base iy' + w'" using that by (simp add: week_base_Suc)
    show "1 \<le> iso_weeks_in_year (iy + 1)" using iso_weeks_in_year_cases [of "iy + 1"] by auto
  qed (use q in simp_all)
  have same: "iy = iy' \<and> w + 1 = w'"
    if "week_base iy + w + 1 = week_base iy' + w'" "w < iso_weeks_in_year iy"
    by (rule iso_week_unique) (use that p q in simp_all)
  show ?thesis
  proof (cases "w < iso_weeks_in_year iy \<and> iso_week_index cur = iso_week_index prev + 1")
    case True
    with p q same show ?thesis by (simp add: adj)
  next
    case False
    with r p k have w: "w = 52" by auto
    from False r p q k have "week_base iy + iso_weeks_in_year iy + 1 = week_base iy' + w'"
      by auto
    from wrap [OF this] w show ?thesis by (simp add: adj)
  qed
qed

section \<open>Bounds of the streak\<close>

lemma streak_step_bounds:
  assumes "0 \<le> fst lc" "fst lc \<le> k" "1 \<le> snd lc" "snd lc \<le> k"
  shows "0 \<le> fst (streak_step p lc cur prev) \<and> fst (streak_step p lc cur prev) \<le> k + 1 \<and>
    1 \<le> snd (streak_step p lc cur prev) \<and> snd (streak_step p lc cur prev) \<le> k + 1"
  using assms by (cases lc) (auto simp: streak_step_def)

lemma streak_loop_bounds:
  assumes "streak_loop p lc prev rest = Inr (l, c)"
    and "0 \<le> fst lc" "fst lc \<le> k" "1 \<le> snd lc" "snd lc \<le> k"
  shows "1 \<le> max l c \<and> max l c \<le> k + int (length rest)"
  using assms
proof (induction rest arbitrary: lc prev k)
  case Nil
  then show ?case by auto
next
  case (Cons cur rest)
  from Cons.prems(1) obtain d e where "strptime_datetime cur = Inr d"
    "strptime_datetime prev = Inr e"
    and loop: "streak_loop p (streak_step p lc d e) cur rest = Inr (l, c)"
    by (auto split: sum.splits)
  from Cons.IH [OF loop, of "k + 1"] streak_step_bounds [OF Cons.prems(2-5), of p d e]
  show ?case by simp
qed

lemma calculate_streak_bounds:
  assumes "calculate_streak db n = Inr (Streak k)"
  shows "(if calculate_count db n = 0 then 0 else 1) \<le> k" and "k \<le> calculate_count db n"
proof -
  have len: "calculate_count db n = int (length (check_off_dates db n))"
    by (simp add: calculate_count_def get_habit_data_def length_check_off_dates)
  have "(if calculate_count db n = 0 then 0 else 1) \<le> k \<and> k \<le> calculate_count db n"
  proof (cases "check_off_dates db n")
    case Nil
    with assms len show ?thesis by (simp add: calculate_streak_def split: if_splits)
  next
    case (Cons first rest)
    with assms obtain p l c where "streak_loop p (0, 1) first rest = Inr (l, c)" "k = max l c"
      by (auto simp: calculate_streak_def split: if_splits option.splits sum.splits)
    with streak_loop_bounds [of p "(0, 1)" first rest l c 1] Cons len show ?thesis by simp
  qed
  then show "(if calculate_count db n = 0 then 0 else 1) \<le> k" and "k \<le> calculate_count db n"
    by simp_all
qed

section \<open>Check-offs written by the program\<close>

lemma sorted_strftime:
  assumes "\<forall>t \<in> set ts. valid_datetime t \<and> 1000 \<le> dt_year t" and "sorted (map epoch ts)"
  shows "sorted (map strftime_datetime ts)"
proof -
  from assms(2) have "sorted_wrt (\<lambda>a b. epoch a \<le> epoch b) ts"
    by (simp add: sorted_map)
  then have "sorted_wrt (\<lambda>a b. strftime_datetime a \<le> strftime_datetime b) ts"
  proof (rule sorted_wrt_mono_rel [rotated])
    fix a b assume "a \<in> set ts" "b \<in> set ts" "epoch a \<le> epoch b"
    with assms(1) show "strftime_datetime a \<le> strftime_datetime b"
      by (simp add: strftime_le_iff dt_fields_le_iff)
  qed
  then show ?thesis by (simp add: sorted_map)
qed

lemma sort_strftime:
  assumes "\<forall>t \<in> set ts. valid_datetime t \<and> 1000 \<le> dt_year t"
  shows "sort (map strftime_datetime ts) = map strftime_datetime (sort_key epoch ts)"
proof (rule properties_for_sort)
  show "mset (map strftime_datetime (sort_key epoch ts)) = mset (map strftime_datetime ts)"
    by simp
  from assms show "sorted (map strftime_datetime (sort_key epoch ts))"
    by (intro sorted_strftime) simp_all
qed

lemma parsed_strftime:
  assumes "\<forall>t \<in> set ts. valid_datetime t \<and> 1000 \<le> dt_year t"
  shows "parsed (map strftime_datetime ts) ts"
  using assms by (simp add: list_all2_map1 list_all2_same strptime_strftime)

lemma check_off_dates_stamps:
  assumes "map t_check_of_date (events_of db n) = map strftime_datetime ts"
    and "\<forall>t \<in> set ts. valid_datetime t \<and> 1000 \<le> dt_year t"
  shows "check_off_dates db n = map strftime_datetime (sort_key epoch ts)"
  by (simp add: check_off_dates_def assms(1) sort_strftime [OF assms(2)])

lemma calculate_streak_stamps:
  assumes "unique_names db" and "r \<in> set (habit_rows db)"
    and "h_periodicity r = ''daily'' \<or> h_periodicity r = ''weekly''"
    and "map t_check_of_date (events_of db (h_name r)) = map strftime_datetime ts"
    and "\<forall>t \<in> set ts. valid_datetime t \<and> 1000 \<le> dt_year t"
  shows "calculate_streak db (h_name r) =
    Inr (Streak (longest_run (adjacency (h_periodicity r)) (sort_key epoch ts)))"
proof -
  from assms(5) have "parsed (map strftime_datetime (sort_key epoch ts)) (sort_key epoch ts)"
    by (intro parsed_strftime) simp
  then have "parsed (check_off_dates db (h_name r)) (sort_key epoch ts)"
    by (simp add: check_off_dates_stamps [OF assms(4,5)])
  from calculate_streak_run [OF assms(1-3) this] show ?thesis .
qed

section \<open>Properties of the analytics layer\<close>

text \<open>C1. \<open>calculate_streak\<close> computes the longest streak. For a stored habit whose
  periodicity is \<open>daily\<close> or \<open>weekly\<close> and whose check-off strings, sorted as text,
  parse to the datetimes \<open>ds\<close>, the method returns the greatest length of a
  contiguous part of \<open>ds\<close> in which every check-off is adjacent to the one before it
  under the rule of that periodicity (and 0 when there is no check-off).\<close>

theorem calculate_streak_refines:
  assumes "unique_names db" and "r \<in> set (habit_rows db)"
    and "h_periodicity r = ''daily'' \<or> h_periodicity r = ''weekly''"
    and "parsed (check_off_dates db (h_name r)) ds"
  shows "calculate_streak db (h_name r) =
    Inr (Streak (longest_streak_spec (adjacency (h_periodicity r)) ds))"
  by (simp add: calculate_streak_run [OF assms] longest_run_eq_spec)

theorem calculate_streak_refines_witness:
  "calculate_streak demo_db (h_name demo_row) =
     Inr (Streak (longest_streak_spec (adjacency (h_periodicity demo_row)) demo_dates))"
  by (rule calculate_streak_refines; code_simp)



text \<open>C4. The weekly rule against consecutive ISO weeks. For valid datetimes, with \<open>w\<close>
  the ISO week of the earlier check-off and \<open>iy\<close> its ISO year, the test of the code
  holds exactly when the later check-off is in the next week and \<open>w\<close> is not 53, or
  it is two weeks later, \<open>w\<close> is 52 and the year \<open>iy\<close> has 53 weeks. So the rule
  is the next-week test except at a week 53: it rejects week 53 followed by week 1
  and accepts week 52 followed by week 1 across a skipped week 53.\<close>

theorem weekly_adjacent_iff:
  assumes "valid_datetime cur" and "valid_datetime prev"
    and "iso_year_week prev = (iy, w)"
  shows "weekly_adjacent cur prev \<longleftrightarrow>
    (iso_week_index cur = iso_week_index prev + 1 \<and> w \<noteq> 53) \<or>
    (iso_week_index cur = iso_week_index prev + 2 \<and> w = 52 \<and> iso_weeks_in_year iy = 53)"
  using weekly_adjacent_index [OF assms] index_weekly_adjacent [OF assms] by blast

theorem weekly_adjacent_iff_witness:
  "\<not> weekly_adjacent (dt 2021 1 4 9 0 0) (dt 2020 12 28 9 0 0) \<and>
   iso_week_index (dt 2021 1 4 9 0 0) = iso_week_index (dt 2020 12 28 9 0 0) + 1 \<and>
   weekly_adjacent (dt 2021 1 4 9 0 0) (dt 2020 12 21 9 0 0) \<and>
   iso_week_index (dt 2021 1 4 9 0 0) = iso_week_index (dt 2020 12 21 9 0 0) + 2"
  using weekly_adjacent_iff [of "dt 2021 1 4 9 0 0" "dt 2020 12 28 9 0 0" 2020 53]
    weekly_adjacent_iff [of "dt 2021 1 4 9 0 0" "dt 2020 12 21 9 0 0" 2020 52]
  by code_simp

text \<open>C7. The daily rule against calendar days. For valid datetimes the test
  \<open>(current - previous).days == 1\<close> holds exactly when the later check-off is on the
  next calendar day at the same or a later time of day, or on the day after that at
  an earlier time of day: it measures elapsed time, not the difference of the dates.\<close>

theorem daily_adjacent_iff:
  assumes "valid_datetime cur" and "valid_datetime prev"
  shows "daily_adjacent cur prev \<longleftrightarrow>
    (if seconds_of_day cur < seconds_of_day prev
     then toordinal cur = toordinal prev + 2 else toordinal cur = toordinal prev + 1)"
  by (auto simp: daily_adjacent_def timedelta_days_cases [OF assms])

theorem daily_adjacent_iff_witness:
  "\<not> daily_adjacent (dt 2024 12 2 1 0 0) (dt 2024 12 1 23 0 0) \<and>
   toordinal (dt 2024 12 2 1 0 0) = toordinal (dt 2024 12 1 23 0 0) + 1 \<and>
   daily_adjacent (dt 2024 12 3 6 0 0) (dt 2024 12 1 7 0 0) \<and>
   toordinal (dt 2024 12 3 6 0 0) = toordinal (dt 2024 12 1 7 0 0) + 2"
  using daily_adjacent_iff [of "dt 2024 12 2 1 0 0" "dt 2024 12 1 23 0 0"]
    daily_adjacent_iff [of "dt 2024 12 3 6 0 0" "dt 2024 12 1 7 0 0"]
  by code_simp

text \<open>C25. On a database that satisfies the foreign key, \<open>calculate_streak\<close> never
  raises \<open>TypeError\<close>: when a habit name has check-offs, the row whose periodicity
  the method subscripts exists. The only exception it can raise is \<open>ValueError\<close>.\<close>

theorem calculate_streak_raises_only_ValueError:
  assumes "fk_ok db"
  shows "case calculate_streak db n of Inl e \<Rightarrow> e = ValueError | Inr _ \<Rightarrow> True"
  using calculate_streak_errors [OF assms, of n] by (simp split: sum.split)

theorem calculate_streak_raises_only_ValueError_witness:
  "calculate_streak demo_odd_db ''nap'' \<noteq> Inl TypeError \<and>
   calculate_streak demo_odd_db ''nap'' = Inl ValueError"
  using calculate_streak_raises_only_ValueError [of demo_odd_db "''nap''"] by code_simp

text \<open>C26. A check-off string that \<open>strptime\<close> rejects makes \<open>calculate_streak\<close> raise
  \<open>ValueError\<close> as soon as the habit has two or more check-offs.\<close>

theorem calculate_streak_unparsable:
  assumes "fk_ok db" and "proof_habit db n"
    and "s \<in> set (check_off_dates db n)" and "strptime_datetime s = Inl ValueError"
    and "2 \<le> length (check_off_dates db n)"
  shows "calculate_streak db n = Inl ValueError"
proof (cases "check_off_dates db n")
  case Nil
  with assms(5) show ?thesis by simp
next
  case (Cons first rest)
  then have "events_of db n \<noteq> []" by (auto simp: check_off_dates_eq_Nil_iff [symmetric])
  with assms(1) have "habits_named db n \<noteq> []" by (rule events_imp_habit)
  then obtain p where p: "fetchone (map h_periodicity (habits_named db n)) = Some p"
    by (cases "habits_named db n") auto
  from Cons assms(3,4,5) have "streak_loop p (0, 1) first rest = Inl ValueError"
    by (intro streak_loop_ValueError) (auto dest: strptime_datetime_error)
  with Cons p assms(2) show ?thesis by (simp add: calculate_streak_def)
qed

theorem calculate_streak_unparsable_witness:
  "calculate_streak demo_odd_db ''nap'' = Inl ValueError"
  by (rule calculate_streak_unparsable [where s = "''noon''"]; code_simp)

text \<open>C36. With exactly one check-off the loop body never runs: \<open>calculate_streak\<close>
  returns 1 whatever the stored string and the periodicity are, so a single
  unparsable check-off goes unnoticed.\<close>

theorem calculate_streak_single:
  assumes "fk_ok db" and "proof_habit db n" and "check_off_dates db n = [s]"
  shows "calculate_streak db n = Inr (Streak 1)"
proof -
  from assms(3) have "events_of db n \<noteq> []" by (auto simp: check_off_dates_eq_Nil_iff [symmetric])
  with assms(1) have "habits_named db n \<noteq> []" by (rule events_imp_habit)
  then obtain p where p: "fetchone (map h_periodicity (habits_named db n)) = Some p"
    by (cases "habits_named db n") auto
  with assms(2,3) show ?thesis by (simp add: calculate_streak_def)
qed

theorem calculate_streak_single_witness:
  "calculate_streak demo_single_db ''car wash'' = Inr (Streak 1)"
  by (rule calculate_streak_single [where s = "''tomorrow''"]; code_simp)

text \<open>C35. A periodicity other than \<open>daily\<close> and \<open>weekly\<close> is not refused: for a stored
  habit with such a periodicity and at least one check-off, all of them parsable,
  \<open>calculate_streak\<close> returns 1.\<close>

theorem calculate_streak_unknown:
  assumes "unique_names db" and "r \<in> set (habit_rows db)"
    and "h_periodicity r \<noteq> ''daily''" and "h_periodicity r \<noteq> ''weekly''"
    and "parsed (check_off_dates db (h_name r)) ds" and "ds \<noteq> []"
  shows "calculate_streak db (h_name r) = Inr (Streak 1)"
proof (cases "check_off_dates db (h_name r)")
  case Nil
  with assms(5,6) show ?thesis by simp
next
  case (Cons first rest)
  with assms(5) obtain d ds' where ds: "strptime_datetime first = Inr d" "parsed rest ds'"
    by (auto simp: list_all2_Cons1)
  from streak_loop_unknown [OF assms(3,4) ds] Cons assms(1,2) show ?thesis
    by (simp add: calculate_streak_stored)
qed

theorem calculate_streak_unknown_witness:
  "calculate_streak demo_odd_db
     (h_name \<lparr>h_id = 3, h_name = ''read'', h_description = ''a chapter'',
              h_periodicity = ''monthly'', h_date = ''2024-12-01 00:00:00''\<rparr>) = Inr (Streak 1)"
  by (rule calculate_streak_unknown [where ds = "[dt 2024 12 1 21 0 0, dt 2024 12 2 21 0 0]"];
      code_simp)

text \<open>C38. \<open>longest_streak_across\<close> never compares a not-found message with an integer:
  on a database that satisfies the foreign key it raises no \<open>TypeError\<close>, because
  every name it passes to \<open>calculate_streak\<close> is the name of a stored habit.\<close>

theorem longest_streak_across_raises_only_ValueError:
  assumes "fk_ok db"
  shows "case longest_streak_across db of Inl e \<Rightarrow> e = ValueError | Inr _ \<Rightarrow> True"
  using longest_streak_across_error [OF assms] by (simp split: sum.split)

theorem longest_streak_across_raises_only_ValueError_witness:
  "longest_streak_across demo_odd_db \<noteq> Inl TypeError \<and>
   longest_streak_across demo_odd_db = Inl ValueError"
  using longest_streak_across_raises_only_ValueError [of demo_odd_db] by code_simp



text \<open>C18. The streak is bounded by the number of check-offs. Whenever
  \<open>calculate_streak\<close> returns an integer, for any periodicity and any database, the
  integer is 0 when the habit has no check-off, and otherwise at least 1 and at most
  the number of check-offs that \<open>calculate_count\<close> reports.\<close>

theorem calculate_streak_within_count:
  assumes "calculate_streak db n = Inr (Streak k)"
  shows "(if calculate_count db n = 0 then 0 else 1) \<le> k \<and> k \<le> calculate_count db n"
  using calculate_streak_bounds [OF assms] by simp

theorem calculate_streak_within_count_witness:
  "(if calculate_count demo_db ''workout'' = 0 then 0 else 1) \<le> (2::int) \<and>
   2 \<le> calculate_count demo_db ''workout''"
  by (rule calculate_streak_within_count; code_simp)

text \<open>C17. Text order is chronological order. The query of \<open>calculate_streak\<close> sorts
  the check-offs as text. When the stored strings of a habit are timestamps that the
  program printed from valid datetimes \<open>ts\<close> of the year 1000 or later, the sorted
  column is the list of the timestamps of \<open>ts\<close> sorted by time.\<close>

theorem check_off_dates_chronological:
  assumes "map t_check_of_date (events_of db n) = map strftime_datetime ts"
    and "\<forall>t \<in> set ts. valid_datetime t \<and> 1000 \<le> dt_year t"
  shows "check_off_dates db n = map strftime_datetime (sort_key epoch ts)"
  using assms by (rule check_off_dates_stamps)

theorem check_off_dates_chronological_witness:
  "check_off_dates demo_db ''workout'' = map strftime_datetime (sort_key epoch demo_dates)"
  by (rule check_off_dates_chronological; code_simp)

end
