(* ===== verification/Wellformed.thy ===== *)
theory Wellformed
  imports Habits Analytics
begin

text \<open>
  The well-formedness of a database that the application maintains on top of the
  constraints of the schema: names are normalised, every periodicity is \<open>daily\<close>
  or \<open>weekly\<close>, and every stored check-off is a timestamp that both \<open>strptime\<close>
  and SQLite read. The lemmas show that the methods of \<open>Database\<close> and \<open>DBHabit\<close>
  keep it when they are called with the arguments the command-line interface passes,
  and that on a well-formed database no method of \<open>DBHabit\<close> or \<open>Analytics\<close>
  raises anything but the \<open>IntegrityError\<close> of a rename.
\<close>

section \<open>Well-formed databases\<close>

text \<open>A reading of the clock that \<open>strftime\<close> prints with four digits of the year.\<close>

definition clock_ok :: "datetime \<Rightarrow> bool" where
  "clock_ok now \<longleftrightarrow> valid_datetime now \<and> 1000 \<le> dt_year now"

definition stamp_ok :: "string \<Rightarrow> bool" where
  "stamp_ok s \<longleftrightarrow> parses s \<and> sql_datetime s \<noteq> SqlOther"

definition checkoffs_ok :: "database \<Rightarrow> bool" where
  "checkoffs_ok db \<longleftrightarrow> list_all (\<lambda>t. stamp_ok (t_check_of_date t)) (tracker_rows db)"

definition periodicity_ok :: "string \<Rightarrow> bool" where
  "periodicity_ok p \<longleftrightarrow> p = ''daily'' \<or> p = ''weekly''"

definition periodicities_ok :: "database \<Rightarrow> bool" where
  "periodicities_ok db \<longleftrightarrow> list_all (\<lambda>r. periodicity_ok (h_periodicity r)) (habit_rows db)"

definition app_ok :: "database \<Rightarrow> bool" where
  "app_ok db \<longleftrightarrow>
     db_ok db \<and> names_normalised db \<and> periodicities_ok db \<and> checkoffs_ok db"

lemmas app_ok_defs = app_ok_def periodicities_ok_def checkoffs_ok_def list_all_iff

section \<open>Timestamps the program writes\<close>

lemma stamp_ok_strftime: "clock_ok now \<Longrightarrow> stamp_ok (strftime_datetime now)"
  by (simp add: clock_ok_def stamp_ok_def parses_def strptime_strftime sql_datetime_strftime)

lemma stamp_ok_midnight:
  assumes "strptime_date d = Inr x"
  shows "stamp_ok (d @ '' 00:00:00'')"
  using strptime_date_midnight [OF assms] sql_datetime_midnight [OF assms]
  by (auto simp: stamp_ok_def parses_def)

lemma event_date_stamp_ok:
  assumes "clock_ok now" and "event_date now date = Inr (Inr d)"
  shows "stamp_ok d" and "d \<noteq> []"
proof -
  from assms(1) have "strftime_datetime now \<noteq> []"
    by (simp add: clock_ok_def strftime_datetime_eq)
  with assms(2) show "d \<noteq> []"
    by (auto simp: event_date_def split: if_splits sum.splits)
  from assms show "stamp_ok d"
    by (auto simp: event_date_def stamp_ok_strftime stamp_ok_midnight split: if_splits sum.splits)
qed

section \<open>Consequences of well-formedness\<close>

lemma app_ok_db_ok: "app_ok db \<Longrightarrow> db_ok db"
  by (simp add: app_ok_def)

lemma normalised_sql_lower:
  assumes "names_normalised db" and "r \<in> set (habit_rows db)"
  shows "sql_lower (h_name r) = h_name r"
proof -
  from assms have "lower (strip (h_name r)) = h_name r" by (simp add: names_normalised_def)
  then have "lower (h_name r) = h_name r" by (metis lower_idem)
  then show ?thesis by (simp add: sql_lower_eq_lower)
qed

lemma app_ok_ci_unique:
  assumes "app_ok db"
  shows "names_ci_unique db"
proof -
  from assms have "names_normalised db" by (simp add: app_ok_def)
  then have eq: "map (\<lambda>r. sql_lower (h_name r)) (habit_rows db) = map h_name (habit_rows db)"
    by (intro map_cong refl normalised_sql_lower)
  from assms show ?thesis
    unfolding names_ci_unique_def eq by (simp add: app_ok_def db_ok_def unique_names_def)
qed

lemma app_ok_all_parse: "app_ok db \<Longrightarrow> all_parse db"
  by (simp add: app_ok_defs all_parse_def stamp_ok_def)

lemma app_ok_periodicity:
  assumes "app_ok db" and "get_habit_periodicity db n = Some p"
  shows "periodicity_ok p"
proof -
  from assms(2) have "p \<in> h_periodicity ` set (habits_ci db n)"
    by (auto simp: get_habit_periodicity_def dest: fetchone_SomeD)
  with assms(1) show ?thesis by (auto simp: app_ok_defs habits_ci_def)
qed

lemma app_ok_empty: "app_ok empty_db"
  by (simp add: app_ok_defs empty_db_def db_ok_defs names_normalised_def)

section \<open>The methods of Database\<close>

lemma app_ok_filter:
  assumes "app_ok db"
  shows "app_ok (delete_habit_data db n)" and "app_ok (delete_tracker_data db n)"
    and "app_ok (snd (delete_db db))"
  using assms delete_habit_data_ok [of db n] delete_tracker_data_ok [of db n] delete_db_ok [of db]
  by (auto simp: app_ok_defs names_normalised_def delete_habit_data_def delete_tracker_data_def
      delete_db_def)

lemma add_habit_app_ok:
  assumes "app_ok db" and "periodicity_ok p"
  shows "app_ok (snd (add_habit db name d p t))"
proof -
  from assms have "periodicities_ok (snd (add_habit db name d p t))"
    "checkoffs_ok (snd (add_habit db name d p t))"
    by (auto simp: add_habit_eq Let_def app_ok_defs new_habit_row_def)
  with assms(1) show ?thesis
    by (simp add: app_ok_def add_habit_ok add_habit_keeps_normalised)
qed

lemma increment_tracker_app_ok:
  assumes "app_ok db" and "stamp_ok (event_date_or_now now e)"
  shows "app_ok (snd (increment_tracker now db n e))"
proof -
  from assms have "names_normalised (snd (increment_tracker now db n e))"
    "periodicities_ok (snd (increment_tracker now db n e))"
    "checkoffs_ok (snd (increment_tracker now db n e))"
    by (auto simp: increment_tracker_eq app_ok_defs names_normalised_def split: option.splits)
  with assms(1) show ?thesis
    by (simp add: app_ok_def increment_tracker_ok)
qed

lemma check_event_exists_total:
  assumes "periodicity_ok p" and "sql_datetime d \<noteq> SqlOther"
    and "\<forall>t \<in> set (events_of db n). sql_datetime (t_check_of_date t) \<noteq> SqlOther"
  shows "\<exists>b. check_event_exists db n d p = Inr b"
  using assms by (auto simp: check_event_exists_def Let_def periodicity_ok_def)

lemma update_habit_Inr_cases [consumes 1, case_names not_found updated]:
  assumes "update_habit db old nn nd np = Inr (msg, db')"
  obtains "db' = db"
  | existing exact db1 where "fetchone (map h_name (habits_ci db old)) = Some existing"
      and "if truthy nn then rename_habit db (the nn) existing = Inr db1 \<and> exact = the nn
           else db1 = db \<and> exact = existing"
      and "db' = (let db2 = (if truthy nd then set_description db1 (the nd) exact else db1)
                  in if truthy np then set_periodicity db2 (the np) exact else db2)"
proof (cases "fetchone (map h_name (habits_ci db old))")
  case None
  with assms have "db' = db" by (simp add: update_habit_def)
  then show ?thesis by (rule that(1))
next
  case (Some existing)
  from assms have "rbind
      (if truthy nn then rbind (rename_habit db (the nn) existing) (\<lambda>db'. Inr (the nn, db'))
       else Inr (existing, db))
      (\<lambda>(exact_name, db1).
         let db2 = (if truthy nd then set_description db1 (the nd) exact_name else db1);
             db3 = (if truthy np then set_periodicity db2 (the np) exact_name else db2)
         in Inr (HabitUpdated exact_name, db3)) = Inr (msg, db')"
    unfolding update_habit_def Some by (simp only: option.case)
  then obtain x where
    fx: "(if truthy nn then rbind (rename_habit db (the nn) existing) (\<lambda>db'. Inr (the nn, db'))
          else Inr (existing, db)) = Inr x"
    and rx: "(case x of (exact_name, db1) \<Rightarrow>
        let db2 = (if truthy nd then set_description db1 (the nd) exact_name else db1);
            db3 = (if truthy np then set_periodicity db2 (the np) exact_name else db2)
        in Inr (HabitUpdated exact_name, db3)) = (Inr (msg, db') :: (db_msg \<times> database) result)"
    unfolding rbind_eq_Inr_iff by blast
  obtain exact db1 where x: "x = (exact, db1)" by (cases x)
  note first = fx [unfolded x] and rest = rx [unfolded x prod.case]
  from first have "if truthy nn then rename_habit db (the nn) existing = Inr db1 \<and> exact = the nn
      else db1 = db \<and> exact = existing"
    by (auto simp: rbind_eq_Inr_iff split: if_splits)
  moreover from rest have
    "db' = (let db2 = (if truthy nd then set_description db1 (the nd) exact else db1)
            in if truthy np then set_periodicity db2 (the np) exact else db2)"
    by (auto simp: Let_def)
  ultimately show ?thesis using Some by (intro that(2))
qed

text \<open>What the application adds to the constraints of the schema, under the three
  \<open>UPDATE\<close> statements.\<close>

lemma rename_habit_app:
  assumes "rename_habit db new old = Inr db1" and "new \<noteq> []" and "lower (strip new) = new"
    and "names_normalised db \<and> periodicities_ok db \<and> checkoffs_ok db"
  shows "names_normalised db1 \<and> periodicities_ok db1 \<and> checkoffs_ok db1"
  using assms
  by (auto simp: rename_habit_def names_normalised_def periodicities_ok_def checkoffs_ok_def
      list_all_iff split: if_splits)

lemma set_description_app:
  assumes "names_normalised db \<and> periodicities_ok db \<and> checkoffs_ok db"
  shows "names_normalised (set_description db d n) \<and> periodicities_ok (set_description db d n) \<and>
    checkoffs_ok (set_description db d n)"
  using assms
  by (auto simp: set_description_def names_normalised_def periodicities_ok_def checkoffs_ok_def
      list_all_iff)

lemma set_periodicity_app:
  assumes "names_normalised db \<and> periodicities_ok db \<and> checkoffs_ok db" and "periodicity_ok p"
  shows "names_normalised (set_periodicity db p n) \<and> periodicities_ok (set_periodicity db p n) \<and>
    checkoffs_ok (set_periodicity db p n)"
  using assms
  by (auto simp: set_periodicity_def names_normalised_def periodicities_ok_def checkoffs_ok_def
      list_all_iff)

lemma update_habit_app_ok:
  assumes "app_ok db" and "update_habit db old nn nd np = Inr (msg, db')"
    and "truthy nn \<Longrightarrow> lower (strip (the nn)) = the nn"
    and "truthy np \<Longrightarrow> periodicity_ok (the np)"
  shows "app_ok db'"
proof -
  from assms(1) have db: "db_ok db" and soft: "names_normalised db \<and> periodicities_ok db \<and> checkoffs_ok db"
    by (simp_all add: app_ok_def)
  from assms(2) have "names_normalised db' \<and> periodicities_ok db' \<and> checkoffs_ok db'"
  proof (cases rule: update_habit_Inr_cases)
    case not_found
    with soft show ?thesis by simp
  next
    case (updated existing exact db1)
    have "names_normalised db1 \<and> periodicities_ok db1 \<and> checkoffs_ok db1"
    proof (cases "truthy nn")
      case True
      with updated(2) have "rename_habit db (the nn) existing = Inr db1" by simp
      from this _ assms(3) [OF True] soft show ?thesis
        by (rule rename_habit_app) (use True in \<open>auto simp: truthy_iff\<close>)
    next
      case False
      with updated(2) soft show ?thesis by simp
    qed
    then show ?thesis
      unfolding updated(3) Let_def using assms(4)
      by (simp add: set_description_app set_periodicity_app)
  qed
  with update_habit_ok [OF db assms(2)] show ?thesis by (simp add: app_ok_def)
qed

section \<open>The methods of DBHabit\<close>

lemma store_app_ok:
  assumes "app_ok db" and "periodicity_ok (hb_periodicity h)"
  shows "app_ok (snd (snd (store h db)))"
  using assms by (simp add: store_def Let_def case_prod_beta add_habit_app_ok)

lemma delete_app_ok: "app_ok db \<Longrightarrow> app_ok (snd (delete h db))"
  by (simp add: delete_def app_ok_filter)

lemma reset_in_db_app_ok: "app_ok db \<Longrightarrow> app_ok (snd (reset_in_db h db))"
  by (simp add: reset_in_db_def app_ok_filter)

lemma update_app_ok:
  assumes "app_ok db" and "truthy nn \<Longrightarrow> lower (strip (the nn)) = the nn"
    and "truthy np \<Longrightarrow> periodicity_ok (the np)"
  shows "case update h db nn nd np of Inl e \<Rightarrow> e = IntegrityError
    | Inr (msg, db') \<Rightarrow> app_ok db'"
proof (cases "update h db nn nd np")
  case (Inl e)
  with update_ok [OF app_ok_db_ok [OF assms(1)], of h nn nd np] show ?thesis by simp
next
  case (Inr res)
  obtain msg db' where res: "res = (msg, db')" by (cases res)
  from Inr have "db' = db \<or> (\<exists>m. update_habit db (hb_name h) nn nd np = Inr (m, db'))"
    unfolding res update_def by (auto simp: rbind_eq_Inr_iff split: if_splits)
  with assms have "app_ok db'" by (auto intro: update_habit_app_ok)
  with Inr res show ?thesis by simp
qed

text \<open>\<open>add_event\<close> either answers without touching the database, or it reaches
  the test of \<open>check_event_exists\<close> with a date and a periodicity.\<close>

lemma add_event_cases [case_names unchanged checked]:
  obtains msg where "add_event now h db date = Inr (msg, db)"
  | d p where "event_date now date = Inr (Inr d)"
      and "get_habit_periodicity db (hb_name h) = Some p" and "p \<noteq> []"
      and "add_event now h db date =
        rbind (check_event_exists db (hb_name h) d p) (\<lambda>already.
          Inr (if already \<and> p = ''daily'' then (AlreadyCheckedDaily (hb_name h) (take 10 d), db)
               else if already \<and> p = ''weekly'' then (AlreadyCheckedWeekly (hb_name h), db)
               else (FromDb (fst (increment_tracker now db (hb_name h) (Some d))),
                     snd (increment_tracker now db (hb_name h) (Some d)))))"
proof (cases "proof_habit db (hb_name h)")
  case False
  then show ?thesis by (intro that(1) [OF add_event_no_habit])
next
  case True
  show ?thesis
  proof (cases rule: event_date_cases [of now date])
    case (2 m)
    with True show ?thesis by (intro that(1) [OF add_event_invalid])
  next
    case (1 d)
    show ?thesis
    proof (cases "get_habit_periodicity db (hb_name h) = None \<or>
        get_habit_periodicity db (hb_name h) = Some []")
      case True
      with \<open>proof_habit db (hb_name h)\<close> 1 show ?thesis
        by (intro that(1) [OF add_event_no_periodicity])
    next
      case False
      then obtain p where p: "get_habit_periodicity db (hb_name h) = Some p" "p \<noteq> []" by auto
      from 1 p add_event_checked [OF True 1 p] show ?thesis by (rule that(2))
    qed
  qed
qed

lemma add_event_app_ok:
  assumes "app_ok db" and "clock_ok now"
  shows "\<exists>msg db'. add_event now h db date = Inr (msg, db') \<and> app_ok db'"
proof (cases rule: add_event_cases [of now h db date])
  case (unchanged msg)
  with assms(1) show ?thesis by simp
next
  case (checked d p)
  note d = event_date_stamp_ok [OF assms(2) checked(1)]
  from assms(1) have "\<forall>t \<in> set (events_of db (hb_name h)). sql_datetime (t_check_of_date t) \<noteq> SqlOther"
    by (auto simp: app_ok_defs stamp_ok_def events_of_def)
  moreover from d(1) have "sql_datetime d \<noteq> SqlOther" by (simp add: stamp_ok_def)
  ultimately obtain b where b: "check_event_exists db (hb_name h) d p = Inr b"
    using check_event_exists_total [OF app_ok_periodicity [OF assms(1) checked(2)]] by blast
  from d have "app_ok (snd (increment_tracker now db (hb_name h) (Some d)))"
    by (intro increment_tracker_app_ok assms(1)) (simp add: event_date_or_now_def)
  with b show ?thesis
    unfolding checked(4) using assms(1) by simp
qed

section \<open>The methods of Analytics\<close>

lemma app_ok_calculate_streak:
  assumes "app_ok db"
  shows "\<exists>r. calculate_streak db n = Inr r"
proof (cases "proof_habit db n")
  case True
  from assms have "fk_ok db" by (simp add: app_ok_def db_ok_def)
  from calculate_streak_total [OF this app_ok_all_parse [OF assms] True] show ?thesis by blast
next
  case False
  then show ?thesis by (simp add: calculate_streak_not_found)
qed

lemma app_ok_longest_streak_across:
  assumes "app_ok db"
  shows "longest_streak_across db =
    Inr (best_streaks (streak_of db) (map h_name (habit_rows db)))"
proof -
  from assms have "fk_ok db" by (simp add: app_ok_def db_ok_def)
  then show ?thesis
    by (intro longest_streak_across_best)
      (simp add: calculate_streak_total app_ok_all_parse [OF assms] proof_habit_stored)
qed

section \<open>Properties of well-formed databases\<close>

text \<open>C13. On a well-formed database \<open>add_event\<close> always answers. When the
  database satisfies \<open>app_ok\<close> and the clock shows a valid time of the year 1000 or
  later, \<open>add_event\<close> returns a message for every habit object and every date
  argument: the \<open>TypeError\<close> of an unknown periodicity cannot occur, every
  timestamp that SQLite is asked to read is inside the modelled domain, and the
  database it leaves behind is well-formed again.\<close>

theorem add_event_answers_when_well_formed:
  assumes "app_ok db" and "clock_ok now"
  shows "\<exists>msg db'. add_event now h db date = Inr (msg, db') \<and> app_ok db'"
  using assms by (rule add_event_app_ok)

theorem add_event_answers_when_well_formed_witness:
  "\<exists>msg db'. add_event demo_now demo_habit demo_db (Some ''2024-12-05'') = Inr (msg, db') \<and>
     app_ok db'"
  by (rule add_event_answers_when_well_formed; code_simp)

end
