(* ===== verification/Population.thy ===== *)
theory Population
  imports Wellformed
begin

text \<open>
  The predefined data of \<open>src/population.py\<close> (class \<open>Population\<close>): five habits
  and their check-offs of December 2024, loaded into a database that holds no habit.
  The clock is read once for every habit that is created; \<open>clock i\<close> is the reading
  for the habit at position \<open>i\<close> of the list.
\<close>

section \<open>The data\<close>

definition habits :: "(string \<times> string \<times> string \<times> string) list" where
  "habits =
     [(''workout'', ''Exercise daily'', ''daily'', ''2024-12-01 09:00:00''),
      (''car wash'', ''Wash the car weekly'', ''weekly'', ''2024-12-01 09:00:00''),
      (''meditation'', ''Meditate every day'', ''daily'', ''2024-12-01 09:00:00''),
      (''grocery shop'', ''Shop weekly'', ''weekly'', ''2024-12-01 09:00:00''),
      (''studying'', ''Study 30 minutes daily'', ''daily'', ''2024-12-01 09:00:00'')]"

text \<open>The comprehensions over \<open>range(1, 31)\<close>; \<open>{day:02d}\<close> is \<open>pad2\<close> on these days.\<close>

definition workout_checkoffs :: "string list" where
  "workout_checkoffs =
     [''2024-12-'' @ pad2 day @ '' 07:00:00''. day \<leftarrow> [1..30], day \<notin> {16, 19}]"

definition meditation_checkoffs :: "string list" where
  "meditation_checkoffs =
     [''2024-12-'' @ pad2 day @ '' 07:00:00''. day \<leftarrow> [1..30], day \<notin> {6, 13, 19}]"

definition studying_checkoffs :: "string list" where
  "studying_checkoffs =
     [''2024-12-'' @ pad2 day @ '' 08:00:00''. day \<leftarrow> [1..30], day \<notin> {15, 17, 22}]"

definition car_wash_checkoffs :: "string list" where
  "car_wash_checkoffs = [''2024-12-02 15:00:00'', ''2024-12-09 15:00:00'', ''2024-12-23 15:00:00'']"

definition grocery_checkoffs :: "string list" where
  "grocery_checkoffs = [''2024-12-02 10:00:00'', ''2024-12-09 10:00:00'', ''2024-12-16 10:00:00'']"

section \<open>The methods of class Population\<close>

text \<open>\<open>_add_checkoffs\<close>: the answers of \<open>increment_tracker\<close> are dropped.\<close>

fun add_checkoffs :: "datetime \<Rightarrow> database \<Rightarrow> string \<Rightarrow> string list \<Rightarrow> database" where
  "add_checkoffs now db habit_name [] = db"
| "add_checkoffs now db habit_name (date # checkoffs) =
     add_checkoffs now (snd (increment_tracker now db habit_name (Some date))) habit_name checkoffs"

text \<open>The loop that stores the habits; the fourth component of a tuple is bound and
  never used, so the creation date of every habit is the time of the call.\<close>

fun store_habits ::
  "(nat \<Rightarrow> datetime) \<Rightarrow> nat \<Rightarrow> database \<Rightarrow> (string \<times> string \<times> string \<times> string) list \<Rightarrow> database"
where
  "store_habits clock i db [] = db"
| "store_habits clock i db ((name, description, periodicity, date) # rest) =
     store_habits clock (Suc i)
       (snd (snd (store (habit_init (clock i) name description periodicity None) db))) rest"

definition populate_dummy_data :: "(nat \<Rightarrow> datetime) \<Rightarrow> database \<Rightarrow> database" where
  "populate_dummy_data clock db =
     (let now = clock (length habits);
          db0 = store_habits clock 0 db habits;
          db1 = add_checkoffs now db0 ''workout'' workout_checkoffs;
          db2 = add_checkoffs now db1 ''meditation'' meditation_checkoffs;
          db3 = add_checkoffs now db2 ''studying'' studying_checkoffs;
          db4 = add_checkoffs now db3 ''car wash'' car_wash_checkoffs
      in add_checkoffs now db4 ''grocery shop'' grocery_checkoffs)"

datatype population_msg = Populated | AlreadyPopulated

fun render_population_msg :: "population_msg \<Rightarrow> string" where
  "render_population_msg Populated =
     ''No data found in the database. Dummy data populated successfully.''"
| "render_population_msg AlreadyPopulated =
     ''Database already populated. Skipping dummy data population.''"

definition check_and_populate_dummy_data ::
  "(nat \<Rightarrow> datetime) \<Rightarrow> database \<Rightarrow> population_msg \<times> database" where
  "check_and_populate_dummy_data clock db =
     (if get_current_habits db = [] then (Populated, populate_dummy_data clock db)
      else (AlreadyPopulated, db))"

section \<open>Vocabulary of the statements\<close>

text \<open>The rows that a sequence of check-offs of one habit adds to table \<open>tracker\<close>
  when the last id issued is \<open>k\<close>, and the row that storing a habit adds.\<close>

fun tracker_batch :: "int \<Rightarrow> string \<Rightarrow> string list \<Rightarrow> tracker_row list" where
  "tracker_batch k n [] = []"
| "tracker_batch k n (d # ds) =
     \<lparr>t_id = k + 1, t_check_of_date = d, t_habit_name = n\<rparr> # tracker_batch (k + 1) n ds"

fun stored_rows ::
  "(nat \<Rightarrow> datetime) \<Rightarrow> nat \<Rightarrow> int \<Rightarrow> (string \<times> string \<times> string \<times> string) list \<Rightarrow> habit_row list"
where
  "stored_rows clock i k [] = []"
| "stored_rows clock i k ((name, description, periodicity, date) # rest) =
     \<lparr>h_id = k + 1, h_name = name, h_description = description, h_periodicity = periodicity,
      h_date = strftime_datetime (clock i)\<rparr> # stored_rows clock (Suc i) (k + 1) rest"

text \<open>A tuple whose name and description are stored as they are written: the name
  is in lower case, neither is blank or padded with white space.\<close>

definition plain :: "string \<times> string \<times> string \<times> string \<Rightarrow> bool" where
  "plain h = (case h of (name, description, periodicity, date) \<Rightarrow>
     lower (strip name) = name \<and> name \<noteq> [] \<and> strip description = description \<and>
     description \<noteq> [])"

text \<open>The rows of table \<open>tracker\<close> that the predefined check-offs add when the last
  id issued is \<open>k\<close>, and the predefined check-offs as datetimes.\<close>

definition december_rows :: "int \<Rightarrow> tracker_row list" where
  "december_rows k =
     tracker_batch k ''workout'' workout_checkoffs @
     tracker_batch (k + 28) ''meditation'' meditation_checkoffs @
     tracker_batch (k + 55) ''studying'' studying_checkoffs @
     tracker_batch (k + 82) ''car wash'' car_wash_checkoffs @
     tracker_batch (k + 85) ''grocery shop'' grocery_checkoffs"

definition december_dates :: "int \<Rightarrow> int list \<Rightarrow> datetime list" where
  "december_dates hour days = map (\<lambda>day. dt 2024 12 day hour 0 0) days"

definition checkoff_dates :: "string \<Rightarrow> datetime list" where
  "checkoff_dates n =
     (if n = ''workout'' then december_dates 7 [day. day \<leftarrow> [1..30], day \<notin> {16, 19}]
      else if n = ''meditation'' then december_dates 7 [day. day \<leftarrow> [1..30], day \<notin> {6, 13, 19}]
      else if n = ''studying'' then december_dates 8 [day. day \<leftarrow> [1..30], day \<notin> {15, 17, 22}]
      else if n = ''car wash'' then december_dates 15 [2, 9, 23]
      else if n = ''grocery shop'' then december_dates 10 [2, 9, 16]
      else [])"

text \<open>The database after the predefined data were loaded into \<open>db\<close>.\<close>

definition december_2024 :: "(nat \<Rightarrow> datetime) \<Rightarrow> database \<Rightarrow> database" where
  "december_2024 clock db =
     db\<lparr>habit_rows := stored_rows clock 0 (habit_seq db) habits,
        tracker_rows := tracker_rows db @ december_rows (tracker_seq db),
        habit_seq := habit_seq db + 5, tracker_seq := tracker_seq db + 88\<rparr>"

section \<open>Check-offs in sequence\<close>

lemma tracker_batch_append:
  "tracker_batch k n (ds @ es) = tracker_batch k n ds @ tracker_batch (k + int (length ds)) n es"
  by (induction ds arbitrary: k) (simp_all add: algebra_simps)

lemma tracker_batch_dates [simp]: "map t_check_of_date (tracker_batch k n ds) = ds"
  by (induction ds arbitrary: k) simp_all

lemma tracker_batch_names: "t \<in> set (tracker_batch k n ds) \<Longrightarrow> t_habit_name t = n"
  by (induction ds arbitrary: k) auto

lemma events_of_batch:
  "filter (\<lambda>t. t_habit_name t = m) (tracker_batch k n ds) =
     (if n = m then tracker_batch k n ds else [])"
  by (auto simp: filter_empty_conv filter_id_conv dest: tracker_batch_names)

lemma habits_ci_tracker [simp]:
  "habits_ci (db\<lparr>tracker_rows := ts, tracker_seq := k\<rparr>) n = habits_ci db n"
  by (simp add: habits_ci_def)

lemma add_checkoffs_eq:
  assumes "fetchone (map h_name (habits_ci db n)) = Some m" and "[] \<notin> set ds"
  shows "add_checkoffs now db n ds =
    db\<lparr>tracker_rows := tracker_rows db @ tracker_batch (tracker_seq db) m ds,
       tracker_seq := tracker_seq db + int (length ds)\<rparr>"
  using assms
proof (induction ds arbitrary: db)
  case Nil
  show ?case by simp
next
  case (Cons d ds)
  let ?db = "snd (increment_tracker now db n (Some d))"
  from Cons.prems have step: "?db = db\<lparr>tracker_rows := tracker_rows db @
      [\<lparr>t_id = tracker_seq db + 1, t_check_of_date = d, t_habit_name = m\<rparr>],
      tracker_seq := tracker_seq db + 1\<rparr>"
    by (auto simp: increment_tracker_eq event_date_or_now_def fetchone_map)
  with Cons.prems have "fetchone (map h_name (habits_ci ?db n)) = Some m" by simp
  from Cons.IH [OF this] Cons.prems(2) show ?case
    unfolding add_checkoffs.simps step by (simp add: algebra_simps)
qed

lemma add_checkoffs_unknown:
  assumes "habits_ci db n = []"
  shows "add_checkoffs now db n ds = db"
  using assms by (induction ds) (simp_all add: increment_tracker_eq)

lemma add_checkoffs_ok: "db_ok db \<Longrightarrow> db_ok (add_checkoffs now db n ds)"
  by (induction ds arbitrary: db) (simp_all add: increment_tracker_ok)

lemma habit_rows_add_checkoffs [simp]:
  "habit_rows (add_checkoffs now db n ds) = habit_rows db"
proof (induction ds arbitrary: db)
  case (Cons d ds)
  then show ?case
    by (cases "fetchone (habits_ci db n)") (simp_all add: increment_tracker_eq)
qed simp

section \<open>Habits in sequence\<close>

lemma store_habits_ok: "db_ok db \<Longrightarrow> db_ok (store_habits clock i db hs)"
  by (induction hs arbitrary: i db) (auto simp: store_ok)

lemma store_fresh:
  assumes "lower (strip name) = name" and "name \<noteq> []" and "strip d = d" and "d \<noteq> []"
    and "\<not> proof_habit db name"
  shows "snd (snd (store (habit_init now name d p None) db)) =
    db\<lparr>habit_rows := habit_rows db @
         [\<lparr>h_id = habit_seq db + 1, h_name = name, h_description = d, h_periodicity = p,
           h_date = strftime_datetime now\<rparr>],
       habit_seq := habit_seq db + 1\<rparr>"
proof -
  from assms(1) have "strip name = name"
    by (metis strip_lower strip_idem)
  with assms show ?thesis
    by (simp add: store_def habit_init_def Let_def add_habit_eq new_habit_row_def strip_idem)
qed

lemma stored_rows_names [simp]: "map h_name (stored_rows clock i k hs) = map fst hs"
  by (induction clock i k hs rule: stored_rows.induct) simp_all

lemma plain_lower: "plain (n, d, p, t) \<Longrightarrow> sql_lower n = n"
  by (metis (mono_tags, lifting) plain_def case_prod_conv lower_idem sql_lower_eq_lower)

lemma proof_habit_snoc:
  "proof_habit (db\<lparr>habit_rows := habit_rows db @ [r], habit_seq := k\<rparr>) n \<longleftrightarrow>
     proof_habit db n \<or> sql_lower (h_name r) = sql_lower n"
  by (auto simp: proof_habit_iff habits_ci_def)

lemma store_habits_fresh:
  assumes "list_all plain hs" and "distinct (map fst hs)"
    and "\<forall>h \<in> set hs. \<not> proof_habit db (fst h)"
  shows "store_habits clock i db hs =
    db\<lparr>habit_rows := habit_rows db @ stored_rows clock i (habit_seq db) hs,
       habit_seq := habit_seq db + int (length hs)\<rparr>"
  using assms
proof (induction hs arbitrary: i db)
  case Nil
  show ?case by simp
next
  case (Cons h hs)
  obtain n d p t where h: "h = (n, d, p, t)" by (cases h)
  let ?db = "snd (snd (store (habit_init (clock i) n d p None) db))"
  from Cons.prems h have step: "?db = db\<lparr>habit_rows := habit_rows db @
      [\<lparr>h_id = habit_seq db + 1, h_name = n, h_description = d, h_periodicity = p,
        h_date = strftime_datetime (clock i)\<rparr>], habit_seq := habit_seq db + 1\<rparr>"
    by (intro store_fresh) (simp_all add: plain_def)
  have "\<forall>h' \<in> set hs. \<not> proof_habit ?db (fst h')"
  proof
    fix h' assume h': "h' \<in> set hs"
    obtain n' d' p' t' where eq: "h' = (n', d', p', t')" by (cases h')
    from h' Cons.prems(1) eq have "sql_lower n' = n'"
      by (auto simp: list_all_iff intro: plain_lower)
    moreover from Cons.prems(1) h have "sql_lower n = n" by (auto intro: plain_lower)
    moreover from h' Cons.prems(2) h eq have "n \<noteq> n'" by force
    ultimately show "\<not> proof_habit ?db (fst h')"
      using Cons.prems(3) h' eq unfolding step by (auto simp: proof_habit_snoc)
  qed
  with Cons.prems have "store_habits clock (Suc i) ?db hs =
    ?db\<lparr>habit_rows := habit_rows ?db @ stored_rows clock (Suc i) (habit_seq ?db) hs,
        habit_seq := habit_seq ?db + int (length hs)\<rparr>"
    by (intro Cons.IH) simp_all
  then show ?case unfolding h store_habits.simps unfolding step by (simp add: algebra_simps)
qed

section \<open>The populated database\<close>

lemma habits_plain: "list_all plain habits"
  by code_simp

lemma habits_distinct: "distinct (map fst habits)"
  by (simp add: habits_def)

lemma checkoffs_length:
  "length workout_checkoffs = 28" "length meditation_checkoffs = 27"
  "length studying_checkoffs = 27" "length car_wash_checkoffs = 3"
  "length grocery_checkoffs = 3"
  by code_simp+

lemma checkoffs_nonempty:
  "[] \<notin> set workout_checkoffs" "[] \<notin> set meditation_checkoffs"
  "[] \<notin> set studying_checkoffs" "[] \<notin> set car_wash_checkoffs"
  "[] \<notin> set grocery_checkoffs"
  by (auto simp: workout_checkoffs_def meditation_checkoffs_def studying_checkoffs_def
      car_wash_checkoffs_def grocery_checkoffs_def)

lemma habit_names:
  "map fst habits = [''workout'', ''car wash'', ''meditation'', ''grocery shop'', ''studying'']"
  by (simp add: habits_def)

lemma habits_found:
  assumes "n \<in> set (map fst habits)"
  shows "filter (\<lambda>m. sql_lower m = sql_lower n) (map fst habits) = [n]"
proof -
  have low: "sql_lower m = m" if "m \<in> set (map fst habits)" for m
    using that habits_plain by (auto simp: list_all_iff intro: plain_lower)
  then have "filter (\<lambda>m. sql_lower m = sql_lower n) (map fst habits) =
      filter (\<lambda>m. id m = id n) (map fst habits)"
    using assms by (intro filter_cong) simp_all
  also from habits_distinct assms have "\<dots> = [n]"
    by (intro filter_key_unique) simp_all
  finally show ?thesis .
qed

lemma habits_lookup:
  assumes "habit_rows db = stored_rows clock i k habits" and "n \<in> set (map fst habits)"
  shows "fetchone (map h_name (habits_ci db n)) = Some n"
proof -
  have "map h_name (habits_ci db n) =
      filter (\<lambda>m. sql_lower m = sql_lower n) (map h_name (habit_rows db))"
    by (simp add: habits_ci_def filter_map comp_def)
  with habits_found [OF assms(2)] show ?thesis by (simp add: assms(1))
qed

lemma add_checkoffs_stored:
  assumes "habit_rows db = stored_rows clock i k habits" and "n \<in> set (map fst habits)"
    and "[] \<notin> set ds"
  shows "add_checkoffs now db n ds =
    db\<lparr>tracker_rows := tracker_rows db @ tracker_batch (tracker_seq db) n ds,
       tracker_seq := tracker_seq db + int (length ds)\<rparr>"
  using habits_lookup [OF assms(1,2)] assms(3) by (rule add_checkoffs_eq)

lemma populate_dummy_data_eq:
  assumes "habit_rows db = []"
  shows "populate_dummy_data clock db = december_2024 clock db"
proof -
  from assms have "store_habits clock 0 db habits =
      db\<lparr>habit_rows := habit_rows db @ stored_rows clock 0 (habit_seq db) habits,
        habit_seq := habit_seq db + int (length habits)\<rparr>"
    by (intro store_habits_fresh habits_plain habits_distinct)
      (simp add: proof_habit_iff habits_ci_def)
  with assms have db0: "store_habits clock 0 db habits =
      db\<lparr>habit_rows := stored_rows clock 0 (habit_seq db) habits, habit_seq := habit_seq db + 5\<rparr>"
    by (simp add: habits_def)
  show ?thesis
    unfolding populate_dummy_data_def Let_def db0
    by (simp add: add_checkoffs_stored [where clock = clock and i = 0 and k = "habit_seq db"]
        habit_names december_2024_def december_rows_def checkoffs_length checkoffs_nonempty
        ac_simps)
qed

section \<open>The streaks of the predefined habits\<close>

lemma december_stamp:
  "strftime_datetime (dt 2024 12 day 7 0 0) = ''2024-12-'' @ pad2 day @ '' 07:00:00''"
  "strftime_datetime (dt 2024 12 day 8 0 0) = ''2024-12-'' @ pad2 day @ '' 08:00:00''"
  by (simp_all add: strftime_datetime_def dt_def) code_simp+

lemma checkoff_stamps:
  "workout_checkoffs = map strftime_datetime (checkoff_dates ''workout'')"
  "meditation_checkoffs = map strftime_datetime (checkoff_dates ''meditation'')"
  "studying_checkoffs = map strftime_datetime (checkoff_dates ''studying'')"
  "car_wash_checkoffs = map strftime_datetime (checkoff_dates ''car wash'')"
  "grocery_checkoffs = map strftime_datetime (checkoff_dates ''grocery shop'')"
proof -
  show "workout_checkoffs = map strftime_datetime (checkoff_dates ''workout'')"
    "meditation_checkoffs = map strftime_datetime (checkoff_dates ''meditation'')"
    "studying_checkoffs = map strftime_datetime (checkoff_dates ''studying'')"
    by (simp_all add: workout_checkoffs_def meditation_checkoffs_def studying_checkoffs_def
        checkoff_dates_def december_dates_def december_stamp comp_def map_concat
        if_distrib [of "map f" for f] cong: if_cong)
  show "car_wash_checkoffs = map strftime_datetime (checkoff_dates ''car wash'')"
    "grocery_checkoffs = map strftime_datetime (checkoff_dates ''grocery shop'')"
    by code_simp+
qed

lemma checkoff_dates_valid:
  "list_all (\<lambda>t. valid_datetime t \<and> 1000 \<le> dt_year t) (checkoff_dates ''workout'')"
  "list_all (\<lambda>t. valid_datetime t \<and> 1000 \<le> dt_year t) (checkoff_dates ''meditation'')"
  "list_all (\<lambda>t. valid_datetime t \<and> 1000 \<le> dt_year t) (checkoff_dates ''studying'')"
  "list_all (\<lambda>t. valid_datetime t \<and> 1000 \<le> dt_year t) (checkoff_dates ''car wash'')"
  "list_all (\<lambda>t. valid_datetime t \<and> 1000 \<le> dt_year t) (checkoff_dates ''grocery shop'')"
  by code_simp+

lemma checkoff_dates_sorted:
  "sorted (map epoch (checkoff_dates ''workout''))"
  "sorted (map epoch (checkoff_dates ''meditation''))"
  "sorted (map epoch (checkoff_dates ''studying''))"
  "sorted (map epoch (checkoff_dates ''car wash''))"
  "sorted (map epoch (checkoff_dates ''grocery shop''))"
  by code_simp+

lemma checkoff_runs:
  "longest_run daily_adjacent (checkoff_dates ''workout'') = 15"
  "longest_run daily_adjacent (checkoff_dates ''meditation'') = 11"
  "longest_run daily_adjacent (checkoff_dates ''studying'') = 14"
  "longest_run weekly_adjacent (checkoff_dates ''car wash'') = 2"
  "longest_run weekly_adjacent (checkoff_dates ''grocery shop'') = 3"
  by code_simp+

lemma checkoff_dates_props:
  assumes "n \<in> set (map fst habits)"
  shows "\<forall>t \<in> set (checkoff_dates n). valid_datetime t \<and> 1000 \<le> dt_year t"
    and "sort_key epoch (checkoff_dates n) = checkoff_dates n"
  using assms checkoff_dates_valid checkoff_dates_sorted
  by (auto simp: habit_names list_all_iff sort_key_id_if_sorted)

lemma december_events_each:
  assumes "tracker_rows db = []"
  shows "map t_check_of_date (events_of (december_2024 clock db) ''workout'') = workout_checkoffs"
    and "map t_check_of_date (events_of (december_2024 clock db) ''meditation'') =
      meditation_checkoffs"
    and "map t_check_of_date (events_of (december_2024 clock db) ''studying'') =
      studying_checkoffs"
    and "map t_check_of_date (events_of (december_2024 clock db) ''car wash'') =
      car_wash_checkoffs"
    and "map t_check_of_date (events_of (december_2024 clock db) ''grocery shop'') =
      grocery_checkoffs"
  by (simp_all add: events_of_def december_2024_def december_rows_def events_of_batch assms)

lemma december_events:
  assumes "tracker_rows db = []" and "n \<in> set (map fst habits)"
  shows "map t_check_of_date (events_of (december_2024 clock db) n) =
    map strftime_datetime (checkoff_dates n)"
  using assms(2) december_events_each [OF assms(1), of clock]
  unfolding habit_names checkoff_stamps by auto

lemma stored_rows_mem:
  "(n, d, p, t) \<in> set hs \<Longrightarrow>
     \<exists>r \<in> set (stored_rows clock i k hs). h_name r = n \<and> h_periodicity r = p"
  by (induction clock i k hs rule: stored_rows.induct) auto

lemma december_unique: "unique_names (december_2024 clock db)"
  using habits_distinct by (simp add: unique_names_def december_2024_def)

lemma december_streak:
  assumes "tracker_rows db = []" and "(n, d, p, t) \<in> set habits"
  shows "calculate_streak (december_2024 clock db) n =
    Inr (Streak (longest_run (adjacency p) (checkoff_dates n)))"
proof -
  from assms(2) have n: "n \<in> set (map fst habits)" by force
  from stored_rows_mem [OF assms(2), of clock 0 "habit_seq db"]
  obtain r where r: "r \<in> set (habit_rows (december_2024 clock db))"
    "h_name r = n" "h_periodicity r = p"
    by (auto simp: december_2024_def)
  from assms(2) have "p = ''daily'' \<or> p = ''weekly''" by (auto simp: habits_def)
  with calculate_streak_stamps [OF december_unique r(1)] december_events [OF assms(1) n]
    checkoff_dates_props [OF n] r(2,3)
  show ?thesis by simp
qed

lemma habits_mem:
  "(''workout'', ''Exercise daily'', ''daily'', ''2024-12-01 09:00:00'') \<in> set habits"
  "(''car wash'', ''Wash the car weekly'', ''weekly'', ''2024-12-01 09:00:00'') \<in> set habits"
  "(''meditation'', ''Meditate every day'', ''daily'', ''2024-12-01 09:00:00'') \<in> set habits"
  "(''grocery shop'', ''Shop weekly'', ''weekly'', ''2024-12-01 09:00:00'') \<in> set habits"
  "(''studying'', ''Study 30 minutes daily'', ''daily'', ''2024-12-01 09:00:00'') \<in> set habits"
  by (simp_all add: habits_def)

lemma adjacency_simps [simp]:
  "adjacency ''daily'' = daily_adjacent" "adjacency ''weekly'' = weekly_adjacent"
  by (simp_all add: adjacency_def)

lemma december_streaks:
  assumes "tracker_rows db = []"
  shows "calculate_streak (december_2024 clock db) ''workout'' = Inr (Streak 15)"
    and "calculate_streak (december_2024 clock db) ''car wash'' = Inr (Streak 2)"
    and "calculate_streak (december_2024 clock db) ''meditation'' = Inr (Streak 11)"
    and "calculate_streak (december_2024 clock db) ''grocery shop'' = Inr (Streak 3)"
    and "calculate_streak (december_2024 clock db) ''studying'' = Inr (Streak 14)"
  by (simp_all only: december_streak [OF assms habits_mem(1)] december_streak [OF assms habits_mem(2)]
      december_streak [OF assms habits_mem(3)] december_streak [OF assms habits_mem(4)]
      december_streak [OF assms habits_mem(5)] adjacency_simps checkoff_runs)



lemma december_longest:
  assumes "tracker_rows db = []"
  shows "longest_streak_across (december_2024 clock db) = Inr [(''workout'', 15)]"
  by (simp add: longest_streak_across_def december_2024_def [of clock db, THEN arg_cong, of habit_rows]
      habit_names december_streaks [OF assms])

lemma populate_dummy_data_ok: "db_ok db \<Longrightarrow> db_ok (populate_dummy_data clock db)"
  by (simp add: populate_dummy_data_def Let_def add_checkoffs_ok store_habits_ok)

lemma december_not_empty: "habit_rows (december_2024 clock db) \<noteq> []"
  by (simp add: december_2024_def habits_def)

lemma check_and_populate_twice:
  "check_and_populate_dummy_data clock' (snd (check_and_populate_dummy_data clock db)) =
     (AlreadyPopulated, snd (check_and_populate_dummy_data clock db))"
  by (simp add: check_and_populate_dummy_data_def get_current_habits_def
      populate_dummy_data_eq december_not_empty)

section \<open>The predefined data are well-formed\<close>

lemma add_checkoffs_app_ok:
  assumes "app_ok db" and "list_all stamp_ok ds"
  shows "app_ok (add_checkoffs now db n ds)"
  using assms
proof (induction ds arbitrary: db)
  case (Cons d ds)
  from Cons.prems have "stamp_ok (event_date_or_now now (Some d))"
    by (cases "d = []") (simp_all add: event_date_or_now_def stamp_ok_def parses_def
        strptime_datetime_def re_datetime_def re_date_def re_Y_def pthen_def re_range_def)
  from increment_tracker_app_ok [OF Cons.prems(1) this] Cons.prems(2) show ?case
    by (simp add: Cons.IH)
qed simp

lemma store_habits_app_ok:
  assumes "app_ok db" and "list_all (\<lambda>(n, d, p, t). periodicity_ok p) hs"
  shows "app_ok (store_habits clock i db hs)"
  using assms
  by (induction hs arbitrary: i db) (auto simp: store_app_ok habit_init_def)

lemma checkoffs_stamp_ok:
  "list_all stamp_ok workout_checkoffs" "list_all stamp_ok meditation_checkoffs"
  "list_all stamp_ok studying_checkoffs" "list_all stamp_ok car_wash_checkoffs"
  "list_all stamp_ok grocery_checkoffs"
  using checkoff_dates_valid
  by (simp_all add: checkoff_stamps list_all_iff stamp_ok_strftime clock_ok_def)

lemma populate_dummy_data_app_ok:
  assumes "app_ok db"
  shows "app_ok (populate_dummy_data clock db)"
proof -
  have "list_all (\<lambda>(n, d, p, t). periodicity_ok p) habits"
    by (simp add: habits_def periodicity_ok_def)
  from store_habits_app_ok [OF assms this] show ?thesis
    by (simp add: populate_dummy_data_def Let_def add_checkoffs_app_ok checkoffs_stamp_ok)
qed

lemma check_and_populate_app_ok:
  "app_ok db \<Longrightarrow> app_ok (snd (check_and_populate_dummy_data clock db))"
  by (simp add: check_and_populate_dummy_data_def populate_dummy_data_app_ok)

section \<open>Properties of the predefined data\<close>

text \<open>C16. What \<open>populate_dummy_data\<close> loads. On a database without habits it
  stores the five predefined habits in the order of the list, with ids that continue
  the sequence and with the time of the call as creation date (the date written in the
  tuple is not used), and then 88 check-offs: 28 of \<open>workout\<close>, 27 of
  \<open>meditation\<close>, 27 of \<open>studying\<close>, 3 of \<open>car wash\<close> and 3 of
  \<open>grocery shop\<close>, in this order, with ids that continue the sequence.\<close>

theorem populate_dummy_data_loads:
  assumes "habit_rows db = []"
  shows "populate_dummy_data clock db =
    db\<lparr>habit_rows := stored_rows clock 0 (habit_seq db) habits,
       tracker_rows := tracker_rows db @ december_rows (tracker_seq db),
       habit_seq := habit_seq db + 5, tracker_seq := tracker_seq db + 88\<rparr>"
  using populate_dummy_data_eq [OF assms] by (simp add: december_2024_def)

theorem populate_dummy_data_loads_witness:
  "populate_dummy_data (\<lambda>_. demo_now) empty_db =
    empty_db\<lparr>habit_rows := stored_rows (\<lambda>_. demo_now) 0 (habit_seq empty_db) habits,
       tracker_rows := tracker_rows empty_db @ december_rows (tracker_seq empty_db),
       habit_seq := habit_seq empty_db + 5, tracker_seq := tracker_seq empty_db + 88\<rparr>"
  by (rule populate_dummy_data_loads; code_simp)

text \<open>C15. The streaks of the predefined habits. After the predefined data were
  loaded into a database without habits and check-offs, \<open>calculate_streak\<close>
  returns 15 for \<open>workout\<close>, 2 for \<open>car wash\<close>, 11 for \<open>meditation\<close>, 3 for
  \<open>grocery shop\<close> and 14 for \<open>studying\<close>, and \<open>longest_streak_across\<close> returns
  \<open>workout\<close> alone with 15, whatever the clock shows.\<close>

theorem predefined_streaks:
  assumes "habit_rows db = []" and "tracker_rows db = []"
  shows "map (calculate_streak (populate_dummy_data clock db)) (map fst habits) =
      [Inr (Streak 15), Inr (Streak 2), Inr (Streak 11), Inr (Streak 3), Inr (Streak 14)] \<and>
    longest_streak_across (populate_dummy_data clock db) = Inr [(''workout'', 15)]"
  by (simp add: populate_dummy_data_eq [OF assms(1)] habit_names december_streaks [OF assms(2)]
      december_longest [OF assms(2)])

theorem predefined_streaks_witness:
  "map (calculate_streak (populate_dummy_data (\<lambda>_. demo_now) empty_db)) (map fst habits) =
      [Inr (Streak 15), Inr (Streak 2), Inr (Streak 11), Inr (Streak 3), Inr (Streak 14)] \<and>
    longest_streak_across (populate_dummy_data (\<lambda>_. demo_now) empty_db) =
      Inr [(''workout'', 15)]"
  by (rule predefined_streaks; code_simp)

text \<open>C40. The predefined data are loaded once. After
  \<open>check_and_populate_dummy_data\<close> ran on any database, a second call, at any
  time, answers that the database is already populated and changes nothing.\<close>

theorem check_and_populate_once:
  "check_and_populate_dummy_data clock' (snd (check_and_populate_dummy_data clock db)) =
     (AlreadyPopulated, snd (check_and_populate_dummy_data clock db))"
  by (rule check_and_populate_twice)

end
