(* ===== verification/Cli.thy ===== *)
theory Cli
  imports Population
begin

text \<open>
  The command-line interface of \<open>src/main_cli.py\<close> (class \<open>HabitTrackerCLI\<close>). A
  session is driven by a script: the list of the user's choices in the main menu,
  each with the answers to the prompts of its handler and the time at which it is
  handled. A handler takes the database and returns what it prints and the database
  it leaves behind; printed text is a \<open>Line\<close>, a table handed to \<open>tabulate\<close> is a
  \<open>Grid\<close> of its headers and rows. The lemmas show that the handlers keep the
  database well-formed, that only a rename to the name of another habit ends a session
  with an exception, and that a session ends as soon as the user chooses \<open>Exit\<close>.
\<close>

section \<open>What the user enters\<close>

text \<open>The choices of \<open>questionary.select\<close>: the periodicity of a new habit
  (\<open>daily\<close>, \<open>weekly\<close>), the periodicity of an update (the same two and the empty
  string), the entries of the analysis menu with the answers to their prompts, and
  the entries of the main menu with the answers to theirs.\<close>

datatype periodicity_choice = Daily | Weekly

datatype update_choice = KeepPeriodicity | ChangeTo periodicity_choice

datatype analysis =
    TrackedHabits
  | SamePeriodicity periodicity_choice
  | LongestStreak
  | LongestStreakFor string
  | HabitInfo string

datatype command =
    CreateHabit string string periodicity_choice
  | CheckOff string string
  | Analyse analysis
  | UpdateHabit string string string update_choice
  | DeleteHabit string
  | ResetTracker string
  | DeleteAll bool bool
  | Exit

fun periodicity_text :: "periodicity_choice \<Rightarrow> string" where
  "periodicity_text Daily = ''daily''"
| "periodicity_text Weekly = ''weekly''"

fun update_text :: "update_choice \<Rightarrow> string" where
  "update_text KeepPeriodicity = []"
| "update_text (ChangeTo p) = periodicity_text p"

text \<open>\<open>x if x else None\<close> on a string.\<close>

definition or_none :: "string \<Rightarrow> string option" where
  "or_none x = (if x = [] then None else Some x)"

section \<open>What the program prints\<close>

datatype cli_output = Line string | Grid "string list" "string list list"

section \<open>The handlers\<close>

definition create_habit ::
  "datetime \<Rightarrow> database \<Rightarrow> string \<Rightarrow> string \<Rightarrow> periodicity_choice \<Rightarrow> cli_output list \<times> database"
where
  "create_habit now db name desc periodicity =
     (let habit = habit_init now (lower (strip name)) desc (periodicity_text periodicity) None
      in case store habit db of
           (response, _, db') \<Rightarrow> ([Line (render_habit_msg response)], db'))"

definition check_off_habit ::
  "datetime \<Rightarrow> database \<Rightarrow> string \<Rightarrow> string \<Rightarrow> (cli_output list \<times> database) result" where
  "check_off_habit now db name date =
     (let habit = habit_init now (lower (strip name)) ''No description'' ''daily'' None
      in rbind (add_event now habit db (or_none date))
           (\<lambda>(response, db'). Inr ([Line (render_habit_msg response)], db')))"

definition display_tracked_habits :: "database \<Rightarrow> cli_output list" where
  "display_tracked_habits db =
     (let habits = get_current_habit_names db in
      if habits \<noteq> []
      then [Line (CHR 0x0A # ''Currently tracked habits:''),
            Grid [''Habit Names''] (map (\<lambda>habit. [habit]) habits)]
      else [Line (CHR 0x0A # ''No habits currently being tracked.'')])"

definition display_habits_with_same_periodicity ::
  "database \<Rightarrow> periodicity_choice \<Rightarrow> cli_output list" where
  "display_habits_with_same_periodicity db choice =
     (let periodicity = periodicity_text choice;
          habits = get_periodicity db periodicity in
      if habits \<noteq> []
      then [Line (CHR 0x0A # ''Habits with periodicity: '' @ periodicity),
            Grid [''Habit Name''] (map (\<lambda>habit. [habit]) habits)]
      else [Line (CHR 0x0A # ''No habits found with periodicity '' @ quoted periodicity @ ''.'')])"

definition display_longest_run_streak :: "database \<Rightarrow> cli_output list result" where
  "display_longest_run_streak db =
     rbind (longest_streak_across db) (\<lambda>streaks.
       Inr (if streaks \<noteq> []
            then [Grid [''Habit Name'', ''Longest Streak'']
                    (map (\<lambda>(habit, streak). [habit, str_int streak]) streaks)]
            else [Line ''No streak data available.'']))"

definition display_longest_run_streak_for_habit :: "database \<Rightarrow> string \<Rightarrow> cli_output list result" where
  "display_longest_run_streak_for_habit db name =
     (let name = lower (strip name) in
      rbind (calculate_streak db name) (\<lambda>response.
        case response of
          Streak k \<Rightarrow>
            Inr [Grid [''Habit Name'', ''Longest Streak''] [[capitalize name, str_int k]]]
        | StreakNotFound n \<Rightarrow> Inr [Line (not_found_message n)]))"

definition display_habit_info :: "database \<Rightarrow> string \<Rightarrow> cli_output list" where
  "display_habit_info db name =
     (case get_info db (lower (strip name)) of
        InfoNotFound n \<Rightarrow> [Line (not_found_message n)]
      | Info rows \<Rightarrow>
          [Grid [''Id'', ''Name'', ''Description'', ''Periodicity'', ''Creation date'']
             (map (\<lambda>r. [str_int (h_id r), h_name r, h_description r, h_periodicity r, h_date r])
                rows)])"

fun analyse_habits :: "database \<Rightarrow> analysis \<Rightarrow> cli_output list result" where
  "analyse_habits db TrackedHabits = Inr (display_tracked_habits db)"
| "analyse_habits db (SamePeriodicity p) = Inr (display_habits_with_same_periodicity db p)"
| "analyse_habits db LongestStreak = display_longest_run_streak db"
| "analyse_habits db (LongestStreakFor name) = display_longest_run_streak_for_habit db name"
| "analyse_habits db (HabitInfo name) = Inr (display_habit_info db name)"

definition update_habit_cli ::
  "datetime \<Rightarrow> database \<Rightarrow> string \<Rightarrow> string \<Rightarrow> string \<Rightarrow> update_choice
     \<Rightarrow> (cli_output list \<times> database) result" where
  "update_habit_cli now db name new_name new_description new_periodicity =
     (let habit = habit_init now (lower (strip name)) ''no description'' ''daily'' None
      in rbind (update habit db (or_none (lower (strip new_name))) (or_none new_description)
                  (or_none (update_text new_periodicity)))
           (\<lambda>(response, db'). Inr ([Line (render_habit_msg response)], db')))"

definition delete_habit :: "datetime \<Rightarrow> database \<Rightarrow> string \<Rightarrow> cli_output list \<times> database" where
  "delete_habit now db name =
     (let habit = habit_init now (lower (strip name)) ''no description'' ''daily'' None
      in case delete habit db of (response, db') \<Rightarrow> ([Line (render_habit_msg response)], db'))"

definition reset_habit_tracker :: "datetime \<Rightarrow> database \<Rightarrow> string \<Rightarrow> cli_output list \<times> database" where
  "reset_habit_tracker now db name =
     (let habit = habit_init now (lower (strip name)) ''no description'' ''daily'' None
      in case reset_in_db habit db of
           (response, db') \<Rightarrow> ([Line (render_habit_msg response)], db'))"

definition delete_all_data :: "database \<Rightarrow> bool \<Rightarrow> bool \<Rightarrow> cli_output list \<times> database" where
  "delete_all_data db confirm1 confirm2 =
     (if confirm1 then
        (if confirm2
         then (case delete_db db of (response, db') \<Rightarrow> ([Line (render_db_msg response)], db'))
         else ([Line ''Operation canceled.''], db))
      else ([Line ''Operation canceled.''], db))"

section \<open>The main loop\<close>

text \<open>The body of the loop: the branch of each choice.\<close>

fun handle :: "datetime \<Rightarrow> command \<Rightarrow> database \<Rightarrow> (cli_output list \<times> database) result" where
  "handle now (CreateHabit name desc periodicity) db =
     Inr (create_habit now db name desc periodicity)"
| "handle now (CheckOff name date) db = check_off_habit now db name date"
| "handle now (Analyse choice) db = rbind (analyse_habits db choice) (\<lambda>out. Inr (out, db))"
| "handle now (UpdateHabit name new_name new_description new_periodicity) db =
     update_habit_cli now db name new_name new_description new_periodicity"
| "handle now (DeleteHabit name) db = Inr (delete_habit now db name)"
| "handle now (ResetTracker name) db = Inr (reset_habit_tracker now db name)"
| "handle now (DeleteAll confirm1 confirm2) db = Inr (delete_all_data db confirm1 confirm2)"
| "handle now Exit db = Inr ([Line ''Ciao, C U around! ;)''], db)"

text \<open>How a session ends: the user chose \<open>Exit\<close>, the script is used up and the
  program waits at the menu, or an exception left the loop.\<close>

datatype session =
    Stopped "cli_output list" database
  | Waiting "cli_output list" database
  | Crashed py_error "cli_output list" database

fun menu_loop :: "database \<Rightarrow> cli_output list \<Rightarrow> (datetime \<times> command) list \<Rightarrow> session" where
  "menu_loop db out [] = Waiting out db"
| "menu_loop db out ((now, choice) # script) =
     (case handle now choice db of
        Inl e \<Rightarrow> Crashed e out db
      | Inr (printed, db') \<Rightarrow>
          if choice = Exit then Stopped (out @ printed) db'
          else menu_loop db' (out @ printed) script)"

text \<open>\<open>HabitTrackerCLI()\<close> opens \<open>habits.db\<close>, whose content is \<open>stored\<close>, and
  \<open>run\<close> loads the predefined data into a database without habits before it enters
  the loop. The answer to \<open>Are you ready to start?\<close> is not used.\<close>

definition cli_init :: "database option \<Rightarrow> database" where
  "cli_init stored = create_tables stored"

definition run :: "(nat \<Rightarrow> datetime) \<Rightarrow> database option \<Rightarrow> (datetime \<times> command) list \<Rightarrow> session" where
  "run clock stored script =
     (case check_and_populate_dummy_data clock (cli_init stored) of
        (population_message, db) \<Rightarrow>
          menu_loop db [Line (render_population_msg population_message)] script)"

section \<open>Vocabulary of the statements\<close>

text \<open>Every command of the script is handled at a time the clock can show.\<close>

definition script_ok :: "(datetime \<times> command) list \<Rightarrow> bool" where
  "script_ok script \<longleftrightarrow> list_all (\<lambda>(now, choice). clock_ok now) script"

text \<open>A short script for the statements below.\<close>

definition demo_script :: "(datetime \<times> command) list" where
  "demo_script =
     [(demo_now, CreateHabit '' Read '' ''ten pages'' Daily),
      (demo_now, CheckOff ''read'' []),
      (demo_now, Analyse (LongestStreakFor ''READ''))]"

fun is_update :: "command \<Rightarrow> bool" where
  "is_update (UpdateHabit name new_name new_description new_periodicity) = True"
| "is_update _ = False"

definition no_update :: "(datetime \<times> command) list \<Rightarrow> bool" where
  "no_update script \<longleftrightarrow> list_all (\<lambda>(now, choice). \<not> is_update choice) script"

fun final_db :: "session \<Rightarrow> database" where
  "final_db (Stopped out db) = db"
| "final_db (Waiting out db) = db"
| "final_db (Crashed e out db) = db"

section \<open>The handlers keep the database well-formed\<close>

lemma periodicity_text_ok [simp]: "periodicity_ok (periodicity_text p)"
  by (cases p) (simp_all add: periodicity_ok_def)

lemma or_none_simps [simp]:
  "truthy (or_none x) \<longleftrightarrow> x \<noteq> []" "x \<noteq> [] \<Longrightarrow> the (or_none x) = x"
  by (simp_all add: or_none_def)

lemma create_habit_app_ok:
  "app_ok db \<Longrightarrow> app_ok (snd (create_habit now db name desc p))"
  using store_app_ok [of db "habit_init now (lower (strip name)) desc (periodicity_text p) None"]
  by (simp add: create_habit_def case_prod_beta habit_init_def Let_def)

lemma check_off_habit_app_ok:
  assumes "app_ok db" and "clock_ok now"
  shows "\<exists>out db'. check_off_habit now db name date = Inr (out, db') \<and> app_ok db'"
  using add_event_app_ok [OF assms,
      of "habit_init now (lower (strip name)) ''No description'' ''daily'' None" "or_none date"]
  by (auto simp: check_off_habit_def Let_def)

lemma display_streak_for_habit_total:
  assumes "app_ok db"
  shows "\<exists>out. display_longest_run_streak_for_habit db name = Inr out"
proof -
  from app_ok_calculate_streak [OF assms] obtain r where
    "calculate_streak db (lower (strip name)) = Inr r" by blast
  then show ?thesis
    by (cases r) (simp_all add: display_longest_run_streak_for_habit_def)
qed

lemma analyse_habits_total:
  assumes "app_ok db"
  shows "\<exists>out. analyse_habits db choice = Inr out"
  using display_streak_for_habit_total [OF assms] app_ok_longest_streak_across [OF assms]
  by (cases choice) (simp_all add: display_longest_run_streak_def)

lemma update_habit_cli_app_ok:
  assumes "app_ok db"
  shows "case update_habit_cli now db name new_name nd np of
           Inl e \<Rightarrow> e = IntegrityError | Inr (out, db') \<Rightarrow> app_ok db'"
proof -
  have "lower (strip (lower (strip new_name))) = lower (strip new_name)"
    by (simp add: strip_lower)
  moreover have "update_text np \<noteq> [] \<Longrightarrow> periodicity_ok (update_text np)"
    by (cases np) simp_all
  ultimately show ?thesis
    using update_app_ok [OF assms,
        of "or_none (lower (strip new_name))" "or_none (update_text np)"
          "habit_init now (lower (strip name)) ''no description'' ''daily'' None" "or_none nd"]
    by (auto simp: update_habit_cli_def Let_def split: sum.splits)
qed

lemma handle_app_ok:
  assumes "app_ok db" and "clock_ok now"
  shows "case handle now choice db of
           Inl e \<Rightarrow> e = IntegrityError \<and> is_update choice | Inr (out, db') \<Rightarrow> app_ok db'"
proof (cases choice)
  case (CreateHabit name desc p)
  with create_habit_app_ok [OF assms(1), of now name desc p] show ?thesis
    by (simp add: case_prod_beta)
next
  case (CheckOff name date)
  with check_off_habit_app_ok [OF assms, of name date] show ?thesis by auto
next
  case (Analyse a)
  with analyse_habits_total [OF assms(1), of a] assms(1) show ?thesis by auto
next
  case (UpdateHabit name new_name nd np)
  with update_habit_cli_app_ok [OF assms(1), of now name new_name nd np] show ?thesis
    by (auto split: sum.splits)
next
  case (DeleteHabit name)
  with assms(1) show ?thesis by (simp add: delete_habit_def case_prod_beta delete_app_ok Let_def)
next
  case (ResetTracker name)
  with assms(1) show ?thesis
    by (simp add: reset_habit_tracker_def case_prod_beta reset_in_db_app_ok Let_def)
next
  case (DeleteAll c1 c2)
  with assms(1) app_ok_filter(3) [OF assms(1)] show ?thesis
    by (simp add: delete_all_data_def case_prod_beta)
next
  case Exit
  with assms(1) show ?thesis by simp
qed

section \<open>Sessions\<close>

lemma menu_loop_app_ok:
  assumes "app_ok db" and "script_ok script"
  shows "app_ok (final_db (menu_loop db out script)) \<and>
    (\<forall>e out' db'. menu_loop db out script = Crashed e out' db' \<longrightarrow> e = IntegrityError)"
  using assms
proof (induction script arbitrary: db out)
  case Nil
  then show ?case by simp
next
  case (Cons step script)
  obtain now choice where step: "step = (now, choice)" by (cases step)
  from Cons.prems have now: "clock_ok now" and rest: "script_ok script"
    by (simp_all add: script_ok_def step)
  show ?case
  proof (cases "handle now choice db")
    case (Inl e)
    with handle_app_ok [OF Cons.prems(1) now, of choice] Cons.prems(1) show ?thesis
      by (simp add: step)
  next
    case (Inr res)
    obtain pr db' where res: "res = (pr, db')" by (cases res)
    from handle_app_ok [OF Cons.prems(1) now, of choice] Inr res have "app_ok db'" by simp
    with Cons.IH [OF this rest] Inr res show ?thesis by (simp add: step)
  qed
qed

lemma menu_loop_append:
  "menu_loop db out (script @ rest) =
     (case menu_loop db out script of
        Waiting out' db' \<Rightarrow> menu_loop db' out' rest
      | Stopped out' db' \<Rightarrow> Stopped out' db'
      | Crashed e out' db' \<Rightarrow> Crashed e out' db')"
  by (induction script arbitrary: db out) (auto split: sum.splits)

lemma menu_loop_Exit:
  "menu_loop db out ((now, Exit) # rest) = Stopped (out @ [Line ''Ciao, C U around! ;)'']) db"
  by simp

lemma menu_loop_no_update:
  assumes "app_ok db" and "script_ok script" and "no_update script"
  shows "(\<exists>out' db'. menu_loop db out script = Waiting out' db' \<and> app_ok db') \<or>
    (\<exists>out' db'. menu_loop db out script = Stopped (out' @ [Line ''Ciao, C U around! ;)'']) db' \<and>
       app_ok db')"
  using assms
proof (induction script arbitrary: db out)
  case Nil
  then show ?case by simp
next
  case (Cons step script)
  obtain now choice where step: "step = (now, choice)" by (cases step)
  from Cons.prems have now: "clock_ok now" "\<not> is_update choice" and rest: "script_ok script"
    "no_update script"
    by (simp_all add: script_ok_def no_update_def step)
  from handle_app_ok [OF Cons.prems(1) now(1), of choice] now(2)
  obtain pr db' where h: "handle now choice db = Inr (pr, db')" "app_ok db'"
    by (cases "handle now choice db") auto
  show ?case
  proof (cases "choice = Exit")
    case True
    with Cons.prems(1) show ?thesis by (simp add: step)
  next
    case False
    with Cons.IH [OF h(2) rest, of "out @ pr"] h(1) show ?thesis by (simp add: step)
  qed
qed

section \<open>The exception of a rename\<close>

lemma app_ok_habits_ci:
  assumes "app_ok db" and "lower n = n"
  shows "habits_ci db n = habits_named db n"
proof -
  from assms(1) have "names_normalised db" by (simp add: app_ok_def)
  from normalised_sql_lower [OF this] assms(2) show ?thesis
    unfolding habits_ci_def habits_named_def
    by (intro filter_cong refl) (simp add: sql_lower_eq_lower)
qed

lemma habits_named_fetchone:
  "habits_named db n \<noteq> [] \<Longrightarrow> fetchone (map h_name (habits_named db n)) = Some n"
  by (cases "habits_named db n")
    (auto simp: habits_named_def filter_eq_Cons_iff)

lemma update_habit_cli_crash:
  assumes "app_ok db"
  shows "update_habit_cli now db name new_name nd np = Inl IntegrityError \<longleftrightarrow>
    habits_named db (lower (strip name)) \<noteq> [] \<and> lower (strip new_name) \<noteq> [] \<and>
    lower (strip new_name) \<noteq> lower (strip name) \<and>
    habits_named db (lower (strip new_name)) \<noteq> []"
proof -
  define n where "n = lower (strip name)"
  define nn where "nn = lower (strip new_name)"
  have n: "lower n = n" "lower (strip n) = n" by (simp_all add: n_def strip_lower)
  note ci = app_ok_habits_ci [OF assms n(1)]
  show ?thesis
  proof (cases "habits_named db n = []")
    case True
    then show ?thesis
      by (simp add: update_habit_cli_def update_def Let_def proof_habit_iff ci n
          flip: n_def nn_def)
  next
    case False
    from habits_named_fetchone [OF this] False show ?thesis
      by (auto simp: update_habit_cli_def update_def update_habit_def Let_def proof_habit_iff ci
          rename_habit_def rbind_eq_Inl_iff or_none_def n simp flip: n_def nn_def)
  qed
qed

section \<open>Properties of the command-line interface\<close>

text \<open>C11. Every command keeps the database well-formed. On a well-formed database
  and at a valid time of the year 1000 or later, the handler of any choice of the main
  menu, with any answers to its prompts, either returns with a well-formed database
  or raises \<open>IntegrityError\<close>, and it raises only when the choice is
  \<open>Update an existing habit\<close>.\<close>

theorem handle_keeps_well_formed:
  assumes "app_ok db" and "clock_ok now"
  shows "case handle now choice db of
           Inl e \<Rightarrow> e = IntegrityError \<and> is_update choice | Inr (out, db') \<Rightarrow> app_ok db'"
  using assms by (rule handle_app_ok)

theorem handle_keeps_well_formed_witness:
  "case handle demo_now (CheckOff ''Workout'' ''2024-12-05'') demo_db of
     Inl e \<Rightarrow> e = IntegrityError \<and> is_update (CheckOff ''Workout'' ''2024-12-05'')
   | Inr (out, db') \<Rightarrow> app_ok db'"
  by (rule handle_keeps_well_formed; code_simp)

text \<open>C14. When an update ends the session. On a well-formed database the handler
  of \<open>Update an existing habit\<close> raises \<open>IntegrityError\<close>, which nothing catches,
  exactly when the habit to update is stored and the new name, trimmed and in lower
  case, is not empty, differs from the old name and is the name of a stored habit.\<close>

theorem update_habit_cli_raises_iff:
  assumes "app_ok db"
  shows "update_habit_cli now db name new_name nd np = Inl IntegrityError \<longleftrightarrow>
    habits_named db (lower (strip name)) \<noteq> [] \<and> lower (strip new_name) \<noteq> [] \<and>
    lower (strip new_name) \<noteq> lower (strip name) \<and>
    habits_named db (lower (strip new_name)) \<noteq> []"
  using assms by (rule update_habit_cli_crash)

theorem update_habit_cli_raises_iff_witness:
  "update_habit_cli demo_now demo_db ''workout'' ''Car Wash '' [] KeepPeriodicity =
     Inl IntegrityError \<longleftrightarrow>
   habits_named demo_db (lower (strip ''workout'')) \<noteq> [] \<and>
   lower (strip ''Car Wash '') \<noteq> [] \<and>
   lower (strip ''Car Wash '') \<noteq> lower (strip ''workout'') \<and>
   habits_named demo_db (lower (strip ''Car Wash '')) \<noteq> []"
  by (rule update_habit_cli_raises_iff; code_simp)

end
