(* ===== verification/Refinement.thy ===== *)
theory Refinement
  imports Database
begin

text \<open>
  What the persistence layer promises to its callers, as operations on a finite map
  from the name of a habit to its description, its periodicity and the list of its
  check-offs in the order they were recorded, and the function \<open>abs_db\<close> that reads
  this map off the two tables. The lemmas show that on a database that satisfies the
  constraints of the schema and whose names are normalised, every writing method of
  \<open>Database\<close> is the corresponding operation on the map.
\<close>

section \<open>The abstract tracker\<close>

record entry =
  e_description :: string
  e_periodicity :: string
  e_checkoffs :: "string list"

type_synonym tracker = "string \<rightharpoonup> entry"

definition t_add :: "string \<Rightarrow> string \<Rightarrow> string \<Rightarrow> tracker \<Rightarrow> tracker" where
  "t_add n d p t =
     (if n = [] \<or> n \<in> dom t then t
      else t(n \<mapsto> \<lparr>e_description = d, e_periodicity = p, e_checkoffs = []\<rparr>))"

definition t_check_off :: "string \<Rightarrow> string \<Rightarrow> tracker \<Rightarrow> tracker" where
  "t_check_off n date t =
     (case t n of None \<Rightarrow> t
      | Some e \<Rightarrow> t(n \<mapsto> e\<lparr>e_checkoffs := e_checkoffs e @ [date]\<rparr>))"

definition t_delete :: "string \<Rightarrow> tracker \<Rightarrow> tracker" where
  "t_delete n t = t(n := None)"

definition t_reset :: "string \<Rightarrow> tracker \<Rightarrow> tracker" where
  "t_reset n t = (case t n of None \<Rightarrow> t | Some e \<Rightarrow> t(n \<mapsto> e\<lparr>e_checkoffs := []\<rparr>))"

definition t_clear :: "tracker \<Rightarrow> tracker" where
  "t_clear t = Map.empty"

text \<open>An update renames first, which fails when the new name is taken by another
  habit, and then replaces the description and the periodicity that are given.\<close>

definition t_update ::
  "string \<Rightarrow> string option \<Rightarrow> string option \<Rightarrow> string option \<Rightarrow> tracker \<Rightarrow> tracker result"
where
  "t_update old nn nd np t =
     (case t old of
        None \<Rightarrow> Inr t
      | Some e \<Rightarrow>
          if truthy nn \<and> the nn \<noteq> old \<and> the nn \<in> dom t then Inl IntegrityError
          else Inr ((t(old := None))
                 ((if truthy nn then the nn else old) \<mapsto>
                    e\<lparr>e_description := (if truthy nd then the nd else e_description e),
                      e_periodicity := (if truthy np then the np else e_periodicity e)\<rparr>)))"

text \<open>The map a database stands for.\<close>

definition abs_db :: "database \<Rightarrow> tracker" where
  "abs_db db n =
     (case habits_named db n of
        [] \<Rightarrow> None
      | r # _ \<Rightarrow> Some \<lparr>e_description = h_description r, e_periodicity = h_periodicity r,
                         e_checkoffs = map t_check_of_date (events_of db n)\<rparr>)"

section \<open>The methods implement the operations\<close>

lemma abs_db_dom: "dom (abs_db db) = h_name ` set (habit_rows db)"
  by (auto simp: abs_db_def dom_def habits_named_eq_Nil_iff split: list.splits)

lemma filter_other_key:
  "filter (\<lambda>x. f x \<noteq> n \<and> f x = m) xs =
     (if m = n then [] else filter (\<lambda>x. f x = m) xs)"
  by (induction xs) auto

lemma delete_habit_data_queries [simp]:
  "habits_named (delete_habit_data db n) m = (if m = n then [] else habits_named db m)"
  "events_of (delete_habit_data db n) m = (if m = n then [] else events_of db m)"
  by (simp_all add: delete_habit_data_def habits_named_def events_of_def filter_other_key)

lemma delete_tracker_data_queries [simp]:
  "habits_named (delete_tracker_data db n) m = habits_named db m"
  "events_of (delete_tracker_data db n) m = (if m = n then [] else events_of db m)"
  by (simp_all add: delete_tracker_data_def habits_named_def events_of_def filter_other_key)

lemma abs_delete_habit_data: "abs_db (delete_habit_data db n) = t_delete n (abs_db db)"
  by (rule ext) (simp add: abs_db_def t_delete_def split: list.splits)

lemma abs_delete_tracker_data: "abs_db (delete_tracker_data db n) = t_reset n (abs_db db)"
  by (rule ext) (simp add: abs_db_def t_reset_def split: list.splits)

lemma abs_delete_db: "abs_db (snd (delete_db db)) = t_clear (abs_db db)"
  by (rule ext) (simp add: abs_db_def t_clear_def delete_db_def habits_named_def)

lemma normalised_ci:
  assumes "names_normalised db"
  shows "habits_ci db n = habits_named db (lower n)"
proof -
  have "lower (h_name r) = h_name r" if "r \<in> set (habit_rows db)" for r
    using that assms by (metis names_normalised_def lower_idem)
  then show ?thesis
    unfolding habits_ci_def habits_named_def
    by (intro filter_cong refl) (simp add: sql_lower_eq_lower)
qed

lemma abs_add_habit:
  assumes "fk_ok db" and "names_normalised db"
  shows "abs_db (snd (add_habit db name d p t)) =
    t_add (lower (strip name)) (if strip d = [] then ''No description'' else d) p (abs_db db)"
proof
  fix m
  let ?n = "lower (strip name)"
  have low: "lower ?n = ?n" by simp
  have ev: "events_of db ?n = []" if "habits_named db ?n = []"
    using that assms(1) by (force simp: events_of_def fk_ok_def habits_named_eq_Nil_iff filter_empty_conv)
  show "abs_db (snd (add_habit db name d p t)) m =
      t_add ?n (if strip d = [] then ''No description'' else d) p (abs_db db) m"
    using ev
    by (auto simp: add_habit_eq Let_def t_add_def abs_db_def proof_habit_iff
        normalised_ci [OF assms(2)] low new_habit_row_def habits_named_def events_of_def dom_def
        split: list.splits)
qed

lemma abs_increment_tracker:
  assumes "names_normalised db"
  shows "abs_db (snd (increment_tracker now db name e)) =
    t_check_off (lower name) (event_date_or_now now e) (abs_db db)"
proof
  fix m
  show "abs_db (snd (increment_tracker now db name e)) m =
      t_check_off (lower name) (event_date_or_now now e) (abs_db db) m"
  proof (cases "habits_named db (lower name)")
    case Nil
    then show ?thesis
      by (simp add: increment_tracker_eq normalised_ci [OF assms] t_check_off_def abs_db_def)
  next
    case (Cons r rs)
    then have "h_name r = lower name"
      by (auto simp: habits_named_def filter_eq_Cons_iff)
    with Cons show ?thesis
      by (auto simp: increment_tracker_eq normalised_ci [OF assms] t_check_off_def abs_db_def
          habits_named_def events_of_def split: list.splits)
  qed
qed

subsection \<open>update\_habit\<close>

lemma filter_renamed:
  assumes "\<And>x. f x = old \<Longrightarrow> f (g x) = new" and "new = old \<or> new \<notin> f ` set xs"
  shows "filter (\<lambda>x. f x = m) (map (\<lambda>x. if f x = old then g x else x) xs) =
    (if m = new then map g (filter (\<lambda>x. f x = old) xs)
     else if m = old then [] else filter (\<lambda>x. f x = m) xs)"
  using assms(2) by (induction xs) (auto simp: assms(1))

lemma rename_habit_queries:
  assumes "rename_habit db new old = Inr db1" and "fk_ok db" and "habits_named db old \<noteq> []"
  shows "habits_named db1 m =
      (if m = new then map (\<lambda>r. r\<lparr>h_name := new\<rparr>) (habits_named db old)
       else if m = old then [] else habits_named db m)"
    and "map t_check_of_date (events_of db1 m) =
      (if m = new then map t_check_of_date (events_of db old)
       else if m = old then [] else map t_check_of_date (events_of db m))"
proof -
  from assms(1,3) have free: "new = old \<or> new \<notin> h_name ` set (habit_rows db)"
    and db1: "db1 = db\<lparr>habit_rows :=
        map (\<lambda>r. if h_name r = old then r\<lparr>h_name := new\<rparr> else r) (habit_rows db),
      tracker_rows :=
        map (\<lambda>t. if t_habit_name t = old then t\<lparr>t_habit_name := new\<rparr> else t)
          (tracker_rows db)\<rparr>"
    by (auto simp: rename_habit_def habits_named_eq_Nil_iff split: if_splits)
  from free assms(2) have free': "new = old \<or> new \<notin> t_habit_name ` set (tracker_rows db)"
    by (auto simp: fk_ok_def)
  show "habits_named db1 m =
      (if m = new then map (\<lambda>r. r\<lparr>h_name := new\<rparr>) (habits_named db old)
       else if m = old then [] else habits_named db m)"
    unfolding db1 habits_named_def using filter_renamed [where f = h_name and xs = "habit_rows db" and m = m, OF _ free]
    by simp
  show "map t_check_of_date (events_of db1 m) =
      (if m = new then map t_check_of_date (events_of db old)
       else if m = old then [] else map t_check_of_date (events_of db m))"
    unfolding db1 events_of_def
    using filter_renamed [where f = t_habit_name and xs = "tracker_rows db" and m = m, OF _ free']
    by (simp add: comp_def)
qed

lemma set_description_queries [simp]:
  "habits_named (set_description db d n) m =
     (if m = n then map (\<lambda>r. r\<lparr>h_description := d\<rparr>) (habits_named db n) else habits_named db m)"
  "events_of (set_description db d n) m = events_of db m"
  using filter_renamed [of h_name n "\<lambda>r. r\<lparr>h_description := d\<rparr>" n "habit_rows db" m]
  by (simp_all add: set_description_def habits_named_def events_of_def)

lemma set_periodicity_queries [simp]:
  "habits_named (set_periodicity db p n) m =
     (if m = n then map (\<lambda>r. r\<lparr>h_periodicity := p\<rparr>) (habits_named db n) else habits_named db m)"
  "events_of (set_periodicity db p n) m = events_of db m"
  using filter_renamed [of h_name n "\<lambda>r. r\<lparr>h_periodicity := p\<rparr>" n "habit_rows db" m]
  by (simp_all add: set_periodicity_def habits_named_def events_of_def)

text \<open>The two assignments that follow the renaming, on the abstract side.\<close>

lemma abs_set_fields:
  assumes "habits_named db1 x = [r]"
  shows "abs_db (if truthy np
      then set_periodicity (if truthy nd then set_description db1 (the nd) x else db1) (the np) x
      else (if truthy nd then set_description db1 (the nd) x else db1)) m =
    (if m = x
     then Some \<lparr>e_description = (if truthy nd then the nd else h_description r),
       e_periodicity = (if truthy np then the np else h_periodicity r),
       e_checkoffs = map t_check_of_date (events_of db1 x)\<rparr>
     else abs_db db1 m)"
  using assms by (simp add: abs_db_def split: list.splits)

lemma abs_update_habit:
  assumes "db_ok db" and "names_normalised db"
  shows "map_sum id (abs_db \<circ> snd) (update_habit db old nn nd np) =
    t_update (lower old) nn nd np (abs_db db)"
proof (cases "habits_named db (lower old)")
  case Nil
  then show ?thesis
    by (simp add: update_habit_def normalised_ci [OF assms(2)] t_update_def abs_db_def)
next
  case (Cons r rs)
  let ?o = "lower old"
  from Cons have r: "h_name r = ?o" "r \<in> set (habit_rows db)"
    by (auto simp: habits_named_def filter_eq_Cons_iff)
  from assms(1) have "distinct (map h_name (habit_rows db))"
    by (simp add: db_ok_def unique_names_def)
  from filter_key_unique [OF this r(2)] have one: "habits_named db ?o = [r]"
    by (simp add: habits_named_def r(1))
  from assms(1) have fk: "fk_ok db" by (simp add: db_ok_def)
  show ?thesis
  proof (cases "truthy nn")
    case False
    have "abs_db (if truthy np
        then set_periodicity (if truthy nd then set_description db (the nd) ?o else db) (the np) ?o
        else (if truthy nd then set_description db (the nd) ?o else db)) =
      (abs_db db)(?o \<mapsto> \<lparr>e_description = (if truthy nd then the nd else h_description r),
         e_periodicity = (if truthy np then the np else h_periodicity r),
         e_checkoffs = map t_check_of_date (events_of db ?o)\<rparr>)"
      by (rule ext) (simp add: abs_set_fields [OF one])
    with False one r(1) show ?thesis
      by (simp add: update_habit_def normalised_ci [OF assms(2)] t_update_def abs_db_def Let_def)
  next
    case True
    then have nn: "truthy nn" .
    show ?thesis
    proof (cases "the nn \<noteq> ?o \<and> habits_named db (the nn) \<noteq> []")
      case True
      with nn one r(1) show ?thesis
        by (auto simp: update_habit_def normalised_ci [OF assms(2)] t_update_def abs_db_def
            rename_habit_def dom_def split: list.splits)
    next
      case False
      then obtain db1 where db1: "rename_habit db (the nn) ?o = Inr db1"
        by (auto simp: rename_habit_def)
      note q = rename_habit_queries [OF db1 fk]
      have named: "habits_named db1 (the nn) = [r\<lparr>h_name := the nn\<rparr>]"
        and events: "map t_check_of_date (events_of db1 (the nn)) =
          map t_check_of_date (events_of db ?o)"
        using q [of "the nn"] one by simp_all
      have other: "abs_db db1 m = ((abs_db db)(?o := None)) m" if "m \<noteq> the nn" for m
        using that q [of m] one by (simp add: abs_db_def split: list.splits)
      have "abs_db (if truthy np
          then set_periodicity (if truthy nd then set_description db1 (the nd) (the nn) else db1)
            (the np) (the nn)
          else (if truthy nd then set_description db1 (the nd) (the nn) else db1)) =
        ((abs_db db)(?o := None))(the nn \<mapsto>
          \<lparr>e_description = (if truthy nd then the nd else h_description r),
           e_periodicity = (if truthy np then the np else h_periodicity r),
           e_checkoffs = map t_check_of_date (events_of db ?o)\<rparr>)"
        by (rule ext) (simp add: abs_set_fields [OF named] events other)
      with nn False one r(1) db1 show ?thesis
        by (auto simp: update_habit_def normalised_ci [OF assms(2)] t_update_def abs_db_def
            Let_def dom_def split: list.splits)
    qed
  qed
qed

section \<open>Properties\<close>

text \<open>C6. The persistence layer implements the abstract tracker: on a database that
  satisfies the constraints of the schema and whose names are normalised, reading the
  map of habits off the tables after \<open>add_habit\<close>, \<open>increment_tracker\<close>,
  \<open>delete_habit_data\<close>, \<open>delete_tracker_data\<close>, \<open>delete_db\<close> or \<open>update_habit\<close>
  gives the same map as adding, checking off, deleting, resetting, clearing or updating
  in the map read off before, and \<open>update_habit\<close> raises \<open>IntegrityError\<close> exactly when
  the abstract update does.\<close>

theorem database_refines_tracker:
  assumes "db_ok db" and "names_normalised db"
  shows "abs_db (snd (add_habit db name d p t)) =
           t_add (lower (strip name)) (if strip d = [] then ''No description'' else d) p
             (abs_db db) \<and>
         abs_db (snd (increment_tracker now db n e)) =
           t_check_off (lower n) (event_date_or_now now e) (abs_db db) \<and>
         abs_db (delete_habit_data db n) = t_delete n (abs_db db) \<and>
         abs_db (delete_tracker_data db n) = t_reset n (abs_db db) \<and>
         abs_db (snd (delete_db db)) = t_clear (abs_db db) \<and>
         map_sum id (abs_db \<circ> snd) (update_habit db n nn nd np) =
           t_update (lower n) nn nd np (abs_db db)"
  using assms
  by (simp add: abs_add_habit abs_increment_tracker abs_delete_habit_data
      abs_delete_tracker_data abs_delete_db abs_update_habit db_ok_def)

theorem database_refines_tracker_witness:
  "abs_db (snd (add_habit demo_db ''Read'' '''' ''daily'' ''2024-12-09 08:30:00'')) =
     t_add (lower (strip ''Read'')) (if strip '''' = [] then ''No description'' else '''')
       ''daily'' (abs_db demo_db) \<and>
   abs_db (snd (increment_tracker demo_now demo_db ''WORKOUT'' None)) =
     t_check_off (lower ''WORKOUT'') (event_date_or_now demo_now None) (abs_db demo_db) \<and>
   abs_db (delete_habit_data demo_db ''WORKOUT'') = t_delete ''WORKOUT'' (abs_db demo_db) \<and>
   abs_db (delete_tracker_data demo_db ''WORKOUT'') = t_reset ''WORKOUT'' (abs_db demo_db) \<and>
   abs_db (snd (delete_db demo_db)) = t_clear (abs_db demo_db) \<and>
   map_sum id (abs_db \<circ> snd) (update_habit demo_db ''WORKOUT'' (Some ''run'') None None) =
     t_update (lower ''WORKOUT'') (Some ''run'') None None (abs_db demo_db)"
  by (rule database_refines_tracker; code_simp)

end
