(* ===== verification/Spec2Isabelle.thy ===== *)
theory Spec2Isabelle
  imports Cli Refinement
begin

text \<open>
  \<^bold>\<open>A verification development for the habit tracker.\<close>

  The program is a command-line habit tracker written in Python over an SQLite
  file. \<open>src/database.py\<close> (class \<open>Database\<close>) owns the connection and the two
  tables \<open>habit\<close> and \<open>tracker\<close>; every method runs one or a few SQL statements
  and commits. \<open>src/habits.py\<close> (classes \<open>Habit\<close> and \<open>DBHabit\<close>) wraps one habit
  and validates what the user typed before it calls the database.
  \<open>src/analytics.py\<close> (class \<open>Analytics\<close>) reads the tables and computes counts,
  listings and streaks. \<open>src/population.py\<close> (class \<open>Population\<close>) loads five
  predefined habits with their check-offs of December 2024 into a database that holds
  no habit. \<open>src/main_cli.py\<close> (class \<open>HabitTrackerCLI\<close>) opens the file, loads the
  predefined data and runs the menu loop, whose handlers ask for their arguments, call
  \<open>DBHabit\<close>, \<open>Database\<close> or \<open>Analytics\<close> and print the answer.

  \<^medskip> \<^bold>\<open>Theories.\<close>

  \<^item> \<open>HT_Prelude\<close>: the exceptions that can escape a method (\<open>py_error\<close>), the result
    type \<open>py_error + 'a\<close> with its bind, Python truthiness of an optional string, the
    named collections \<open>cal_defs\<close>, \<open>row_simps\<close>, \<open>inv_defs\<close>, and list and integer
    division facts shared by the components.
  \<^item> \<open>PyStrings\<close>: \<open>str.strip\<close>, \<open>str.lower\<close>, \<open>str.capitalize\<close> and SQLite's
    \<open>LOWER\<close> on ASCII text, with the laws the name handling relies on (idempotence,
    \<open>strip\<close> and \<open>lower\<close> commute).
  \<^item> \<open>Calendar\<close>: the part of CPython's \<open>datetime\<close> the program uses: proleptic
    Gregorian ordinals (\<open>ymd2ord\<close>), the day count of a difference of two datetimes
    (\<open>timedelta_days\<close>), and \<open>isocalendar\<close>. The lemmas show that ordinals order
    dates, that an ISO year has 52 or 53 weeks, and what \<open>isocalendar\<close> returns
    (\<open>isocalendar_spec\<close>).
  \<^item> \<open>Timestamps\<close>: \<open>datetime.strptime\<close> for the formats \<open>%Y-%m-%d %H:%M:%S\<close> and
    \<open>%Y-%m-%d\<close> as backtracking parsers that try alternatives in the order of the
    regular expression \<open>_strptime\<close> builds, and \<open>strftime\<close> for the first format.
    The lemmas show the round trip \<open>strptime_strftime\<close>, that the text order of
    printed timestamps is the order in time (\<open>strftime_le_iff\<close>,
    \<open>dt_fields_le_iff\<close>), and that a date \<open>strptime\<close> accepts is still accepted
    when midnight is appended (\<open>strptime_date_midnight\<close>).
  \<^item> \<open>SqlDates\<close>: SQLite's \<open>DATE(x)\<close> and \<open>strftime('%Y-%W', x)\<close> on the time
    strings \<open>YYYY-MM-DD\<close> and \<open>YYYY-MM-DD HH:MM[:SS]\<close>. The other spellings SQLite
    accepts give the value \<open>SqlOther\<close>, and the method that meets one returns
    \<open>Inl NotModelled\<close>. The lemmas show how SQLite reads a printed timestamp
    (\<open>sql_datetime_strftime\<close>) and an accepted date followed by midnight
    (\<open>sql_datetime_midnight\<close>): never as \<open>SqlOther\<close>.
  \<^item> \<open>Database\<close>: \<open>src/database.py\<close>. The state is the record \<open>database\<close>: the rows
    of both tables in rowid order and the two \<open>AUTOINCREMENT\<close> counters. Each method
    is a definition of the same name that takes the database and returns the method's
    result with the new database; the messages are the datatype \<open>db_msg\<close>, rendered
    to the program's exact strings by \<open>render_db_msg\<close>. The constraints of the schema
    are checked inside \<open>insert_habit\<close>, \<open>insert_tracker\<close> and \<open>rename_habit\<close>, so
    that the \<open>except\<close> branches of the code are branches of the model. The
    invariant \<open>db_ok\<close> states the schema's constraints; \<open>names_ci_unique\<close> and
    \<open>names_normalised\<close> state what the application adds.
  \<^item> \<open>Refinement\<close>: what \<open>Database\<close> promises to its callers, as operations
    (\<open>t_add\<close>, \<open>t_check_off\<close>, \<open>t_delete\<close>, \<open>t_reset\<close>, \<open>t_clear\<close>,
    \<open>t_update\<close>) on a map from the name of a habit to its description, periodicity
    and list of check-offs, and the function \<open>abs_db\<close> that reads this map off the
    two tables.
  \<^item> \<open>Habits\<close>: \<open>src/habits.py\<close>. The record \<open>habit\<close> is the object; \<open>store\<close>,
    \<open>add_event\<close>, \<open>delete\<close>, \<open>update\<close> and \<open>reset_in_db\<close> are the methods of
    \<open>DBHabit\<close>, with their answers as the datatype \<open>habit_msg\<close>.
  \<^item> \<open>Analytics\<close>: \<open>src/analytics.py\<close>. \<open>calculate_streak\<close> is the method with
    its loop \<open>streak_loop\<close> over the sorted check-off strings; \<open>daily_adjacent\<close>
    and \<open>weekly_adjacent\<close> are the two tests of the loop body;
    \<open>longest_streak_across\<close> with \<open>across_loop\<close> is the aggregator. The
    specification \<open>longest_streak_spec\<close> is the greatest length of a contiguous run
    of pairwise adjacent check-offs.
  \<^item> \<open>Wellformed\<close>: the invariant \<open>app_ok\<close> of the application: the constraints of
    the schema, normalised names, periodicities \<open>daily\<close> or \<open>weekly\<close>, and stored
    check-offs that \<open>strptime\<close> parses and SQLite reads inside the modelled domain.
  \<^item> \<open>Population\<close>: \<open>src/population.py\<close>. \<open>habits\<close> and the five lists of
    check-offs are the data; \<open>add_checkoffs\<close>, \<open>populate_dummy_data\<close> and
    \<open>check_and_populate_dummy_data\<close> are the methods. \<open>december_2024\<close> is the
    database they produce, in closed form.
  \<^item> \<open>Cli\<close>: \<open>src/main_cli.py\<close>. The user's choices and answers are the datatype
    \<open>command\<close>; every handler is a definition of its name (\<open>update_habit_cli\<close> for
    \<open>update_habit\<close>, whose name the database method has); \<open>handle\<close> is the body
    of the loop, \<open>menu_loop\<close> the loop over a script of choices, \<open>run\<close> the method
    \<open>run\<close>. A session ends as \<open>Stopped\<close>, \<open>Waiting\<close> (the script is used up) or
    \<open>Crashed\<close> (an exception left the loop).
  \<^item> \<open>Spec2Isabelle\<close> (this theory): the properties of whole sessions.

  \<^medskip> \<^bold>\<open>What the lemmas show.\<close>

  \<^item> Every method of \<open>Database\<close> and of \<open>DBHabit\<close> keeps \<open>db_ok\<close>; \<open>add_habit\<close>
    also keeps case-insensitive uniqueness and normalised names, while \<open>update_habit\<close>
    called directly does not. The \<open>except\<close> branches of \<open>add_habit\<close> and
    \<open>increment_tracker\<close> are dead: the checks before the \<open>INSERT\<close> imply that the
    constraint holds.
  \<^item> On a database that satisfies \<open>db_ok\<close> and whose names are normalised, every
    writing method of \<open>Database\<close> is the corresponding operation of the abstract
    tracker under \<open>abs_db\<close>; in particular a renaming carries the check-offs of the
    habit along, and \<open>update_habit\<close> raises exactly when the new name is taken by
    another habit.
  \<^item> \<open>add_event\<close> refuses a second check-off on the same day for a daily habit and
    in the same week of SQLite's \<open>%W\<close> for a weekly one, raises \<open>TypeError\<close> for
    any other periodicity, and never refuses an unpadded date.
  \<^item> \<open>calculate_streak\<close> returns the longest streak of the specification whenever
    the periodicity is \<open>daily\<close> or \<open>weekly\<close> and the stored strings parse; it
    returns 1 for any other periodicity; the result lies between 0 and the number of
    check-offs; the only exception it can raise on a database that satisfies the
    foreign key is \<open>ValueError\<close>. On timestamps the program printed, sorting the
    column as text sorts it by time.
  \<^item> \<open>daily_adjacent\<close> holds exactly when the elapsed time is at least one and less
    than two days, which differs from a difference of one calendar day as soon as the
    times of day differ. \<open>weekly_adjacent\<close> agrees with "the next ISO week" except
    around a week 53: it rejects the step from week 53 to week 1 and accepts the
    step from week 52 to week 1 of the next year across a skipped week 53.
  \<^item> \<open>longest_streak_across\<close> returns the habits whose streak is the greatest, in
    table order, and never raises \<open>TypeError\<close>.
  \<^item> \<open>populate_dummy_data\<close> loads 5 habits and 88 check-offs; their streaks are 15,
    2, 11, 3 and 14, and \<open>workout\<close> alone has the longest.
  \<^item> Every handler of the interface keeps \<open>app_ok\<close>; on a well-formed database the
    only exception that can end a session is the \<open>IntegrityError\<close> of renaming a
    habit to the name of another one; a session ends when the user chooses \<open>Exit\<close>.

  \<^medskip> \<^bold>\<open>Bounds and conventions.\<close> Integers are \<open>int\<close>, as Python's are unbounded.
  Years range over 1 to 9999 as \<open>datetime\<close> requires (\<open>valid_date\<close>). The statements
  about printed timestamps assume a clock of the year 1000 or later (\<open>clock_ok\<close>),
  because the C library prints earlier years with fewer than four digits, which
  \<open>strptime\<close> then rejects. Strings are lists of 8-bit characters and the string
  functions are exact on ASCII. The clock is a parameter \<open>now\<close> of the operations
  that read it; \<open>populate_dummy_data\<close> takes one reading for each habit it stores,
  and a handler of the interface uses one reading for the habit object it builds and
  the method it calls. All recursion is structural over the list the code iterates
  (the check-offs, the habits, the script of a session), so no fuel is needed and every
  definition is total and executable; a session whose script is used up before
  \<open>Exit\<close> is the value \<open>Waiting\<close>.

  \<^medskip> \<^bold>\<open>Not modelled.\<close> The prompts of \<open>questionary\<close> themselves: an answer is
  taken as given, and a prompt that is interrupted (it then returns \<open>None\<close>, on which
  the handlers call \<open>strip\<close>) is outside the model. The layout that \<open>tabulate\<close>
  draws: a table is its headers and rows. Opening, committing and closing the SQLite
  connection, and failures of the file system. Time strings outside the domain of
  \<open>SqlDates\<close>, which a caller of \<open>Database\<close> can store directly but the interface
  never writes. Names and descriptions outside ASCII. The test files
  \<open>src/test_*.py\<close>.
\<close>

lemma run_fresh:
  "run clock None script =
     menu_loop (december_2024 clock empty_db)
       [Line ''No data found in the database. Dummy data populated successfully.''] script"
  by (simp add: run_def cli_init_def create_tables_def check_and_populate_dummy_data_def
      get_current_habits_def populate_dummy_data_eq empty_db_def)

lemma str_int_15: "str_int 15 = ''15''"
  by code_simp

lemma run_app_ok:
  assumes "app_ok (cli_init stored)" and "script_ok script"
  shows "app_ok (final_db (run clock stored script))"
    and "run clock stored script = Crashed e out db \<Longrightarrow> e = IntegrityError"
  using menu_loop_app_ok [OF check_and_populate_app_ok [OF assms(1), of clock] assms(2)]
  by (auto simp: run_def case_prod_beta)

text \<open>C5. A session never corrupts the database and can only end with the exception
  of a rename. When the file holds a well-formed database, or does not exist, and every
  command is handled at a valid time of the year 1000 or later, then whatever the
  user chooses and answers, the database at the end of the session is well-formed,
  and if an exception ended the session it is \<open>IntegrityError\<close>: neither
  \<open>TypeError\<close> nor \<open>ValueError\<close> can occur, and no timestamp outside the modelled
  domain of SQLite's date functions is ever read.\<close>

theorem session_safe:
  assumes "app_ok (cli_init stored)" and "script_ok script"
  shows "app_ok (final_db (run clock stored script)) \<and>
    (case run clock stored script of Crashed e out db \<Rightarrow> e = IntegrityError | _ \<Rightarrow> True)"
  using run_app_ok [OF assms, of clock]
  by (cases "run clock stored script") simp_all

theorem session_safe_witness:
  "app_ok (final_db (run (\<lambda>_. demo_now) (Some demo_db) demo_script)) \<and>
    (case run (\<lambda>_. demo_now) (Some demo_db) demo_script of
       Crashed e out db \<Rightarrow> e = IntegrityError | _ \<Rightarrow> True)"
  by (rule session_safe; code_simp)


text \<open>C20. A session ends when the user chooses \<open>Exit\<close>. Whatever precedes it in the
  script, a script that contains \<open>Exit\<close> never leaves the program waiting at the
  menu, and the choices after \<open>Exit\<close> are never read: the session is the same as
  with the script cut after \<open>Exit\<close>.\<close>

theorem exit_ends_session:
  "run clock stored (script @ (now, Exit) # rest) = run clock stored (script @ [(now, Exit)]) \<and>
   (case run clock stored (script @ [(now, Exit)]) of Waiting out db \<Rightarrow> False | _ \<Rightarrow> True)"
  by (simp add: run_def case_prod_beta menu_loop_append split: session.splits)

text \<open>C19. A session without updates reaches the farewell. When the file holds a
  well-formed database or does not exist, every command is handled at a valid time
  of the year 1000 or later and the user never chooses \<open>Update an existing
  habit\<close> before \<open>Exit\<close>, the session is not ended by an exception: it stops,
  the last line printed is the farewell, and the database is well-formed.\<close>

theorem session_reaches_farewell:
  assumes "app_ok (cli_init stored)" and "script_ok script" and "no_update script"
  shows "\<exists>out db. run clock stored (script @ (now, Exit) # rest) =
      Stopped (out @ [Line ''Ciao, C U around! ;)'']) db \<and> app_ok db"
  using menu_loop_no_update [OF check_and_populate_app_ok [OF assms(1), of clock] assms(2,3),
      of "[Line (render_population_msg (fst (check_and_populate_dummy_data clock (cli_init stored))))]"]
  by (auto simp: run_def case_prod_beta menu_loop_append)

theorem session_reaches_farewell_witness:
  "\<exists>out db. run (\<lambda>_. demo_now) (Some demo_db) (demo_script @ (demo_now, Exit) # []) =
      Stopped (out @ [Line ''Ciao, C U around! ;)'']) db \<and> app_ok db"
  by (rule session_reaches_farewell; code_simp)

text \<open>C34. Deleting everything brings the predefined data back. When the user has
  confirmed \<open>Delete everything in the app\<close> twice, the next start of the program
  finds a database without habits, loads the predefined data again and says so,
  whatever the database held before.\<close>

theorem restart_after_delete_all_repopulates:
  "run clock (Some (snd (delete_all_data db True True))) script =
     menu_loop (december_2024 clock (snd (delete_all_data db True True)))
       [Line ''No data found in the database. Dummy data populated successfully.''] script"
  by (simp add: run_def cli_init_def create_tables_def check_and_populate_dummy_data_def
      get_current_habits_def populate_dummy_data_eq delete_all_data_def delete_db_def)

end
